(* ===== verification/Edr_Prelude.thy ===== *)
theory Edr_Prelude
  imports Main "HOL-Library.Word" "HOL-Library.AList" "HOL-Library.Multiset"
begin

text \<open>
  Shared vocabulary of the development: the machine integers of the Rust sources, the
  comparison results of \<^verbatim>\<open>std::cmp\<close>, the list searches of the iterator API, and the insertion
  ordered map of the \<open>indexmap\<close> crate. Arithmetic on words wraps around, as it does in the
  published (release profile) build; \<open>usize\<close> counters and indices into in-memory vectors
  are natural numbers, because a vector cannot hold \<open>2^64\<close> elements.
\<close>

section \<open>Machine integers\<close>

type_synonym u64 = "64 word"
type_synonym u128 = "128 word"
type_synonym u256 = "256 word"
type_synonym b256 = "256 word"
type_synonym address = "160 word"

definition checked_sub :: "'a::len word \<Rightarrow> 'a word \<Rightarrow> 'a word option" where
  "checked_sub a b = (if b \<le> a then Some (a - b) else None)"

definition saturating_sub :: "'a::len word \<Rightarrow> 'a word \<Rightarrow> 'a word" where
  "saturating_sub a b = (if b \<le> a then a - b else 0)"

definition saturating_add :: "'a::len word \<Rightarrow> 'a word \<Rightarrow> 'a word" where
  "saturating_add a b = (if unat a + unat b < 2 ^ LENGTH('a) then a + b else - 1)"

definition saturating_mul :: "'a::len word \<Rightarrow> 'a word \<Rightarrow> 'a word" where
  "saturating_mul a b = (if unat a * unat b < 2 ^ LENGTH('a) then a * b else - 1)"

section \<open>Panics\<close>

text \<open>
  A call that may panic (\<^verbatim>\<open>expect\<close>, \<^verbatim>\<open>unwrap\<close>, an index out of range) returns an \<open>outcome\<close>.
\<close>

datatype 'a outcome = Panic | Return 'a

primrec bind_outcome :: "'a outcome \<Rightarrow> ('a \<Rightarrow> 'b outcome) \<Rightarrow> 'b outcome" where
  "bind_outcome Panic f = Panic"
| "bind_outcome (Return x) f = f x"

section \<open>Comparison results\<close>

datatype ordering = Less | Equal | Greater

definition cmp :: "'a::linorder \<Rightarrow> 'a \<Rightarrow> ordering" where
  "cmp a b = (if a < b then Less else if a = b then Equal else Greater)"

text \<open>\<^verbatim>\<open>Iterator::min_by\<close>: the first of the least elements.\<close>

fun min_by :: "('a \<Rightarrow> 'a \<Rightarrow> ordering) \<Rightarrow> 'a list \<Rightarrow> 'a option" where
  "min_by c [] = None"
| "min_by c (x # xs) =
     Some (foldl (\<lambda>acc y. case c acc y of Greater \<Rightarrow> y | _ \<Rightarrow> acc) x xs)"

section \<open>Searching vectors\<close>

text \<open>\<^verbatim>\<open>iter().enumerate().find(..)\<close>, with the index the enumeration starts at.\<close>

fun find_enum :: "(nat \<Rightarrow> 'a \<Rightarrow> bool) \<Rightarrow> nat \<Rightarrow> 'a list \<Rightarrow> nat option" where
  "find_enum P i [] = None"
| "find_enum P i (x # xs) = (if P i x then Some i else find_enum P (Suc i) xs)"

text \<open>\<^verbatim>\<open>Vec::remove(idx)\<close> on an index in range.\<close>

definition remove_nth :: "nat \<Rightarrow> 'a list \<Rightarrow> 'a list" where
  "remove_nth i xs = take i xs @ drop (Suc i) xs"

section \<open>Insertion ordered maps\<close>

text \<open>
  An \<open>IndexMap\<close> is its list of entries in insertion order. \<^const>\<open>map_of\<close> is \<open>get\<close>,
  \<^const>\<open>AList.update\<close> is \<open>insert\<close> (an existing key keeps its position, a new one goes
  last) and \<^const>\<open>AList.delete\<close> is \<open>shift_remove\<close>.
\<close>

type_synonym ('k, 'v) index_map = "('k \<times> 'v) list"

text \<open>All vectors stored in the map, flattened: \<^verbatim>\<open>values().flatten()\<close>.\<close>

definition im_values :: "('k, 'v list) index_map \<Rightarrow> 'v list" where
  "im_values m = concat (map snd m)"

text \<open>\<^verbatim>\<open>entry(k).and_modify(|xs| xs.append(vs)).or_insert(vs)\<close>.\<close>

definition entry_append :: "'k \<Rightarrow> 'v list \<Rightarrow> ('k, 'v list) index_map \<Rightarrow> ('k, 'v list) index_map" where
  "entry_append k vs m =
     AList.update k (case map_of m k of Some ws \<Rightarrow> ws @ vs | None \<Rightarrow> vs) m"

named_theorems unat_simps \<open>reading saturating and checked word arithmetic as natural numbers\<close>

lemma bind_outcome_Return [simp]:
  "bind_outcome r f = Return y \<longleftrightarrow> (\<exists>x. r = Return x \<and> f x = Return y)"
  by (cases r) auto

section \<open>Lemmas on words\<close>

lemma unat_sub_le: "b \<le> a \<Longrightarrow> unat (a - b :: 'a::len word) = unat a - unat b"
  by (simp add: unat_sub)

lemma checked_sub_Some [unat_simps]:
  "checked_sub a b = Some c \<longleftrightarrow> b \<le> a \<and> c = a - b"
  by (auto simp: checked_sub_def)

lemma checked_sub_None [unat_simps]: "checked_sub a b = None \<longleftrightarrow> a < b"
  by (auto simp: checked_sub_def not_le)

lemma unat_saturating_sub [unat_simps]: "unat (saturating_sub a b) = unat a - unat b"
  by (auto simp: saturating_sub_def unat_sub_le word_le_nat_alt)

lemma unat_max_word: "unat (- 1 :: 'a::len word) = 2 ^ LENGTH('a) - 1"
  by (simp add: unsigned_minus_1_eq_mask mask_eq_exp_minus_1)

lemma unat_saturating_add [unat_simps]:
  "unat (saturating_add a b :: 'a::len word) = min (unat a + unat b) (2 ^ LENGTH('a) - 1)"
proof (cases "unat a + unat b < 2 ^ LENGTH('a)")
  case True
  then show ?thesis by (simp add: saturating_add_def unat_word_ariths)
next
  case False
  then have "2 ^ LENGTH('a) - 1 \<le> unat a + unat b" by simp
  with False show ?thesis by (simp add: saturating_add_def unat_max_word min_absorb2)
qed

lemma unat_saturating_mul [unat_simps]:
  "unat (saturating_mul a b :: 'a::len word) = min (unat a * unat b) (2 ^ LENGTH('a) - 1)"
proof (cases "unat a * unat b < 2 ^ LENGTH('a)")
  case True
  then show ?thesis by (simp add: saturating_mul_def unat_word_ariths)
next
  case False
  then have "2 ^ LENGTH('a) - 1 \<le> unat a * unat b" by linarith
  with False show ?thesis by (simp add: saturating_mul_def unat_max_word min_absorb2)
qed

lemma unat_ucast_up:
  assumes "LENGTH('a) \<le> LENGTH('b)"
  shows "unat (ucast (w :: 'a::len word) :: 'b::len word) = unat w"
proof -
  have "unat w < 2 ^ LENGTH('b)"
    using assms by (rule order.strict_trans2 [OF unsigned_less power_increasing]) simp
  then show ?thesis by (simp add: unsigned_ucast_eq take_bit_nat_eq_self)
qed

lemma unat_add_no_overflow:
  "unat (a :: 'a::len word) + unat b < 2 ^ LENGTH('a) \<Longrightarrow> unat (a + b) = unat a + unat b"
  by (simp add: unat_word_ariths)

lemma unat_mult_no_overflow:
  "unat (a :: 'a::len word) * unat b < 2 ^ LENGTH('a) \<Longrightarrow> unat (a * b) = unat a * unat b"
  by (simp add: unat_word_ariths)

lemma word_eq_add_diff: "n \<le> k \<Longrightarrow> (k :: 'a::len word) = n + of_nat (unat k - unat n)"
  by (simp add: word_le_nat_alt flip: unat_sub_le)

lemma unat_add_of_nat:
  "unat (n :: 'a::len word) + l < 2 ^ LENGTH('a) \<Longrightarrow> unat (n + of_nat l) = unat n + l"
  by (simp add: unat_word_ariths unat_of_nat take_bit_nat_eq_self)

section \<open>Lemmas on searches\<close>

lemma find_enum_None: "find_enum P i xs = None \<longleftrightarrow> (\<forall>j < length xs. \<not> P (i + j) (xs ! j))"
  by (induction xs arbitrary: i) (simp_all add: All_less_Suc2)

lemma find_enum_Some:
  "find_enum P i xs = Some k \<longleftrightarrow>
     (\<exists>j < length xs. k = i + j \<and> P k (xs ! j) \<and> (\<forall>l < j. \<not> P (i + l) (xs ! l)))"
  by (induction xs arbitrary: i) (auto simp: Ex_less_Suc2 All_less_Suc2)

lemma find_enum_0_Some:
  "find_enum P 0 xs = Some k \<longleftrightarrow> k < length xs \<and> P k (xs ! k) \<and> (\<forall>l < k. \<not> P l (xs ! l))"
  by (auto simp: find_enum_Some)

lemma find_enum_0_None: "find_enum P 0 xs = None \<longleftrightarrow> (\<forall>j < length xs. \<not> P j (xs ! j))"
  by (simp add: find_enum_None)

lemma mset_remove_nth: "i < length xs \<Longrightarrow> mset xs = add_mset (xs ! i) (mset (remove_nth i xs))"
  by (metis id_take_nth_drop mset.simps(2) mset_append remove_nth_def union_mset_add_mset_right)

lemma length_remove_nth [simp]: "i < length xs \<Longrightarrow> length (remove_nth i xs) = length xs - 1"
  by (auto simp: remove_nth_def)

lemma set_remove_nth: "set (remove_nth i xs) \<subseteq> set xs"
  by (auto simp: remove_nth_def dest: in_set_takeD in_set_dropD)

section \<open>The comparator interface\<close>

text \<open>
  What \<^const>\<open>min_by\<close> relies on: the comparison is a total preorder. The client lemmas say
  which element the search returns.
\<close>

locale total_comparator =
  fixes compare :: "'a \<Rightarrow> 'a \<Rightarrow> ordering"
  assumes compare_refl: "compare x x = Equal"
    and compare_flip: "compare x y = Less \<longleftrightarrow> compare y x = Greater"
    and compare_trans: "compare x y \<noteq> Greater \<Longrightarrow> compare y z \<noteq> Greater \<Longrightarrow> compare x z \<noteq> Greater"
begin

lemma compare_less_trans:
  "compare x y = Greater \<Longrightarrow> compare z y \<noteq> Greater \<Longrightarrow> compare x z = Greater"
  using compare_flip compare_trans by blast

lemma min_fold_least:
  "m = foldl (\<lambda>acc y. case compare acc y of Greater \<Rightarrow> y | _ \<Rightarrow> acc) x xs \<Longrightarrow>
     \<exists>ys zs. x # xs = ys @ m # zs \<and> (\<forall>y \<in> set ys. compare y m = Greater)
       \<and> (\<forall>y \<in> set (x # xs). compare m y \<noteq> Greater)"
proof (induction xs arbitrary: x m rule: rev_induct)
  case Nil
  then show ?case by (intro exI [of _ "[]"] exI [of _ "[]"]) (simp add: compare_refl)
next
  case (snoc y xs)
  define n where "n = foldl (\<lambda>acc y. case compare acc y of Greater \<Rightarrow> y | _ \<Rightarrow> acc) x xs"
  from snoc.IH [OF n_def] obtain ys zs where n: "x # xs = ys @ n # zs"
    "\<forall>u \<in> set ys. compare u n = Greater" "\<forall>u \<in> set (x # xs). compare n u \<noteq> Greater"
    by blast
  have m: "m = (case compare n y of Greater \<Rightarrow> y | _ \<Rightarrow> n)"
    using snoc.prems unfolding n_def by simp
  show ?case
  proof (cases "compare n y = Greater")
    case True
    have "compare u y = Greater" if "u \<in> set (x # xs)" for u
      using that n(3) True compare_flip compare_trans by blast
    moreover have "compare y u \<noteq> Greater" if "u \<in> set (x # xs)" for u
      using that n(3) True compare_flip compare_trans by (metis ordering.distinct(3))
    ultimately show ?thesis
      using True m by (intro exI [of _ "x # xs"] exI [of _ "[]"]) (auto simp: compare_refl)
  next
    case False
    then have "m = n" using m by (cases "compare n y") auto
    moreover have "x # (xs @ [y]) = ys @ n # (zs @ [y])"
      using n(1) by (metis append.assoc append_Cons)
    moreover have "\<forall>u \<in> set (x # (xs @ [y])). compare n u \<noteq> Greater"
      using n(3) False by simp
    ultimately show ?thesis
      using n(2) by blast
  qed
qed

lemma min_by_SomeE:
  assumes "min_by compare xs = Some m"
  obtains ys zs where "xs = ys @ m # zs"
    and "\<And>y. y \<in> set ys \<Longrightarrow> compare y m = Greater"
    and "\<And>y. y \<in> set xs \<Longrightarrow> compare m y \<noteq> Greater"
proof (cases xs)
  case Nil
  with assms show ?thesis by simp
next
  case (Cons x xs')
  with assms have "m = foldl (\<lambda>acc y. case compare acc y of Greater \<Rightarrow> y | _ \<Rightarrow> acc) x xs'"
    by simp
  from min_fold_least [OF this] show ?thesis using that Cons by blast
qed

text \<open>Comparing by a key, as a closure over the comparison does.\<close>

lemma by_key: "total_comparator (\<lambda>x y. compare (f x) (f y))"
  using compare_refl compare_flip compare_trans by unfold_locales blast+

end

lemma min_by_None [simp]: "min_by c xs = None \<longleftrightarrow> xs = []"
  by (cases xs) auto

lemma cmp_simps [simp]:
  "cmp a b = Less \<longleftrightarrow> a < b"
  "cmp a b = Equal \<longleftrightarrow> a = b"
  "cmp a b = Greater \<longleftrightarrow> b < a"
  by (auto simp: cmp_def)

section \<open>The insertion ordered map interface\<close>

text \<open>
  What the memory pool relies on of \<open>IndexMap\<close>: lookups after an update or a removal, the
  order of the keys, and that every operation keeps the keys distinct.
\<close>

locale index_map_spec =
  fixes get :: "'m \<Rightarrow> 'k \<Rightarrow> 'v option"
    and insert :: "'k \<Rightarrow> 'v \<Rightarrow> 'm \<Rightarrow> 'm"
    and shift_remove :: "'k \<Rightarrow> 'm \<Rightarrow> 'm"
    and keys :: "'m \<Rightarrow> 'k list"
    and invar :: "'m \<Rightarrow> bool"
  assumes get_insert: "invar m \<Longrightarrow> get (insert k v m) = (get m)(k \<mapsto> v)"
    and get_shift_remove: "invar m \<Longrightarrow> get (shift_remove k m) = (get m)(k := None)"
    and get_keys: "invar m \<Longrightarrow> dom (get m) = set (keys m)"
    and keys_insert: "invar m \<Longrightarrow>
      keys (insert k v m) = (if k \<in> set (keys m) then keys m else keys m @ [k])"
    and keys_shift_remove: "invar m \<Longrightarrow> keys (shift_remove k m) = filter (\<lambda>k'. k' \<noteq> k) (keys m)"
    and invar_insert: "invar m \<Longrightarrow> invar (insert k v m)"
    and invar_shift_remove: "invar m \<Longrightarrow> invar (shift_remove k m)"
begin

lemma all_insert:
  assumes "invar m" and "\<And>k' w. get m k' = Some w \<Longrightarrow> k' \<noteq> k \<Longrightarrow> P k' w" and "P k v"
    and "get (insert k v m) k' = Some w"
  shows "P k' w"
  using assms by (auto simp: get_insert split: if_splits)

lemma all_shift_remove:
  assumes "invar m" and "\<And>k' w. get m k' = Some w \<Longrightarrow> k' \<noteq> k \<Longrightarrow> P k' w"
    and "get (shift_remove k m) k' = Some w"
  shows "P k' w"
  using assms by (auto simp: get_shift_remove split: if_splits)

end

abbreviation im_keys :: "('k, 'v) index_map \<Rightarrow> 'k list" where
  "im_keys m \<equiv> map fst m"

abbreviation im_ok :: "('k, 'v) index_map \<Rightarrow> bool" where
  "im_ok m \<equiv> distinct (im_keys m)"

lemma keys_delete: "im_keys (AList.delete k m) = filter (\<lambda>k'. k' \<noteq> k) (im_keys m)"
  by (induction m) auto

lemma keys_update:
  "im_keys (AList.update k v m) = (if k \<in> set (im_keys m) then im_keys m else im_keys m @ [k])"
  by (induction m) auto

interpretation im: index_map_spec map_of AList.update AList.delete "map fst" im_ok
proof (unfold_locales, goal_cases)
  case (1 m k v) show ?case by (rule update_conv')
next
  case (2 m k) show ?case by (simp add: delete_conv')
next
  case (3 m) show ?case by (simp add: dom_map_of_conv_image_fst)
next
  case (4 m k v) show ?case by (rule keys_update)
next
  case (5 m k) show ?case by (rule keys_delete)
next
  case (6 m k v) then show ?case by (simp add: distinct_update)
next
  case (7 m k) then show ?case by (simp add: distinct_delete)
qed

lemma set_im_update: "set (AList.update k v m) \<subseteq> insert (k, v) (set m)"
  by (induction m) auto

lemma set_im_delete: "set (AList.delete k m) \<subseteq> set m"
  by (auto simp: AList.delete_eq)

lemma im_delete_absent [simp]: "map_of m k = None \<Longrightarrow> AList.delete k m = m"
  by (induction m) (auto split: if_splits)

lemma im_values_Nil [simp]: "im_values [] = []"
  by (simp add: im_values_def)

lemma im_values_Cons [simp]: "im_values ((k, vs) # m) = vs @ im_values m"
  by (simp add: im_values_def)

lemma set_im_values: "im_ok m \<Longrightarrow> x \<in> set (im_values m) \<longleftrightarrow> (\<exists>k vs. map_of m k = Some vs \<and> x \<in> set vs)"
  by (auto simp: im_values_def) (force simp: map_of_eq_Some_iff)+

lemma mset_im_values_delete:
  "im_ok m \<Longrightarrow> map_of m k = Some vs \<Longrightarrow> mset (im_values m) = mset vs + mset (im_values (AList.delete k m))"
proof (induction m)
  case (Cons e m)
  obtain k' ws where e: "e = (k', ws)" by (cases e)
  show ?case
  proof (cases "k' = k")
    case True
    with Cons.prems e have "map_of m k = None" "ws = vs" by (auto simp: map_of_eq_None_iff)
    with True e show ?thesis by simp
  next
    case False
    with Cons e show ?thesis by simp
  qed
qed simp

lemma mset_im_values_update:
  "im_ok m \<Longrightarrow> mset (im_values (AList.update k vs m)) = mset vs + mset (im_values (AList.delete k m))"
proof (induction m)
  case (Cons e m)
  obtain k' ws where e: "e = (k', ws)" by (cases e)
  show ?case
  proof (cases "k' = k")
    case True
    with Cons.prems e have "map_of m k = None" by (auto simp: map_of_eq_None_iff)
    with True e show ?thesis by simp
  next
    case False
    with Cons e show ?thesis by simp
  qed
qed simp

lemma entry_append_ok [simp]: "im_ok m \<Longrightarrow> im_ok (entry_append k vs m)"
  by (simp add: entry_append_def distinct_update)

lemma map_of_entry_append:
  "map_of (entry_append k vs m) =
     (map_of m)(k \<mapsto> (case map_of m k of Some ws \<Rightarrow> ws @ vs | None \<Rightarrow> vs))"
  by (simp add: entry_append_def update_conv')

lemma mset_entry_append:
  "im_ok m \<Longrightarrow> mset (im_values (entry_append k vs m)) = mset (im_values m) + mset vs"
  by (cases "map_of m k")
    (simp_all add: entry_append_def mset_im_values_update mset_im_values_delete)

end
