(* ===== verification/State_Api.thy ===== *)
theory State_Api
  imports Edr_Prelude
begin

text \<open>
  Accounts as the state interface (\<^verbatim>\<open>crates/state/api\<close>) exposes them. A state is read through
  the operation \<open>basic\<close> of the \<open>State\<close> trait, which may fail: it is a parameter
  \<open>address \<Rightarrow> 'e + account_info option\<close> of the components that use it.
\<close>

type_synonym bytecode = "8 word list"

record account_info =
  ai_balance :: u256
  ai_nonce :: u64
  ai_code_hash :: b256
  ai_code :: "bytecode option"

text \<open>The Keccak-256 hash of the empty string.\<close>

definition KECCAK_EMPTY :: b256 where
  "KECCAK_EMPTY = 0xc5d2460186f7233c927e7db2dcc703c0e500b653ca82273b7bfad8045d85a470"

definition default_account_info :: account_info where
  "default_account_info = \<lparr>ai_balance = 0, ai_nonce = 0, ai_code_hash = KECCAK_EMPTY, ai_code = Some []\<rparr>"

text \<open>\<^verbatim>\<open>unwrap_or_default()\<close> on the result of \<open>basic\<close>.\<close>

definition account_or_default :: "account_info option \<Rightarrow> account_info" where
  "account_or_default a = (case a of None \<Rightarrow> default_account_info | Some i \<Rightarrow> i)"

type_synonym 'e basic_fn = "address \<Rightarrow> 'e + account_info option"

lemma account_or_default_simps [simp]:
  "account_or_default None = default_account_info"
  "account_or_default (Some i) = i"
  by (simp_all add: account_or_default_def)

lemma default_account_info_simps [simp]:
  "ai_balance default_account_info = 0"
  "ai_nonce default_account_info = 0"
  by (simp_all add: default_account_info_def)

end
