(* ===== verification/Transactions.thy ===== *)
theory Transactions
  imports Edr_Prelude
begin

text \<open>
  Executable transactions: what the pool, the miner and the block builder read of a signed
  transaction through the traits \<open>ExecutableTransaction\<close>
  (\<^verbatim>\<open>crates/edr_chain_spec/src/transaction.rs\<close>) and \<open>TransactionType\<close>, one field per getter they
  call, and the up-front cost computed from it (\<^verbatim>\<open>crates/edr_transaction/src/lib.rs\<close>).
\<close>

record transaction =
  tx_caller :: address
  tx_gas_limit :: u64
  tx_gas_price :: u128
  tx_value :: u256
  tx_nonce :: u64
  tx_max_fee_per_gas :: "u128 option"
  tx_max_priority_fee_per_gas :: "u128 option"
  tx_blob_hashes :: "b256 list"
  tx_max_fee_per_blob_gas :: "u128 option"
  tx_total_blob_gas :: "u64 option"
  tx_kind_to :: "address option"
  tx_effective_gas_price :: "u128 \<Rightarrow> u128 option"
  tx_type :: "8 word"
  tx_hash :: b256

definition max_cost :: "transaction \<Rightarrow> u128" where
  "max_cost tx = saturating_mul (ucast (tx_gas_limit tx)) (tx_gas_price tx)"

definition upfront_cost :: "transaction \<Rightarrow> u256" where
  "upfront_cost tx = saturating_add (ucast (max_cost tx)) (tx_value tx)"

section \<open>The cost formula\<close>

lemma unat_max_cost:
  "unat (max_cost tx) = min (unat (tx_gas_limit tx) * unat (tx_gas_price tx)) (2 ^ 128 - 1)"
  by (simp add: max_cost_def unat_saturating_mul unat_ucast_up)

lemma unat_upfront_cost:
  "unat (upfront_cost tx) = min (unat (max_cost tx) + unat (tx_value tx)) (2 ^ 256 - 1)"
  by (simp add: upfront_cost_def unat_saturating_add unat_ucast_up)

section \<open>A sample transaction\<close>

text \<open>A transfer of one wei with a gas limit of 21000, for the evaluation of concrete cases.\<close>

definition sample_tx :: "address \<Rightarrow> u64 \<Rightarrow> u128 \<Rightarrow> b256 \<Rightarrow> transaction" where
  "sample_tx caller nonce price h =
     \<lparr>tx_caller = caller, tx_gas_limit = 21000, tx_gas_price = price, tx_value = 1,
      tx_nonce = nonce, tx_max_fee_per_gas = None, tx_max_priority_fee_per_gas = None,
      tx_blob_hashes = [], tx_max_fee_per_blob_gas = None, tx_total_blob_gas = None,
      tx_kind_to = Some 0, tx_effective_gas_price = (\<lambda>_. None), tx_type = 0, tx_hash = h\<rparr>"

end
