(* ===== verification/Mem_Pool.thy ===== *)
theory Mem_Pool
  imports State_Api Transactions
begin

text \<open>
  The memory pool (\<^verbatim>\<open>crates/mem_pool/src/lib.rs\<close>): transactions waiting for inclusion in a
  block. Per sender there is a queue of \<^emph>\<open>pending\<close> transactions, whose nonces follow each other
  and which can be mined now, and a queue of \<^emph>\<open>future\<close> transactions, whose nonces are too high;
  an index maps transaction hashes to queued transactions. The section on the model has the
  pool's operations in the order of the source; then come the invariant \<open>pool_inv\<close>, the
  abstraction of a pool to the multiset of its transactions, and what each operation does to
  both.
\<close>

section \<open>The model\<close>

record ordered_transaction =
  ot_order_id :: nat
  ot_transaction :: transaction

definition ot_caller :: "ordered_transaction \<Rightarrow> address" where
  "ot_caller t = tx_caller (ot_transaction t)"

definition ot_hash :: "ordered_transaction \<Rightarrow> b256" where
  "ot_hash t = tx_hash (ot_transaction t)"

definition ot_nonce :: "ordered_transaction \<Rightarrow> u64" where
  "ot_nonce t = tx_nonce (ot_transaction t)"

type_synonym tx_queues = "(address, ordered_transaction list) index_map"

record mem_pool =
  mp_block_gas_limit :: "u64 option"
  mp_pending_transactions :: tx_queues
  mp_hash_to_transaction :: "b256 \<rightharpoonup> ordered_transaction"
  mp_future_transactions :: tx_queues
  mp_next_order_id :: nat
  mp_transaction_gas_cap :: "u64 option"

datatype 'e add_error =
    ExceedsBlockGasLimit u64 u64
  | ExceedsTransactionGasCap u64 u64
  | InsufficientFunds u256 u256
  | NonceTooLow u64 u64
  | TransactionAlreadyExists b256
  | StateFailure 'e
  | ReplacementMaxFeePerGasTooLow u128 u64
  | ReplacementMaxPriorityFeePerGasTooLow u128 u64

definition mem_pool_new :: "u64 option \<Rightarrow> u64 option \<Rightarrow> mem_pool" where
  "mem_pool_new block_gas_limit transaction_gas_cap =
     \<lparr>mp_block_gas_limit = block_gas_limit,
      mp_pending_transactions = [],
      mp_hash_to_transaction = Map.empty,
      mp_future_transactions = [],
      mp_next_order_id = 0,
      mp_transaction_gas_cap = transaction_gas_cap\<rparr>"

definition last_pending_nonce :: "mem_pool \<Rightarrow> address \<Rightarrow> u64 option outcome" where
  "last_pending_nonce p a =
     (case map_of (mp_pending_transactions p) a of
        None \<Rightarrow> Return None
      | Some [] \<Rightarrow> Panic
      | Some (t # ts) \<Rightarrow> Return (Some (ot_nonce (last (t # ts)))))"

definition future_transactions :: "mem_pool \<Rightarrow> ordered_transaction list" where
  "future_transactions p = im_values (mp_future_transactions p)"

definition pending_transactions :: "mem_pool \<Rightarrow> ordered_transaction list" where
  "pending_transactions p = im_values (mp_pending_transactions p)"

definition pool_transactions :: "mem_pool \<Rightarrow> transaction list" where
  "pool_transactions p =
     map ot_transaction
       (im_values (mp_pending_transactions p) @ im_values (mp_future_transactions p))"

definition has_future_transactions :: "mem_pool \<Rightarrow> bool" where
  "has_future_transactions p \<longleftrightarrow> mp_future_transactions p \<noteq> []"

definition has_pending_transactions :: "mem_pool \<Rightarrow> bool" where
  "has_pending_transactions p \<longleftrightarrow> mp_pending_transactions p \<noteq> []"

definition has_transactions :: "mem_pool \<Rightarrow> bool" where
  "has_transactions p \<longleftrightarrow> has_future_transactions p \<or> has_pending_transactions p"

definition transaction_by_hash :: "mem_pool \<Rightarrow> b256 \<Rightarrow> ordered_transaction option" where
  "transaction_by_hash p h = mp_hash_to_transaction p h"

text \<open>The queue of the caller and the position of the transaction with the given hash in it.\<close>

definition find_by_hash ::
  "tx_queues \<Rightarrow> address \<Rightarrow> b256 \<Rightarrow> (ordered_transaction list \<times> nat) option" where
  "find_by_hash m caller h =
     (case map_of m caller of
        None \<Rightarrow> None
      | Some q \<Rightarrow> map_option (Pair q) (find_enum (\<lambda>_ t. ot_hash t = h) 0 q))"

definition remove_transaction :: "mem_pool \<Rightarrow> b256 \<Rightarrow> ordered_transaction option \<times> mem_pool" where
  "remove_transaction p h =
     (case mp_hash_to_transaction p h of
        None \<Rightarrow> (None, p)
      | Some old \<Rightarrow>
          (let caller = ot_caller old;
               p1 = p\<lparr>mp_hash_to_transaction := (mp_hash_to_transaction p)(h := None)\<rparr>
           in case find_by_hash (mp_pending_transactions p) caller h of
                Some (q, idx) \<Rightarrow>
                  (let invalidated = drop (idx + 1) q;
                       rest = take idx q
                   in (Some (q ! idx),
                       p1\<lparr>mp_pending_transactions :=
                            (if rest = [] then AList.delete caller (mp_pending_transactions p)
                             else AList.update caller rest (mp_pending_transactions p)),
                          mp_future_transactions :=
                            entry_append caller invalidated (mp_future_transactions p)\<rparr>))
              | None \<Rightarrow>
                  (case find_by_hash (mp_future_transactions p) caller h of
                     Some (q, idx) \<Rightarrow>
                       (let rest = remove_nth idx q
                        in (Some (q ! idx),
                            p1\<lparr>mp_future_transactions :=
                                 (if rest = [] then AList.delete caller (mp_future_transactions p)
                                  else AList.update caller rest (mp_future_transactions p))\<rparr>))
                   | None \<Rightarrow> (None, p1))))"

subsection \<open>Updating the pool to a new state\<close>

definition is_valid_tx :: "transaction \<Rightarrow> u64 option \<Rightarrow> account_info \<Rightarrow> bool" where
  "is_valid_tx tx block_gas_limit sender \<longleftrightarrow>
     (case block_gas_limit of None \<Rightarrow> True | Some l \<Rightarrow> tx_gas_limit tx \<le> l)
     \<and> upfront_cost tx \<le> ai_balance sender
     \<and> ai_nonce sender \<le> tx_nonce tx"

text \<open>\<^verbatim>\<open>Vec::retain\<close> with the closure that also drops rejected transactions from the index.\<close>

fun retain_valid ::
  "u64 option \<Rightarrow> account_info \<Rightarrow> ordered_transaction list \<Rightarrow> (b256 \<rightharpoonup> ordered_transaction)
     \<Rightarrow> ordered_transaction list \<times> (b256 \<rightharpoonup> ordered_transaction)" where
  "retain_valid limit sender [] hm = ([], hm)"
| "retain_valid limit sender (t # ts) hm =
     (if is_valid_tx (ot_transaction t) limit sender
      then (let (ts', hm') = retain_valid limit sender ts hm in (t # ts', hm'))
      else retain_valid limit sender ts (hm(ot_hash t := None)))"

text \<open>
  The loop over the pending queues. A failing state read ends it: the entries before the
  failing one have been processed, the others are as they were.
\<close>

fun update_pending ::
  "'e basic_fn \<Rightarrow> u64 option \<Rightarrow> tx_queues \<Rightarrow> (b256 \<rightharpoonup> ordered_transaction) \<Rightarrow> tx_queues
     \<Rightarrow> ('e + unit) \<times> tx_queues \<times> (b256 \<rightharpoonup> ordered_transaction) \<times> tx_queues" where
  "update_pending basic limit [] hm fut = (Inr (), [], hm, fut)"
| "update_pending basic limit ((caller, q) # m) hm fut =
     (case basic caller of
        Inl e \<Rightarrow> (Inl e, (caller, q) # m, hm, fut)
      | Inr account \<Rightarrow>
          (let sender = account_or_default account;
               (kept, hm') = retain_valid limit sender q hm;
               (q', fut') =
                 (case find_enum (\<lambda>idx t. ot_nonce t \<noteq> ai_nonce sender + of_nat idx) 0 kept of
                    Some idx \<Rightarrow> (take idx kept, entry_append caller (drop idx kept) fut)
                  | None \<Rightarrow> (kept, fut));
               (r, m', hm'', fut'') = update_pending basic limit m hm' fut'
           in (r, (caller, q') # m', hm'', fut'')))"

fun update_future ::
  "'e basic_fn \<Rightarrow> u64 option \<Rightarrow> tx_queues \<Rightarrow> (b256 \<rightharpoonup> ordered_transaction)
     \<Rightarrow> ('e + unit) \<times> tx_queues \<times> (b256 \<rightharpoonup> ordered_transaction)" where
  "update_future basic limit [] hm = (Inr (), [], hm)"
| "update_future basic limit ((caller, q) # m) hm =
     (case basic caller of
        Inl e \<Rightarrow> (Inl e, (caller, q) # m, hm)
      | Inr account \<Rightarrow>
          (let sender = account_or_default account;
               (kept, hm') = retain_valid limit sender q hm;
               (r, m', hm'') = update_future basic limit m hm'
           in (r, (caller, kept) # m', hm'')))"

definition remove_empty_queues :: "tx_queues \<Rightarrow> tx_queues" where
  "remove_empty_queues m = filter (\<lambda>(_, q). q \<noteq> []) m"

definition mem_pool_update :: "mem_pool \<Rightarrow> 'e basic_fn \<Rightarrow> ('e + unit) \<times> mem_pool" where
  "mem_pool_update p basic =
     (let limit = mp_block_gas_limit p
      in case update_pending basic limit (mp_pending_transactions p)
                (mp_hash_to_transaction p) (mp_future_transactions p) of
           (Inl e, pend, hm, fut) \<Rightarrow>
             (Inl e, p\<lparr>mp_pending_transactions := pend, mp_hash_to_transaction := hm,
                       mp_future_transactions := fut\<rparr>)
         | (Inr _, pend, hm, fut) \<Rightarrow>
             (let pend' = remove_empty_queues pend
              in case update_future basic limit fut hm of
                   (Inl e, fut', hm') \<Rightarrow>
                     (Inl e, p\<lparr>mp_pending_transactions := pend', mp_hash_to_transaction := hm',
                               mp_future_transactions := fut'\<rparr>)
                 | (Inr _, fut', hm') \<Rightarrow>
                     (Inr (), p\<lparr>mp_pending_transactions := pend', mp_hash_to_transaction := hm',
                                mp_future_transactions := remove_empty_queues fut'\<rparr>)))"

definition set_block_gas_limit ::
  "mem_pool \<Rightarrow> 'e basic_fn \<Rightarrow> u64 option \<Rightarrow> ('e + unit) \<times> mem_pool" where
  "set_block_gas_limit p basic limit =
     mem_pool_update (p\<lparr>mp_block_gas_limit := limit\<rparr>) basic"

subsection \<open>Adding a transaction\<close>

definition min_new_fee :: "u128 \<Rightarrow> u128" where
  "min_new_fee fee =
     (let min_new_priority_fee = fee * 110;
          one_hundred = 100
      in if min_new_priority_fee mod one_hundred = 0
         then min_new_priority_fee div one_hundred
         else min_new_priority_fee div one_hundred + 1)"

definition priority_fee_or_price :: "transaction \<Rightarrow> u128" where
  "priority_fee_or_price tx =
     (case tx_max_priority_fee_per_gas tx of Some f \<Rightarrow> f | None \<Rightarrow> tx_gas_price tx)"

definition validate_replacement_transaction ::
  "transaction \<Rightarrow> transaction \<Rightarrow> 'e add_error + unit" where
  "validate_replacement_transaction old new =
     (let min_new_max_fee_per_gas = min_new_fee (tx_gas_price old)
      in if tx_gas_price new < min_new_max_fee_per_gas
         then Inl (ReplacementMaxFeePerGasTooLow min_new_max_fee_per_gas (tx_nonce old))
         else
           (let min_new_max_priority_fee_per_gas = min_new_fee (priority_fee_or_price old)
            in if priority_fee_or_price new < min_new_max_priority_fee_per_gas
               then Inl (ReplacementMaxPriorityFeePerGasTooLow
                           min_new_max_priority_fee_per_gas (tx_nonce old))
               else Inr ()))"

text \<open>The loop that moves future transactions to the pending queue while nonces follow.\<close>

function promote_future ::
  "u64 \<Rightarrow> ordered_transaction list \<Rightarrow> ordered_transaction list
     \<Rightarrow> ordered_transaction list \<times> ordered_transaction list" where
  "promote_future next_pending_nonce pend fut =
     (case find_enum (\<lambda>_ t. ot_nonce t = next_pending_nonce) 0 fut of
        None \<Rightarrow> (pend, fut)
      | Some idx \<Rightarrow>
          promote_future (next_pending_nonce + 1) (pend @ [fut ! idx]) (remove_nth idx fut))"
  by pat_completeness auto
termination
  by (relation "measure (\<lambda>(_, _, fut). length fut)") (auto simp: find_enum_0_Some)

declare promote_future.simps [simp del]

text \<open>The end of \<open>insert_pending_transaction\<close>, where no transaction is replaced.\<close>

definition push_pending :: "mem_pool \<Rightarrow> ordered_transaction \<Rightarrow> mem_pool" where
  "push_pending p t =
     (let caller = ot_caller t;
          pend = (case map_of (mp_pending_transactions p) caller of Some q \<Rightarrow> q | None \<Rightarrow> []) @ [t]
      in case map_of (mp_future_transactions p) caller of
           None \<Rightarrow>
             p\<lparr>mp_pending_transactions := AList.update caller pend (mp_pending_transactions p)\<rparr>
         | Some fut \<Rightarrow>
             (let (pend', fut') = promote_future (ot_nonce t + 1) pend fut
              in p\<lparr>mp_pending_transactions :=
                     AList.update caller pend' (mp_pending_transactions p),
                   mp_future_transactions :=
                     (if fut' = [] then AList.delete caller (mp_future_transactions p)
                      else AList.update caller fut' (mp_future_transactions p))\<rparr>))"

definition insert_pending_transaction ::
  "mem_pool \<Rightarrow> ordered_transaction \<Rightarrow> ('e add_error + unit) \<times> mem_pool" where
  "insert_pending_transaction p t =
     (let caller = ot_caller t
      in case map_of (mp_pending_transactions p) caller of
           None \<Rightarrow> (Inr (), push_pending p t)
         | Some q \<Rightarrow>
             (case find_enum (\<lambda>_ u. ot_nonce t = ot_nonce u) 0 q of
                None \<Rightarrow> (Inr (), push_pending p t)
              | Some i \<Rightarrow>
                  (case validate_replacement_transaction
                          (ot_transaction (q ! i)) (ot_transaction t) of
                     Inl e \<Rightarrow> (Inl e, p)
                   | Inr _ \<Rightarrow>
                       (Inr (),
                        p\<lparr>mp_hash_to_transaction :=
                             (mp_hash_to_transaction p)(ot_hash (q ! i) := None),
                          mp_pending_transactions :=
                             AList.update caller (q[i := t]) (mp_pending_transactions p)\<rparr>))))"

definition insert_future_transaction ::
  "mem_pool \<Rightarrow> ordered_transaction \<Rightarrow> ('e add_error + unit) \<times> mem_pool" where
  "insert_future_transaction p t =
     (let caller = ot_caller t;
          push = p\<lparr>mp_future_transactions := entry_append caller [t] (mp_future_transactions p)\<rparr>
      in case map_of (mp_future_transactions p) caller of
           None \<Rightarrow> (Inr (), push)
         | Some q \<Rightarrow>
             (case find_enum (\<lambda>_ u. ot_nonce t = ot_nonce u) 0 q of
                None \<Rightarrow> (Inr (), push)
              | Some i \<Rightarrow>
                  (case validate_replacement_transaction
                          (ot_transaction (q ! i)) (ot_transaction t) of
                     Inl e \<Rightarrow> (Inl e, p)
                   | Inr _ \<Rightarrow>
                       (Inr (),
                        p\<lparr>mp_hash_to_transaction :=
                             (mp_hash_to_transaction p)(ot_hash (q ! i) := None),
                          mp_future_transactions :=
                             AList.update caller (q[i := t]) (mp_future_transactions p)\<rparr>))))"

definition account_next_nonce ::
  "mem_pool \<Rightarrow> 'e basic_fn \<Rightarrow> address \<Rightarrow> ('e + u64) outcome" where
  "account_next_nonce p basic a =
     (case last_pending_nonce p a of
        Panic \<Rightarrow> Panic
      | Return (Some nonce) \<Rightarrow> Return (Inr (nonce + 1))
      | Return None \<Rightarrow>
          Return (case basic a of
                    Inl e \<Rightarrow> Inl e
                  | Inr None \<Rightarrow> Inr 0
                  | Inr (Some account) \<Rightarrow> Inr (ai_nonce account)))"

text \<open>The two checks of the transaction's gas limit.\<close>

definition gas_cap_error :: "mem_pool \<Rightarrow> transaction \<Rightarrow> 'e add_error option" where
  "gas_cap_error p tx =
     (case mp_transaction_gas_cap p of
        Some cap \<Rightarrow>
          if cap < tx_gas_limit tx then Some (ExceedsTransactionGasCap cap (tx_gas_limit tx))
          else None
      | None \<Rightarrow> None)"

definition block_gas_error :: "mem_pool \<Rightarrow> transaction \<Rightarrow> 'e add_error option" where
  "block_gas_error p tx =
     (case mp_block_gas_limit p of
        Some limit \<Rightarrow>
          if limit < tx_gas_limit tx then Some (ExceedsBlockGasLimit limit (tx_gas_limit tx))
          else None
      | None \<Rightarrow> None)"

text \<open>The checks of \<open>add_transaction\<close> that precede the insertion, in the order of the source.\<close>

definition validate_new_transaction ::
  "mem_pool \<Rightarrow> 'e basic_fn \<Rightarrow> transaction \<Rightarrow> 'e add_error + unit" where
  "validate_new_transaction p basic tx =
     (case gas_cap_error p tx of
        Some e \<Rightarrow> Inl e
      | None \<Rightarrow>
     (case block_gas_error p tx of
        Some e \<Rightarrow> Inl e
      | None \<Rightarrow>
      if mp_hash_to_transaction p (tx_hash tx) \<noteq> None
      then Inl (TransactionAlreadyExists (tx_hash tx))
      else
     (case basic (tx_caller tx) of
        Inl e \<Rightarrow> Inl (StateFailure e)
      | Inr account \<Rightarrow>
          (let sender = account_or_default account
           in if tx_nonce tx < ai_nonce sender
              then Inl (NonceTooLow (tx_nonce tx) (ai_nonce sender))
              else if ai_balance sender < upfront_cost tx
              then Inl (InsufficientFunds (upfront_cost tx) (ai_balance sender))
              else Inr ()))))"

definition add_transaction ::
  "mem_pool \<Rightarrow> 'e basic_fn \<Rightarrow> transaction \<Rightarrow> (('e add_error + unit) \<times> mem_pool) outcome" where
  "add_transaction p basic tx =
     (case validate_new_transaction p basic tx of
        Inl e \<Rightarrow> Return (Inl e, p)
      | Inr _ \<Rightarrow>
     (case account_next_nonce p basic (tx_caller tx) of
        Panic \<Rightarrow> Panic
      | Return (Inl e) \<Rightarrow> Return (Inl (StateFailure e), p)
      | Return (Inr next_nonce) \<Rightarrow>
          (let t = \<lparr>ot_order_id = mp_next_order_id p, ot_transaction = tx\<rparr>
           in case (if next_nonce < ot_nonce t then insert_future_transaction p t
                    else insert_pending_transaction p t) of
                (Inl e, p') \<Rightarrow> Return (Inl e, p')
              | (Inr _, p') \<Rightarrow>
                  Return (Inr (),
                    p'\<lparr>mp_next_order_id := mp_next_order_id p' + 1,
                       mp_hash_to_transaction :=
                         (mp_hash_to_transaction p')(ot_hash t \<mapsto> t)\<rparr>))))"

section \<open>The invariant\<close>

text \<open>Every value of the key occurs at most once in the multiset.\<close>

definition uniq_on :: "('a \<Rightarrow> 'b) \<Rightarrow> 'a multiset \<Rightarrow> bool" where
  "uniq_on f M \<longleftrightarrow> (\<forall>v. size (filter_mset (\<lambda>t. f t = v) M) \<le> 1)"

text \<open>The abstract content of a pool: the transactions in either group of queues.\<close>

definition pool_mset :: "mem_pool \<Rightarrow> ordered_transaction multiset" where
  "pool_mset p =
     mset (im_values (mp_pending_transactions p)) + mset (im_values (mp_future_transactions p))"

definition queues_ok :: "tx_queues \<Rightarrow> bool" where
  "queues_ok m \<longleftrightarrow> im_ok m \<and> (\<forall>(c, q) \<in> set m. \<forall>t \<in> set q. ot_caller t = c)"

definition no_empty_queue :: "tx_queues \<Rightarrow> bool" where
  "no_empty_queue m \<longleftrightarrow> (\<forall>(c, q) \<in> set m. q \<noteq> [])"

text \<open>The shape of the queues: sorted by sender, and no empty pending queue.\<close>

definition queues_inv :: "mem_pool \<Rightarrow> bool" where
  "queues_inv p \<longleftrightarrow>
     queues_ok (mp_pending_transactions p) \<and> queues_ok (mp_future_transactions p)
     \<and> no_empty_queue (mp_pending_transactions p)"

text \<open>The hash index holds exactly the transactions of the pool, whose hashes differ.\<close>

definition index_ok :: "ordered_transaction multiset \<Rightarrow> (b256 \<rightharpoonup> ordered_transaction) \<Rightarrow> bool" where
  "index_ok M hm \<longleftrightarrow> uniq_on ot_hash M \<and> (\<forall>h t. hm h = Some t \<longleftrightarrow> t \<in># M \<and> ot_hash t = h)"

definition orders_ok :: "ordered_transaction multiset \<Rightarrow> nat \<Rightarrow> bool" where
  "orders_ok M n \<longleftrightarrow> uniq_on ot_order_id M \<and> (\<forall>t \<in># M. ot_order_id t < n)"

definition pool_inv :: "mem_pool \<Rightarrow> bool" where
  "pool_inv p \<longleftrightarrow>
     queues_inv p \<and> index_ok (pool_mset p) (mp_hash_to_transaction p)
     \<and> orders_ok (pool_mset p) (mp_next_order_id p)"

text \<open>Nonces that follow each other, starting at the given one.\<close>

fun consecutive :: "u64 \<Rightarrow> ordered_transaction list \<Rightarrow> bool" where
  "consecutive n [] \<longleftrightarrow> True"
| "consecutive n (t # ts) \<longleftrightarrow> ot_nonce t = n \<and> consecutive (n + 1) ts"

text \<open>The nonce of the account in the state, if it can be read.\<close>

definition state_nonce :: "'e basic_fn \<Rightarrow> address \<Rightarrow> u64 option" where
  "state_nonce basic a =
     (case basic a of Inl _ \<Rightarrow> None | Inr account \<Rightarrow> Some (ai_nonce (account_or_default account)))"

text \<open>
  A pool agrees with a state when the pending nonces of every sender start at the sender's
  nonce in the state and follow each other.
\<close>

definition in_sync :: "mem_pool \<Rightarrow> 'e basic_fn \<Rightarrow> bool" where
  "in_sync p basic \<longleftrightarrow>
     (\<forall>(c, q) \<in> set (mp_pending_transactions p).
        \<exists>n. state_nonce basic c = Some n \<and> consecutive n q)"

text \<open>The transactions of a queue that the state still allows.\<close>

definition allowed :: "'e basic_fn \<Rightarrow> u64 option \<Rightarrow> ordered_transaction \<Rightarrow> bool" where
  "allowed basic limit t \<longleftrightarrow>
     (\<exists>account. basic (ot_caller t) = Inr account
        \<and> is_valid_tx (ot_transaction t) limit (account_or_default account))"

definition drop_hashes ::
  "ordered_transaction multiset \<Rightarrow> (b256 \<rightharpoonup> ordered_transaction) \<Rightarrow> (b256 \<rightharpoonup> ordered_transaction)" where
  "drop_hashes D hm = (\<lambda>h. if h \<in> ot_hash ` set_mset D then None else hm h)"

section \<open>Lemmas on the invariant's parts\<close>

lemma uniq_on_mono: "uniq_on f M \<Longrightarrow> N \<subseteq># M \<Longrightarrow> uniq_on f N"
  unfolding uniq_on_def by (meson le_trans multiset_filter_mono size_mset_mono)

lemma uniq_on_add_iff:
  "uniq_on f (add_mset t M) \<longleftrightarrow> uniq_on f M \<and> (\<forall>u \<in># M. f u \<noteq> f t)"
proof
  assume u: "uniq_on f (add_mset t M)"
  have "size (filter_mset (\<lambda>x. f x = f t) (add_mset t M)) \<le> 1"
    using u unfolding uniq_on_def by blast
  then have "filter_mset (\<lambda>x. f x = f t) M = {#}" by simp
  then show "uniq_on f M \<and> (\<forall>u \<in># M. f u \<noteq> f t)"
    using uniq_on_mono [OF u, of M] by (simp add: filter_mset_eq_mempty_iff)
next
  assume a: "uniq_on f M \<and> (\<forall>u \<in># M. f u \<noteq> f t)"
  then have "filter_mset (\<lambda>x. f x = f t) M = {#}"
    by (simp add: filter_mset_eq_mempty_iff)
  with a show "uniq_on f (add_mset t M)"
    by (auto simp: uniq_on_def)
qed

lemma index_okD: "index_ok M hm \<Longrightarrow> t \<in># M \<Longrightarrow> hm (ot_hash t) = Some t"
  by (simp add: index_ok_def)

lemma index_ok_add:
  assumes i: "index_ok M hm" and n: "hm (ot_hash t) = None"
  shows "index_ok (add_mset t M) (hm(ot_hash t \<mapsto> t))"
proof -
  have "ot_hash u \<noteq> ot_hash t" if "u \<in># M" for u
    using index_okD [OF i that] n by auto
  then show ?thesis
    using i by (auto simp: index_ok_def uniq_on_add_iff)
qed

lemma index_ok_remove:
  assumes "index_ok (add_mset t M) hm"
  shows "index_ok M (hm(ot_hash t := None))"
proof -
  have "uniq_on ot_hash M" "\<forall>u \<in># M. ot_hash u \<noteq> ot_hash t"
    using assms by (auto simp: index_ok_def uniq_on_add_iff)
  then show ?thesis
    using assms by (auto simp: index_ok_def)
qed

lemma drop_hashes_empty [simp]: "drop_hashes {#} hm = hm"
  by (simp add: drop_hashes_def)

lemma drop_hashes_add: "drop_hashes (add_mset t D) hm = drop_hashes D (hm(ot_hash t := None))"
  by (rule ext) (simp add: drop_hashes_def)

lemma drop_hashes_union: "drop_hashes D (drop_hashes E hm) = drop_hashes (E + D) hm"
  by (rule ext) (simp add: drop_hashes_def image_Un)

lemma index_ok_drop: "index_ok (M + D) hm \<Longrightarrow> index_ok M (drop_hashes D hm)"
proof (induction D arbitrary: hm)
  case (add t D)
  then have "index_ok (add_mset t (M + D)) hm" by simp
  then have "index_ok (M + D) (hm(ot_hash t := None))" by (rule index_ok_remove)
  then show ?case unfolding drop_hashes_add by (rule add.IH)
qed simp

lemma orders_ok_mono: "orders_ok M n \<Longrightarrow> N \<subseteq># M \<Longrightarrow> orders_ok N n"
  unfolding orders_ok_def by (meson mset_subset_eqD uniq_on_mono)

lemma orders_ok_add:
  "orders_ok M n \<Longrightarrow> ot_order_id t = n \<Longrightarrow> orders_ok (add_mset t M) (Suc n)"
  by (auto simp: orders_ok_def uniq_on_add_iff)

lemma queues_okD: "queues_ok m \<Longrightarrow> map_of m c = Some q \<Longrightarrow> t \<in> set q \<Longrightarrow> ot_caller t = c"
  by (auto simp: queues_ok_def dest!: map_of_SomeD)

lemma queues_ok_im_ok: "queues_ok m \<Longrightarrow> im_ok m"
  by (simp add: queues_ok_def)

lemma queues_ok_update:
  "queues_ok m \<Longrightarrow> (\<And>t. t \<in> set q \<Longrightarrow> ot_caller t = c) \<Longrightarrow> queues_ok (AList.update c q m)"
  using set_im_update [of c q m] by (fastforce simp: queues_ok_def distinct_update)

lemma queues_ok_delete: "queues_ok m \<Longrightarrow> queues_ok (AList.delete c m)"
  using set_im_delete [of c m] by (fastforce simp: queues_ok_def distinct_delete)

lemma no_empty_update: "no_empty_queue m \<Longrightarrow> q \<noteq> [] \<Longrightarrow> no_empty_queue (AList.update c q m)"
  using set_im_update [of c q m] by (fastforce simp: no_empty_queue_def)

lemma no_empty_delete: "no_empty_queue m \<Longrightarrow> no_empty_queue (AList.delete c m)"
  using set_im_delete [of c m] by (fastforce simp: no_empty_queue_def)

lemma queues_ok_entry_append:
  "queues_ok m \<Longrightarrow> (\<And>t. t \<in> set q \<Longrightarrow> ot_caller t = c) \<Longrightarrow> queues_ok (entry_append c q m)"
  unfolding entry_append_def
  by (rule queues_ok_update) (auto dest: queues_okD split: option.splits)

lemma no_emptyD: "no_empty_queue m \<Longrightarrow> map_of m c = Some q \<Longrightarrow> q \<noteq> []"
  by (auto simp: no_empty_queue_def dest!: map_of_SomeD)

section \<open>Inserting a transaction\<close>

lemma consecutive_append [simp]:
  "consecutive n (xs @ ys) \<longleftrightarrow> consecutive n xs \<and> consecutive (n + of_nat (length xs)) ys"
  by (induction xs arbitrary: n) (auto simp: algebra_simps)

lemma consecutive_iff_nth:
  "consecutive n q \<longleftrightarrow> (\<forall>i < length q. ot_nonce (q ! i) = n + of_nat i)"
  by (induction q arbitrary: n) (auto simp: All_less_Suc2 algebra_simps)

lemma promote_future_spec:
  "promote_future n pend fut = (pend', fut') \<Longrightarrow>
     \<exists>moved. pend' = pend @ moved \<and> consecutive n moved \<and> mset fut = mset moved + mset fut'
       \<and> (\<forall>t \<in> set fut'. ot_nonce t \<noteq> n + of_nat (length moved))"
proof (induction n pend fut rule: promote_future.induct)
  case (1 n pend fut)
  show ?case
  proof (cases "find_enum (\<lambda>_ t. ot_nonce t = n) 0 fut")
    case None
    with "1.prems" have "pend' = pend" "fut' = fut"
      by (simp_all add: promote_future.simps [of n pend fut])
    with None show ?thesis
      by (intro exI [of _ "[]"]) (auto simp: find_enum_0_None in_set_conv_nth)
  next
    case (Some idx)
    with "1.prems" have "promote_future (n + 1) (pend @ [fut ! idx]) (remove_nth idx fut) = (pend', fut')"
      by (simp add: promote_future.simps [of n pend fut])
    from "1.IH" [OF Some this] obtain moved where m: "pend' = (pend @ [fut ! idx]) @ moved"
      "consecutive (n + 1) moved" "mset (remove_nth idx fut) = mset moved + mset fut'"
      "\<forall>t \<in> set fut'. ot_nonce t \<noteq> n + 1 + of_nat (length moved)" by blast
    from Some have "idx < length fut" "ot_nonce (fut ! idx) = n"
      by (auto simp: find_enum_0_Some)
    with m show ?thesis
      by (intro exI [of _ "fut ! idx # moved"]) (auto simp: mset_remove_nth algebra_simps)
  qed
qed

text \<open>
  What the two insertion routines promise. Both either refuse the transaction and change
  nothing, or put it in place of a transaction of the same sender and nonce that it outbids,
  or add it.
\<close>

definition insertion_result ::
  "mem_pool \<Rightarrow> ordered_transaction \<Rightarrow> 'e add_error + unit \<Rightarrow> mem_pool \<Rightarrow> bool" where
  "insertion_result p t r p' \<longleftrightarrow>
     queues_inv p' \<and> mp_next_order_id p' = mp_next_order_id p
     \<and> mp_block_gas_limit p' = mp_block_gas_limit p
     \<and> mp_transaction_gas_cap p' = mp_transaction_gas_cap p
     \<and> (case r of
          Inl e \<Rightarrow> p' = p
        | Inr _ \<Rightarrow>
            (pool_mset p' = add_mset t (pool_mset p)
               \<and> mp_hash_to_transaction p' = mp_hash_to_transaction p)
            \<or> (\<exists>u M. pool_mset p = add_mset u M \<and> pool_mset p' = add_mset t M
                  \<and> ot_caller u = ot_caller t \<and> ot_nonce u = ot_nonce t
                  \<and> validate_replacement_transaction (ot_transaction u) (ot_transaction t)
                      = (Inr () :: 'e add_error + unit)
                  \<and> mp_hash_to_transaction p' = (mp_hash_to_transaction p)(ot_hash u := None)))"

lemma queues_invD:
  assumes "queues_inv p"
  shows "queues_ok (mp_pending_transactions p)" "queues_ok (mp_future_transactions p)"
    "no_empty_queue (mp_pending_transactions p)" "im_ok (mp_pending_transactions p)"
    "im_ok (mp_future_transactions p)"
  using assms by (auto simp: queues_inv_def queues_ok_im_ok)

lemma push_pending_result:
  assumes "queues_inv p"
  shows "insertion_result p t (Inr ()) (push_pending p t)"
proof -
  note q = queues_invD [OF assms]
  define c where "c = ot_caller t"
  define pend where
    "pend = (case map_of (mp_pending_transactions p) c of Some q \<Rightarrow> q | None \<Rightarrow> []) @ [t]"
  have callers: "ot_caller u = c" if "u \<in> set pend" for u
    using that queues_okD [OF q(1)]
    by (cases "map_of (mp_pending_transactions p) c") (auto simp: pend_def c_def)
  have size: "mset (im_values (mp_pending_transactions p)) + {#t#}
      = mset pend + mset (im_values (AList.delete c (mp_pending_transactions p)))"
    using q(4) by (cases "map_of (mp_pending_transactions p) c")
      (simp_all add: pend_def mset_im_values_delete)
  show ?thesis
  proof (cases "map_of (mp_future_transactions p) c")
    case None
    then have "push_pending p t =
        p\<lparr>mp_pending_transactions := AList.update c pend (mp_pending_transactions p)\<rparr>"
      by (simp add: push_pending_def c_def pend_def Let_def)
    then show ?thesis
      using q callers size
      by (auto simp: insertion_result_def queues_inv_def pool_mset_def mset_im_values_update pend_def
          intro!: queues_ok_update no_empty_update)
  next
    case (Some fut)
    obtain pend' fut' where pr: "promote_future (ot_nonce t + 1) pend fut = (pend', fut')"
      by fastforce
    from promote_future_spec [OF pr] obtain moved
      where m: "pend' = pend @ moved" "mset fut = mset moved + mset fut'" by blast
    have mem: "u \<in> set fut" if "u \<in> set moved \<or> u \<in> set fut'" for u
      using that m(2) by (metis set_mset_mset set_mset_union UnI1 UnI2)
    have callers': "ot_caller u = c" if "u \<in> set pend' \<or> u \<in> set fut'" for u
      using that mem callers queues_okD [OF q(2) Some] by (auto simp: m(1))
    have ne: "pend' \<noteq> []" by (simp add: m(1) pend_def)
    have p': "push_pending p t =
        p\<lparr>mp_pending_transactions := AList.update c pend' (mp_pending_transactions p),
          mp_future_transactions :=
            (if fut' = [] then AList.delete c (mp_future_transactions p)
             else AList.update c fut' (mp_future_transactions p))\<rparr>"
      using Some pr by (simp add: push_pending_def c_def [symmetric] pend_def [symmetric] Let_def)
    have "pool_mset (push_pending p t) = add_mset t (pool_mset p)"
      using q(4,5) size m mset_im_values_delete [OF q(5) Some]
      by (auto simp: p' pool_mset_def mset_im_values_update)
    then show ?thesis
      using q callers' ne
      by (auto simp: insertion_result_def queues_inv_def p'
          intro!: queues_ok_update no_empty_update queues_ok_delete)
  qed
qed

text \<open>Replacing the first transaction with the new one's nonce, in either group of queues.\<close>

lemma replace_in_queues:
  assumes q: "queues_ok m" and c: "map_of m (ot_caller t) = Some q"
    and f: "find_enum (\<lambda>_ u. ot_nonce t = ot_nonce u) 0 q = Some i"
  shows "queues_ok (AList.update (ot_caller t) (q[i := t]) m)"
    and "no_empty_queue m \<Longrightarrow> no_empty_queue (AList.update (ot_caller t) (q[i := t]) m)"
    and "ot_caller (q ! i) = ot_caller t" and "ot_nonce (q ! i) = ot_nonce t"
    and "\<exists>M. mset (im_values m) = add_mset (q ! i) M
           \<and> mset (im_values (AList.update (ot_caller t) (q[i := t]) m)) = add_mset t M"
proof -
  from f have i: "i < length q" and n: "ot_nonce t = ot_nonce (q ! i)"
    by (auto simp: find_enum_0_Some)
  from queues_okD [OF q c] i show caller: "ot_caller (q ! i) = ot_caller t" by simp
  from n show "ot_nonce (q ! i) = ot_nonce t" by simp
  have "ot_caller u = ot_caller t" if "u \<in> set (q[i := t])" for u
    using that queues_okD [OF q c] set_update_subset_insert [of q i t] by auto
  with q show "queues_ok (AList.update (ot_caller t) (q[i := t]) m)"
    by (rule queues_ok_update)
  from i show "no_empty_queue (AList.update (ot_caller t) (q[i := t]) m)" if "no_empty_queue m"
    using that by (intro no_empty_update) auto
  have "mset q = add_mset (q ! i) (mset q - {#q ! i#})" using i by simp
  moreover have "mset (q[i := t]) = add_mset t (mset q - {#q ! i#})" using i by (simp add: mset_update)
  ultimately show "\<exists>M. mset (im_values m) = add_mset (q ! i) M
      \<and> mset (im_values (AList.update (ot_caller t) (q[i := t]) m)) = add_mset t M"
    using queues_ok_im_ok [OF q] c
    by (intro exI [of _ "mset q - {#q ! i#} + mset (im_values (AList.delete (ot_caller t) m))"])
      (simp add: mset_im_values_update mset_im_values_delete)
qed

lemma insertion_result_refused: "queues_inv p \<Longrightarrow> insertion_result p t (Inl e) p"
  by (simp add: insertion_result_def)

lemma insert_pending_result:
  assumes "queues_inv p" and ins: "insert_pending_transaction p t = (r, p')"
  shows "insertion_result p t r p'"
proof (cases "map_of (mp_pending_transactions p) (ot_caller t)")
  case None
  with ins assms(1) show ?thesis
    by (auto simp: insert_pending_transaction_def push_pending_result)
next
  case (Some q)
  note inv = queues_invD [OF assms(1)]
  show ?thesis
  proof (cases "find_enum (\<lambda>_ u. ot_nonce t = ot_nonce u) 0 q")
    case None
    with ins assms(1) Some show ?thesis
      by (auto simp: insert_pending_transaction_def push_pending_result)
  next
    case f: (Some i)
    note rep = replace_in_queues [OF inv(1) Some f]
    show ?thesis
    proof (cases "validate_replacement_transaction (ot_transaction (q ! i)) (ot_transaction t)
        :: 'a add_error + unit")
      case (Inl e)
      with ins Some f have "r = Inl e" "p' = p" by (auto simp: insert_pending_transaction_def)
        then show ?thesis using assms(1) by (simp add: insertion_result_refused)
    next
      case (Inr x)
      with ins Some f have "r = Inr ()" and p': "p' = p\<lparr>
          mp_hash_to_transaction := (mp_hash_to_transaction p)(ot_hash (q ! i) := None),
          mp_pending_transactions := AList.update (ot_caller t) (q[i := t]) (mp_pending_transactions p)\<rparr>"
        by (auto simp: insert_pending_transaction_def)
      moreover have "queues_inv p'"
        using inv rep(1,2) by (simp add: p' queues_inv_def)
      moreover obtain M where "pool_mset p = add_mset (q ! i) M" "pool_mset p' = add_mset t M"
        using rep(5) by (auto simp: pool_mset_def p')
      ultimately show ?thesis
        using rep(3,4) Inr unfolding insertion_result_def by fastforce
    qed
  qed
qed

lemma insert_future_result:
  assumes "queues_inv p" and ins: "insert_future_transaction p t = (r, p')"
  shows "insertion_result p t r p'"
proof -
  note inv = queues_invD [OF assms(1)]
  define push where
    "push = p\<lparr>mp_future_transactions := entry_append (ot_caller t) [t] (mp_future_transactions p)\<rparr>"
  have push: "insertion_result p t (Inr ()) push"
    using inv by (auto simp: push_def insertion_result_def queues_inv_def pool_mset_def
        mset_entry_append intro!: queues_ok_entry_append)
  show ?thesis
  proof (cases "map_of (mp_future_transactions p) (ot_caller t)")
    case None
    with ins push show ?thesis by (auto simp: insert_future_transaction_def push_def)
  next
    case (Some q)
    show ?thesis
    proof (cases "find_enum (\<lambda>_ u. ot_nonce t = ot_nonce u) 0 q")
      case None
      with ins push Some show ?thesis by (auto simp: insert_future_transaction_def push_def)
    next
      case f: (Some i)
      note rep = replace_in_queues [OF inv(2) Some f]
      show ?thesis
      proof (cases "validate_replacement_transaction (ot_transaction (q ! i)) (ot_transaction t)
          :: 'a add_error + unit")
        case (Inl e)
        with ins Some f have "r = Inl e" "p' = p" by (auto simp: insert_future_transaction_def)
          then show ?thesis using assms(1) by (simp add: insertion_result_refused)
      next
        case (Inr x)
        with ins Some f have "r = Inr ()" and p': "p' = p\<lparr>
            mp_hash_to_transaction := (mp_hash_to_transaction p)(ot_hash (q ! i) := None),
            mp_future_transactions := AList.update (ot_caller t) (q[i := t]) (mp_future_transactions p)\<rparr>"
          by (auto simp: insert_future_transaction_def)
        moreover have "queues_inv p'"
          using inv rep(1) by (simp add: p' queues_inv_def)
        moreover obtain M where "pool_mset p = add_mset (q ! i) M" "pool_mset p' = add_mset t M"
          using rep(5) by (auto simp: pool_mset_def p')
        ultimately show ?thesis
          using rep(3,4) Inr unfolding insertion_result_def by fastforce
      qed
    qed
  qed
qed

text \<open>
  The contract of an insertion routine, and what \<open>add_transaction\<close> makes of it: storing the
  transaction in the index and counting its order number gives a well-formed pool again.
\<close>

locale pool_insertion =
  fixes insert_tx :: "mem_pool \<Rightarrow> ordered_transaction \<Rightarrow> ('e add_error + unit) \<times> mem_pool"
  assumes insertion: "queues_inv p \<Longrightarrow> insert_tx p t = (r, p') \<Longrightarrow> insertion_result p t r p'"
begin

lemma insert_refused:
  "queues_inv p \<Longrightarrow> insert_tx p t = (Inl e, p') \<Longrightarrow> p' = p"
  by (drule (1) insertion) (simp add: insertion_result_def)

lemma insert_accepted:
  assumes inv: "pool_inv p" and fresh: "mp_hash_to_transaction p (ot_hash t) = None"
    and order: "ot_order_id t = mp_next_order_id p" and ins: "insert_tx p t = (Inr u, p')"
  shows "pool_inv (p'\<lparr>mp_next_order_id := mp_next_order_id p' + 1,
                     mp_hash_to_transaction := (mp_hash_to_transaction p')(ot_hash t \<mapsto> t)\<rparr>)"
proof -
  from inv have q: "queues_inv p" and i: "index_ok (pool_mset p) (mp_hash_to_transaction p)"
    and o: "orders_ok (pool_mset p) (mp_next_order_id p)" by (auto simp: pool_inv_def)
  note res = insertion [OF q ins, unfolded insertion_result_def]
  from res have q': "queues_inv p'" and n: "mp_next_order_id p' = mp_next_order_id p" by auto
  have goal: ?thesis if "index_ok M (mp_hash_to_transaction p')" "pool_mset p' = add_mset t M"
    "M \<subseteq># pool_mset p" "mp_hash_to_transaction p' (ot_hash t) = None" for M
    using that q' n order index_ok_add [of M "mp_hash_to_transaction p'" t]
      orders_ok_add [OF orders_ok_mono [OF o that(3)] order]
    by (simp add: pool_inv_def queues_inv_def pool_mset_def)
  from res consider
    (added) "pool_mset p' = add_mset t (pool_mset p)" "mp_hash_to_transaction p' = mp_hash_to_transaction p"
  | (replaced) u M where "pool_mset p = add_mset u M" "pool_mset p' = add_mset t M"
      "mp_hash_to_transaction p' = (mp_hash_to_transaction p)(ot_hash u := None)"
    by auto
  then show ?thesis
  proof cases
    case added
    with i fresh show ?thesis by (intro goal [of "pool_mset p"]) auto
  next
    case (replaced u M)
    with i have "index_ok M (mp_hash_to_transaction p')" by (metis index_ok_remove)
    with replaced fresh show ?thesis by (intro goal [of M]) auto
  qed
qed

end

interpretation ins_pending: pool_insertion insert_pending_transaction
  by unfold_locales (rule insert_pending_result)

interpretation ins_future: pool_insertion insert_future_transaction
  by unfold_locales (rule insert_future_result)

section \<open>Replacement fees\<close>

lemma ceil_div_100:
  "(if y mod 100 = 0 then y div 100 else y div 100 + 1) \<le> z \<longleftrightarrow> y \<le> z * (100 :: nat)"
proof -
  define q r where "q = y div 100" and "r = y mod 100"
  have "y = q * 100 + r" "r < 100" by (simp_all add: q_def r_def)
  then show ?thesis unfolding q_def [symmetric] r_def [symmetric] by (cases "r = 0") auto
qed

lemma min_new_fee_le_iff:
  assumes "unat fee * 110 < 2 ^ 128"
  shows "min_new_fee fee \<le> x \<longleftrightarrow> unat fee * 110 \<le> unat x * 100"
proof -
  have m: "unat (fee * 110) = unat fee * 110"
    using assms by (simp add: unat_word_ariths)
  have d: "unat (fee * 110 div 100) = unat fee * 110 div 100" by (simp add: unat_div m)
  have "unat fee * 110 div 100 + 1 < 2 ^ 128" using assms by simp
  then have "unat (fee * 110 div 100 + 1) = unat fee * 110 div 100 + 1"
    using unat_add_no_overflow [of "fee * 110 div 100" 1] d by simp
  moreover have "fee * 110 mod 100 = 0 \<longleftrightarrow> unat fee * 110 mod 100 = 0"
    unfolding unat_eq_zero [of "fee * 110 mod 100", symmetric] by (simp only: unat_mod m) simp
  ultimately have "unat (min_new_fee fee) =
      (if unat fee * 110 mod 100 = 0 then unat fee * 110 div 100 else unat fee * 110 div 100 + 1)"
    unfolding min_new_fee_def Let_def d [symmetric] by (simp only: if_distrib [of unat])
  then show ?thesis unfolding word_le_nat_alt by (simp only: ceil_div_100)
qed

text \<open>A fee is at least ten percent above another one.\<close>

definition outbids :: "u128 \<Rightarrow> u128 \<Rightarrow> bool" where
  "outbids old new \<longleftrightarrow> unat old * 110 \<le> unat new * 100"

lemma replacement_accepted:
  "validate_replacement_transaction old new = (Inr () :: 'e add_error + unit) \<longleftrightarrow>
     min_new_fee (tx_gas_price old) \<le> tx_gas_price new
     \<and> min_new_fee (priority_fee_or_price old) \<le> priority_fee_or_price new"
  by (auto simp: validate_replacement_transaction_def Let_def not_less)

lemma insert_refused_replacement:
  assumes "queues_inv p"
    and "insert_pending_transaction p t = (Inl e :: 'e add_error + unit, p')
      \<or> insert_future_transaction p t = (Inl e :: 'e add_error + unit, p')"
  shows "\<exists>u. u \<in># pool_mset p \<and> ot_caller u = ot_caller t \<and> ot_nonce u = ot_nonce t
    \<and> validate_replacement_transaction (ot_transaction u) (ot_transaction t) = (Inl e :: 'e add_error + unit)"
proof -
  note inv = queues_invD [OF assms(1)]
  from assms(2) obtain m q i where m: "m = mp_pending_transactions p \<or> m = mp_future_transactions p"
    and q: "map_of m (ot_caller t) = Some q" "find_enum (\<lambda>_ u. ot_nonce t = ot_nonce u) 0 q = Some i"
    and e: "validate_replacement_transaction (ot_transaction (q ! i)) (ot_transaction t) = (Inl e :: 'e add_error + unit)"
    by (auto simp: insert_pending_transaction_def insert_future_transaction_def Let_def
        split: option.splits sum.splits)
  have "queues_ok m" using m inv(1,2) by blast
  note r = replace_in_queues [OF this q]
  from r(5) have "q ! i \<in># mset (im_values m)" by force
  with m have "q ! i \<in># pool_mset p" by (auto simp: pool_mset_def)
  with r(3,4) e show ?thesis by blast
qed

section \<open>What adding a transaction does\<close>

lemma last_pending_nonce_eq:
  "queues_inv p \<Longrightarrow> last_pending_nonce p a =
     Return (map_option (ot_nonce \<circ> last) (map_of (mp_pending_transactions p) a))"
  by (auto simp: last_pending_nonce_def dest: no_emptyD [OF queues_invD(3)]
      split: option.splits list.splits)

lemma account_next_nonce_no_panic: "queues_inv p \<Longrightarrow> account_next_nonce p basic a \<noteq> Panic"
  by (auto simp: account_next_nonce_def last_pending_nonce_eq split: option.splits)

lemma validate_new_transaction_fresh:
  "validate_new_transaction p basic tx = Inr u \<Longrightarrow> mp_hash_to_transaction p (tx_hash tx) = None"
  by (auto simp: validate_new_transaction_def split: option.splits if_splits)

lemma add_transaction_cases:
  assumes "queues_inv p"
  obtains (refused) e where "add_transaction p basic tx = Return (Inl e, p)"
  | (added) p' t insert_tx where "t = \<lparr>ot_order_id = mp_next_order_id p, ot_transaction = tx\<rparr>"
      "insert_tx = insert_pending_transaction \<or> insert_tx = insert_future_transaction"
      "validate_new_transaction p basic tx = Inr ()"
      "insert_tx p t = (Inr () :: 'e add_error + unit, p')"
      "add_transaction p (basic :: 'e basic_fn) tx =
         Return (Inr (), p'\<lparr>mp_next_order_id := mp_next_order_id p' + 1,
                   mp_hash_to_transaction := (mp_hash_to_transaction p')(ot_hash t \<mapsto> t)\<rparr>)"
proof (cases "validate_new_transaction p basic tx")
  case (Inl e)
  then show ?thesis by (intro refused [of e]) (simp add: add_transaction_def)
next
  case v: (Inr u)
  show ?thesis
  proof (cases "account_next_nonce p basic (tx_caller tx)")
    case Panic
    with account_next_nonce_no_panic [OF assms] show ?thesis by metis
  next
    case (Return r)
    show ?thesis
    proof (cases r)
      case (Inl e)
      with v Return show ?thesis by (intro refused) (simp add: add_transaction_def)
    next
      case (Inr n)
      define t where "t = \<lparr>ot_order_id = mp_next_order_id p, ot_transaction = tx\<rparr>"
      define f :: "mem_pool \<Rightarrow> ordered_transaction \<Rightarrow> ('e add_error + unit) \<times> mem_pool"
        where "f = (if n < ot_nonce t then insert_future_transaction else insert_pending_transaction)"
      obtain r' p' where i: "f p t = (r', p')" by fastforce
      have eq: "add_transaction p basic tx = (case r' of Inl e \<Rightarrow> Return (Inl e, p')
        | Inr _ \<Rightarrow> Return (Inr (), p'\<lparr>mp_next_order_id := mp_next_order_id p' + 1,
                   mp_hash_to_transaction := (mp_hash_to_transaction p')(ot_hash t \<mapsto> t)\<rparr>))"
        using v Return Inr i
        by (cases r') (auto simp: add_transaction_def f_def Let_def simp flip: t_def split: if_splits)
      have f: "f = insert_pending_transaction \<or> f = insert_future_transaction"
        by (simp add: f_def)
      show ?thesis
      proof (cases r')
        case (Inl e)
        with i f have "p' = p"
          using ins_pending.insert_refused [OF assms] ins_future.insert_refused [OF assms] by blast
        with eq Inl show ?thesis by (intro refused [of e]) simp
      next
        case (Inr y)
        with eq i v show ?thesis by (intro added [OF t_def f]) simp_all
      qed
    qed
  qed
qed

subsection \<open>Pending nonces stay consecutive\<close>

lemma in_sync_update:
  assumes "in_sync p basic" and "state_nonce basic c = Some n" and "consecutive n q"
    and "mp_pending_transactions p' = AList.update c q (mp_pending_transactions p)"
  shows "in_sync p' basic"
  using assms set_im_update [of c q "mp_pending_transactions p"]
  unfolding in_sync_def by fastforce

lemma consecutive_list_update:
  "consecutive n q \<Longrightarrow> i < length q \<Longrightarrow> ot_nonce t = ot_nonce (q ! i) \<Longrightarrow> consecutive n (q[i := t])"
  by (auto simp: consecutive_iff_nth nth_list_update)

text \<open>A nonce that is not below the first one is in the queue or beyond its end.\<close>

lemma consecutive_absent:
  assumes q: "consecutive n q" and k: "n \<le> k"
    and absent: "find_enum (\<lambda>_ u. k = ot_nonce u) 0 q = None"
  shows "n + of_nat (length q) \<le> k"
proof -
  define d where "d = unat k - unat n"
  have kd: "k = n + of_nat d"
    unfolding d_def using k by (rule word_eq_add_diff)
  have no: "k \<noteq> ot_nonce (q ! j)" if "j < length q" for j
    using absent that by (simp add: find_enum_0_None)
  have "length q \<le> d"
  proof (rule leI, rule notI)
    assume "d < length q"
    with q no [OF this] show False by (simp add: consecutive_iff_nth kd)
  qed
  then have le: "unat n + length q \<le> unat k" using k by (simp add: d_def word_le_nat_alt)
  then have "unat n + length q < 2 ^ LENGTH(64)" by (rule order.strict_trans1) (rule unsigned_less)
  then have "unat (n + of_nat (length q)) = unat n + length q" by (rule unat_add_of_nat)
  with le show ?thesis by (simp add: word_le_nat_alt)
qed

lemma consecutive_last_nonce:
  "consecutive n q \<Longrightarrow> q \<noteq> [] \<Longrightarrow> ot_nonce (last q) + 1 = n + of_nat (length q)"
  by (cases q rule: rev_cases) auto

lemma push_pending_queue:
  assumes "case map_of (mp_pending_transactions p) (ot_caller t) of
             None \<Rightarrow> n = ot_nonce t
           | Some q \<Rightarrow> consecutive n q \<and> ot_nonce t = n + of_nat (length q)"
  shows "\<exists>q'. consecutive n q' \<and>
    mp_pending_transactions (push_pending p t) = AList.update (ot_caller t) q' (mp_pending_transactions p)"
proof -
  define pend where "pend = (case map_of (mp_pending_transactions p) (ot_caller t) of
    Some q \<Rightarrow> q | None \<Rightarrow> []) @ [t]"
  have pend: "consecutive n pend" "n + of_nat (length pend) = ot_nonce t + 1"
    using assms by (auto simp: pend_def algebra_simps split: option.splits)
  show ?thesis
  proof (cases "map_of (mp_future_transactions p) (ot_caller t)")
    case None
    with pend show ?thesis by (auto simp: push_pending_def Let_def simp flip: pend_def)
  next
    case (Some fut)
    obtain pend' fut' where pr: "promote_future (ot_nonce t + 1) pend fut = (pend', fut')"
      by fastforce
    from promote_future_spec [OF pr] pend have "consecutive n pend'" by auto
    with Some pr show ?thesis by (auto simp: push_pending_def Let_def simp flip: pend_def)
  qed
qed

text \<open>The next nonce \<open>add_transaction\<close> computes, for a sender whose queue is consecutive.\<close>

lemma account_next_nonce_sync:
  assumes "queues_inv p" "in_sync p basic" "state_nonce basic a = Some n"
  shows "account_next_nonce p basic a = Return (Inr
    (case map_of (mp_pending_transactions p) a of None \<Rightarrow> n | Some q \<Rightarrow> n + of_nat (length q)))"
proof (cases "map_of (mp_pending_transactions p) a")
  case None
  with assms show ?thesis
    by (auto simp: account_next_nonce_def last_pending_nonce_eq state_nonce_def
        split: sum.splits option.splits)
next
  case (Some q)
  then have "consecutive n q" "q \<noteq> []"
    using assms(2,3) no_emptyD [OF queues_invD(3) [OF assms(1)] Some]
    by (auto simp: in_sync_def dest!: map_of_SomeD)
  from consecutive_last_nonce [OF this] Some assms(1) show ?thesis
    by (simp add: account_next_nonce_def last_pending_nonce_eq)
qed

lemma insert_pending_sync:
  assumes inv: "queues_inv p" and sync: "in_sync p basic"
    and n: "state_nonce basic (ot_caller t) = Some n" "n \<le> ot_nonce t"
    and next_n: "account_next_nonce p basic (ot_caller t) = Return (Inr m)" "ot_nonce t \<le> m"
    and ins: "insert_pending_transaction p t = (Inr () :: 'e add_error + unit, p')"
  shows "in_sync p' basic"
proof (cases "\<exists>q i. map_of (mp_pending_transactions p) (ot_caller t) = Some q \<and>
    find_enum (\<lambda>_ u. ot_nonce t = ot_nonce u) 0 q = Some i")
  case True
  then obtain q i where q: "map_of (mp_pending_transactions p) (ot_caller t) = Some q"
    and i: "find_enum (\<lambda>_ u. ot_nonce t = ot_nonce u) 0 q = Some i" by blast
  from q n(1) sync have "consecutive n q" by (auto simp: in_sync_def dest!: map_of_SomeD)
  with i have "consecutive n (q[i := t])"
    by (auto simp: find_enum_0_Some intro: consecutive_list_update)
  moreover have "mp_pending_transactions p' = AList.update (ot_caller t) (q[i := t]) (mp_pending_transactions p)"
    using ins q i by (auto simp: insert_pending_transaction_def split: sum.splits)
  ultimately show ?thesis using in_sync_update [OF sync n(1)] by blast
next
  case False
  then have p': "p' = push_pending p t"
    using ins by (cases "map_of (mp_pending_transactions p) (ot_caller t)")
      (auto simp: insert_pending_transaction_def)
  have "case map_of (mp_pending_transactions p) (ot_caller t) of
          None \<Rightarrow> n = ot_nonce t
        | Some q \<Rightarrow> consecutive n q \<and> ot_nonce t = n + of_nat (length q)"
  proof (cases "map_of (mp_pending_transactions p) (ot_caller t)")
    case None
    with next_n n account_next_nonce_sync [OF inv sync n(1)] show ?thesis by simp
  next
    case (Some q)
    from Some n(1) sync have c: "consecutive n q" by (auto simp: in_sync_def dest!: map_of_SomeD)
    from False Some consecutive_absent [OF c n(2)] have "n + of_nat (length q) \<le> ot_nonce t"
      by simp
    with next_n account_next_nonce_sync [OF inv sync n(1)] Some c show ?thesis by simp
  qed
  from push_pending_queue [OF this] in_sync_update [OF sync n(1)] show ?thesis
    unfolding p' by blast
qed

lemma insert_future_pending [simp]:
  "insert_future_transaction p t = (r, p') \<Longrightarrow> mp_pending_transactions p' = mp_pending_transactions p"
  by (auto simp: insert_future_transaction_def Let_def split: option.splits sum.splits)

section \<open>Properties of \<open>add_transaction\<close>\<close>

text \<open>Concrete pools and states for the evaluation of the properties.\<close>

definition sample_state :: "unit basic_fn" where
  "sample_state a = Inr (Some \<lparr>ai_balance = 10 ^ 18, ai_nonce = 5, ai_code_hash = KECCAK_EMPTY, ai_code = None\<rparr>)"

definition empty_pool :: mem_pool where
  "empty_pool = mem_pool_new (Some 30000000) None"

lemma pool_inv_new: "pool_inv (mem_pool_new limit cap)"
  by (simp add: pool_inv_def mem_pool_new_def queues_inv_def queues_ok_def no_empty_queue_def
      pool_mset_def index_ok_def uniq_on_def orders_ok_def)

lemma in_sync_new: "in_sync (mem_pool_new limit cap) basic"
  by (simp add: in_sync_def mem_pool_new_def)

lemma add_transaction_pool_inv:
  assumes "pool_inv p"
  shows "\<exists>r p'. add_transaction p basic tx = Return (r, p') \<and> pool_inv p' \<and> (\<forall>e. r = Inl e \<longrightarrow> p' = p)"
proof -
  from assms have "queues_inv p" by (simp add: pool_inv_def)
  then show ?thesis
  proof (cases rule: add_transaction_cases [where basic = basic and tx = tx])
    case (refused e)
    with assms show ?thesis by simp
  next
    case (added p' t insert_tx)
    then have "mp_hash_to_transaction p (ot_hash t) = None" "ot_order_id t = mp_next_order_id p"
      by (auto simp: ot_hash_def dest: validate_new_transaction_fresh)
    with added assms ins_pending.insert_accepted [of p t] ins_future.insert_accepted [of p t]
    show ?thesis by auto
  qed
qed

text \<open>C1. Adding a transaction never panics. It keeps the pool well-formed: queues are keyed by
  sender, no pending queue is empty, and the hash index lists exactly the queued transactions,
  with distinct hashes and order numbers. When it is refused, the pool is unchanged.\<close>

theorem add_transaction_inv:
  assumes "pool_inv p"
  shows "\<exists>r p'. add_transaction p basic tx = Return (r, p') \<and> pool_inv p' \<and> (\<forall>e. r = Inl e \<longrightarrow> p' = p)"
  using assms by (rule add_transaction_pool_inv)

theorem add_transaction_inv_witness:
  "pool_inv empty_pool \<and>
   (\<exists>r p'. add_transaction empty_pool sample_state (sample_tx 1 5 100 77) = Return (r, p') \<and> pool_inv p'
     \<and> (\<forall>e. r = Inl e \<longrightarrow> p' = empty_pool))"
  using add_transaction_inv [of empty_pool sample_state "sample_tx 1 5 100 77"]
  by (simp add: empty_pool_def pool_inv_new)

lemma add_transaction_refused_replacement:
  assumes "queues_inv p" and "add_transaction p basic tx = Return (Inl e, p')"
    and "(\<exists>m n. e = ReplacementMaxFeePerGasTooLow m n) \<or> (\<exists>m n. e = ReplacementMaxPriorityFeePerGasTooLow m n)"
  shows "\<exists>u. u \<in># pool_mset p \<and> ot_caller u = tx_caller tx \<and> ot_nonce u = tx_nonce tx
    \<and> validate_replacement_transaction (ot_transaction u) tx = (Inl e :: 'e add_error + unit)"
proof -
  define t where "t = \<lparr>ot_order_id = mp_next_order_id p, ot_transaction = tx\<rparr>"
  have "\<exists>q. insert_pending_transaction p t = (Inl e :: 'e add_error + unit, q)
      \<or> insert_future_transaction p t = (Inl e :: 'e add_error + unit, q)"
    using assms(2,3) unfolding t_def
    by (auto simp: add_transaction_def validate_new_transaction_def gas_cap_error_def block_gas_error_def Let_def
        split: option.splits outcome.splits sum.splits if_splits prod.splits)
  with insert_refused_replacement [OF assms(1), of t e] show ?thesis
    by (auto simp: t_def ot_caller_def ot_nonce_def)
qed

text \<open>C28. A successful \<open>add_transaction\<close> numbers the transaction and makes it retrievable by its
  hash. It adds exactly this transaction to the pool, or puts it in the place of exactly one
  transaction with the same sender and nonce, and the other transactions stay. A transaction is replaced only
  by one with a gas price and a priority fee that are each at least ten percent above its own, and a
  replacement is refused for one of these fees only if that fee is not; both hold for fees of the
  replaced transaction whose product with 110 fits in 128 bits (the product wraps around for larger ones).\<close>

theorem add_transaction_content:
  assumes "pool_inv p" and "add_transaction p basic tx = Return (r, p')"
  shows "case r of
      Inl (ReplacementMaxFeePerGasTooLow _ _) \<Rightarrow>
        \<exists>u. u \<in># pool_mset p \<and> ot_caller u = tx_caller tx \<and> ot_nonce u = tx_nonce tx
          \<and> (unat (tx_gas_price (ot_transaction u)) * 110 < 2 ^ 128 \<longrightarrow>
              \<not> outbids (tx_gas_price (ot_transaction u)) (tx_gas_price tx))
    | Inl (ReplacementMaxPriorityFeePerGasTooLow _ _) \<Rightarrow>
        \<exists>u. u \<in># pool_mset p \<and> ot_caller u = tx_caller tx \<and> ot_nonce u = tx_nonce tx
          \<and> (unat (priority_fee_or_price (ot_transaction u)) * 110 < 2 ^ 128 \<longrightarrow>
              \<not> outbids (priority_fee_or_price (ot_transaction u)) (priority_fee_or_price tx))
    | Inl _ \<Rightarrow> p' = p
    | Inr _ \<Rightarrow>
        (\<exists>t. t = \<lparr>ot_order_id = mp_next_order_id p, ot_transaction = tx\<rparr>
          \<and> transaction_by_hash p' (tx_hash tx) = Some t
          \<and> mp_next_order_id p' = mp_next_order_id p + 1
          \<and> (pool_mset p' = add_mset t (pool_mset p)
             \<or> (\<exists>u M. pool_mset p = add_mset u M \<and> pool_mset p' = add_mset t M
                  \<and> ot_caller u = tx_caller tx \<and> ot_nonce u = tx_nonce tx
                  \<and> (unat (tx_gas_price (ot_transaction u)) * 110 < 2 ^ 128 \<longrightarrow>
                      outbids (tx_gas_price (ot_transaction u)) (tx_gas_price tx))
                  \<and> (unat (priority_fee_or_price (ot_transaction u)) * 110 < 2 ^ 128 \<longrightarrow>
                      outbids (priority_fee_or_price (ot_transaction u)) (priority_fee_or_price tx)))))"
proof (cases r)
  case (Inl e)
  from assms(1) have q: "queues_inv p" by (simp add: pool_inv_def)
  note ref = add_transaction_refused_replacement [OF q assms(2) [unfolded Inl]]
  have p': "p' = p"
    using add_transaction_pool_inv [OF assms(1), of basic tx] assms(2) Inl by auto
  show ?thesis
    using ref p' by (cases e) (fastforce simp: Inl outbids_def min_new_fee_le_iff [symmetric] not_le
        validate_replacement_transaction_def Let_def split: if_splits)+
next
  case (Inr x)
  from assms(1) have "queues_inv p" by (simp add: pool_inv_def)
  then show ?thesis
  proof (cases rule: add_transaction_cases [where basic = basic and tx = tx])
    case (refused e)
    with assms(2) Inr show ?thesis by simp
  next
    case (added q t insert_tx)
    from added(2,4) have "insertion_result p t (Inr () :: 'a add_error + unit) q"
      using insert_pending_result [OF \<open>queues_inv p\<close>] insert_future_result [OF \<open>queues_inv p\<close>] by blast
    moreover have "pool_mset p' = pool_mset q"
      using added(5) assms(2) by (auto simp: pool_mset_def)
    ultimately show ?thesis
      using added(1,5) assms(2)
      by (auto simp: Inr insertion_result_def transaction_by_hash_def ot_hash_def ot_caller_def ot_nonce_def
          replacement_accepted outbids_def min_new_fee_le_iff [symmetric])
  qed
qed

text \<open>The empty pool after one transaction, and after a second one that outbids it.\<close>

definition sample_pool :: "u128 \<Rightarrow> b256 \<Rightarrow> nat \<Rightarrow> mem_pool" where
  "sample_pool price h n =
     (let t = \<lparr>ot_order_id = n, ot_transaction = sample_tx 1 5 price h\<rparr>
      in empty_pool\<lparr>mp_pending_transactions := [(1, [t])],
                    mp_hash_to_transaction := Map.empty(h \<mapsto> t),
                    mp_next_order_id := n + 1\<rparr>)"

lemmas add_transaction_eval =
  add_transaction_def validate_new_transaction_def gas_cap_error_def block_gas_error_def
  account_next_nonce_def last_pending_nonce_def insert_pending_transaction_def
  insert_future_transaction_def push_pending_def validate_replacement_transaction_def
  priority_fee_or_price_def min_new_fee_def upfront_cost_def max_cost_def saturating_mul_def
  saturating_add_def sample_state_def sample_tx_def empty_pool_def mem_pool_new_def
  sample_pool_def ot_nonce_def ot_caller_def ot_hash_def entry_append_def Let_def

lemma sample_pool_added:
  "add_transaction empty_pool sample_state (sample_tx 1 5 100 77) = Return (Inr (), sample_pool 100 77 0)"
  by (simp add: add_transaction_eval)

lemma sample_pool_replaced:
  "add_transaction (sample_pool 100 77 0) sample_state (sample_tx 1 5 110 78)
     = Return (Inr (), sample_pool 110 78 1)"
  by (simp add: add_transaction_eval)

lemma pool_inv_sample: "pool_inv (sample_pool 100 77 0)"
  using add_transaction_pool_inv [of empty_pool sample_state "sample_tx 1 5 100 77"]
    pool_inv_new [of "Some 30000000" None]
  by (simp add: sample_pool_added flip: empty_pool_def)

theorem add_transaction_content_witness:
  "\<exists>t. t = \<lparr>ot_order_id = 1, ot_transaction = sample_tx 1 5 110 78\<rparr>
    \<and> transaction_by_hash (sample_pool 110 78 1) 78 = Some t
    \<and> (\<exists>u M. pool_mset (sample_pool 100 77 0) = add_mset u M
         \<and> pool_mset (sample_pool 110 78 1) = add_mset t M)"
  using add_transaction_content [OF pool_inv_sample sample_pool_replaced]
  by (auto simp: sample_pool_def sample_tx_def pool_mset_def empty_pool_def mem_pool_new_def Let_def)

lemma add_transaction_keeps_sync:
  assumes "pool_inv p" and "in_sync p basic" and "add_transaction p basic tx = Return (r, p')"
  shows "in_sync p' basic"
proof -
  from assms(1) have q: "queues_inv p" by (simp add: pool_inv_def)
  show ?thesis
  proof (cases "validate_new_transaction p basic tx")
    case (Inl e)
    with assms show ?thesis by (simp add: add_transaction_def)
  next
    case (Inr u)
    then obtain n where n: "state_nonce basic (tx_caller tx) = Some n" "n \<le> tx_nonce tx"
      by (auto simp: validate_new_transaction_def state_nonce_def Let_def not_less
          split: option.splits sum.splits if_splits)
    obtain m where m: "account_next_nonce p basic (tx_caller tx) = Return (Inr m)"
      using account_next_nonce_sync [OF q assms(2) n(1)] by blast
    define t where "t = \<lparr>ot_order_id = mp_next_order_id p, ot_transaction = tx\<rparr>"
    have pend: "in_sync p'' basic"
      if "insert_pending_transaction p t = (Inr () :: 'a add_error + unit, p'')" "ot_nonce t \<le> m" for p''
      using insert_pending_sync [OF q assms(2) _ _ _ that(2,1)] n m by (simp add: t_def ot_caller_def ot_nonce_def)
    have eq: "add_transaction p basic tx =
        (case (if m < ot_nonce t then insert_future_transaction p t else insert_pending_transaction p t)
         of (Inl e, q) \<Rightarrow> Return (Inl e, q)
          | (Inr _, q) \<Rightarrow> Return (Inr (), q\<lparr>mp_next_order_id := mp_next_order_id q + 1,
                   mp_hash_to_transaction := (mp_hash_to_transaction q)(ot_hash t \<mapsto> t)\<rparr>))"
      using Inr m unfolding t_def add_transaction_def Let_def by simp
    show ?thesis
    proof (cases "m < ot_nonce t")
      case True
      obtain r' q' where i: "insert_future_transaction p t = (r' :: 'a add_error + unit, q')" by fastforce
      then have "mp_pending_transactions q' = mp_pending_transactions p" by simp
      with True assms(2,3) i show ?thesis
        by (cases r') (auto simp: eq in_sync_def)
    next
      case False
      obtain r' q' where i: "insert_pending_transaction p t = (r' :: 'a add_error + unit, q')" by fastforce
      show ?thesis
      proof (cases r')
        case (Inl e)
        with i have "q' = p" using ins_pending.insert_refused [OF q] by blast
        with Inl i False assms(2,3) show ?thesis by (simp add: eq)
      next
        case (Inr x)
        with i False have "in_sync q' basic" by (intro pend) auto
        with Inr i False assms(3) show ?thesis by (auto simp: eq in_sync_def)
      qed
    qed
  qed
qed

lemma in_sync_sample: "in_sync (sample_pool 100 77 0) sample_state"
  by (simp add: in_sync_def sample_pool_def state_nonce_def sample_state_def ot_nonce_def sample_tx_def
      Let_def)

text \<open>The queue of a sender.\<close>

definition queue_of :: "tx_queues \<Rightarrow> address \<Rightarrow> ordered_transaction list" where
  "queue_of m c = (case map_of m c of Some q \<Rightarrow> q | None \<Rightarrow> [])"

text \<open>
  A queue of pending transactions gets a new transaction at its end, followed by the future
  transactions whose turn it is then, up to the next gap.
\<close>

definition gap_closed :: "mem_pool \<Rightarrow> ordered_transaction \<Rightarrow> mem_pool \<Rightarrow> bool" where
  "gap_closed p t p' \<longleftrightarrow>
     (\<exists>moved. queue_of (mp_pending_transactions p') (ot_caller t) =
          queue_of (mp_pending_transactions p) (ot_caller t) @ t # moved
        \<and> consecutive (ot_nonce t + 1) moved
        \<and> mset (queue_of (mp_future_transactions p) (ot_caller t)) =
            mset moved + mset (queue_of (mp_future_transactions p') (ot_caller t))
        \<and> (\<forall>u \<in> set (queue_of (mp_future_transactions p') (ot_caller t)).
              ot_nonce u \<noteq> ot_nonce t + 1 + of_nat (length moved)))"

lemma push_pending_gap_closed: "gap_closed p t (push_pending p t)"
proof -
  define pend where "pend = queue_of (mp_pending_transactions p) (ot_caller t) @ [t]"
  show ?thesis
  proof (cases "map_of (mp_future_transactions p) (ot_caller t)")
    case None
    then show ?thesis
      by (auto simp: gap_closed_def push_pending_def queue_of_def Let_def update_conv' intro!: exI [of _ "[]"])
  next
    case (Some fut)
    obtain pend' fut' where pr: "promote_future (ot_nonce t + 1) pend fut = (pend', fut')" by fastforce
    from promote_future_spec [OF pr] obtain moved where m: "pend' = pend @ moved" "consecutive (ot_nonce t + 1) moved"
      "mset fut = mset moved + mset fut'" "\<forall>u \<in> set fut'. ot_nonce u \<noteq> ot_nonce t + 1 + of_nat (length moved)" by blast
    have "queue_of (mp_pending_transactions (push_pending p t)) (ot_caller t) = pend'"
      "queue_of (mp_future_transactions (push_pending p t)) (ot_caller t) = fut'"
      using Some pr by (auto simp: push_pending_def queue_of_def Let_def update_conv' delete_conv' pend_def)
    with Some m show ?thesis
      by (auto simp: gap_closed_def queue_of_def pend_def intro!: exI [of _ moved])
  qed
qed

lemma insert_pending_queue:
  assumes "insert_pending_transaction p t = (Inr () :: 'e add_error + unit, p')"
  shows "if ot_nonce t \<in> ot_nonce ` set (queue_of (mp_pending_transactions p) (ot_caller t))
    then \<exists>i. i < length (queue_of (mp_pending_transactions p) (ot_caller t))
      \<and> ot_nonce (queue_of (mp_pending_transactions p) (ot_caller t) ! i) = ot_nonce t
      \<and> queue_of (mp_pending_transactions p') (ot_caller t) = (queue_of (mp_pending_transactions p) (ot_caller t))[i := t]
      \<and> mp_future_transactions p' = mp_future_transactions p
    else gap_closed p t p'"
proof (cases "find_enum (\<lambda>_ u. ot_nonce t = ot_nonce u) 0 (queue_of (mp_pending_transactions p) (ot_caller t))")
  case None
  then have "p' = push_pending p t"
    using assms by (auto simp: insert_pending_transaction_def queue_of_def split: option.splits)
  moreover have "ot_nonce t \<notin> ot_nonce ` set (queue_of (mp_pending_transactions p) (ot_caller t))"
    using None by (auto simp: find_enum_0_None in_set_conv_nth)
  ultimately show ?thesis by (simp add: push_pending_gap_closed)
next
  case (Some i)
  then have i: "i < length (queue_of (mp_pending_transactions p) (ot_caller t))"
    "ot_nonce (queue_of (mp_pending_transactions p) (ot_caller t) ! i) = ot_nonce t"
    by (auto simp: find_enum_0_Some)
  then have "ot_nonce t \<in> ot_nonce ` set (queue_of (mp_pending_transactions p) (ot_caller t))"
    by (metis image_eqI nth_mem)
  with i Some assms show ?thesis
    by (auto simp: insert_pending_transaction_def queue_of_def update_conv' intro!: exI [of _ i] split: option.splits sum.splits)
qed

lemma insert_future_queue:
  assumes "insert_future_transaction p t = (Inr () :: 'e add_error + unit, p')"
  shows "t \<in> set (queue_of (mp_future_transactions p') (ot_caller t))"
  using assms
  by (auto simp: insert_future_transaction_def queue_of_def entry_append_def update_conv' find_enum_0_Some
      set_update_memI Let_def split: option.splits sum.splits)

lemma next_nonce_absent:
  assumes inv: "queues_inv p" and sync: "in_sync p basic"
    and n: "state_nonce basic a = Some n" "n \<le> k"
    and m: "account_next_nonce p basic a = Return (Inr m)" and "k \<le> m"
    and "k \<notin> ot_nonce ` set (queue_of (mp_pending_transactions p) a)"
  shows "k = m"
proof (cases "map_of (mp_pending_transactions p) a")
  case None
  with assms account_next_nonce_sync [OF inv sync n(1)] show ?thesis by simp
next
  case (Some q)
  from Some n(1) sync have c: "consecutive n q" by (auto simp: in_sync_def dest!: map_of_SomeD)
  have "find_enum (\<lambda>_ u. k = ot_nonce u) 0 q = None"
    using assms(7) Some by (auto simp: find_enum_0_None queue_of_def)
  from consecutive_absent [OF c n(2) this] account_next_nonce_sync [OF inv sync n(1)] Some m assms(6)
  show ?thesis by simp
qed

text \<open>C29. Pending transactions stay consecutive when a transaction is added, whatever comes of it: the
  nonces of every sender's pending transactions follow each other, starting at the sender's nonce in
  the state. A transaction that is accepted and has a nonce above the sender's next one goes to the
  future transactions, and no pending transaction changes. Otherwise it takes the place of the pending
  transaction with its nonce, if there is one; and if there is none, it has the next nonce, goes to the
  end of the pending transactions, and closes the gap: the future transactions whose nonces follow it
  are moved behind it in the order of their nonces, until no future transaction has the nonce that
  comes next.\<close>

theorem add_transaction_in_sync:
  assumes "pool_inv p" and "in_sync p basic" and "add_transaction p basic tx = Return (r, p')"
  shows "in_sync p' basic
    \<and> (r = Inr () \<longrightarrow>
        (\<exists>next_nonce t. account_next_nonce p basic (tx_caller tx) = Return (Inr next_nonce)
          \<and> ot_transaction t = tx
          \<and> (if next_nonce < tx_nonce tx
             then mp_pending_transactions p' = mp_pending_transactions p
               \<and> t \<in> set (queue_of (mp_future_transactions p') (tx_caller tx))
             else if tx_nonce tx \<in> ot_nonce ` set (queue_of (mp_pending_transactions p) (tx_caller tx))
             then \<exists>i. i < length (queue_of (mp_pending_transactions p) (tx_caller tx))
               \<and> ot_nonce (queue_of (mp_pending_transactions p) (tx_caller tx) ! i) = tx_nonce tx
               \<and> queue_of (mp_pending_transactions p') (tx_caller tx) =
                   (queue_of (mp_pending_transactions p) (tx_caller tx))[i := t]
               \<and> mp_future_transactions p' = mp_future_transactions p
             else tx_nonce tx = next_nonce \<and> gap_closed p t p')))"
    (is "_ \<and> (_ \<longrightarrow> (\<exists>m t. _ m \<and> _ t \<and> ?goes m t))")
proof (intro conjI impI)
  show "in_sync p' basic" by (rule add_transaction_keeps_sync [OF assms])
next
  assume r: "r = Inr ()"
  define t where "t = \<lparr>ot_order_id = mp_next_order_id p, ot_transaction = tx\<rparr>"
  have t: "ot_caller t = tx_caller tx" "ot_nonce t = tx_nonce tx" "ot_transaction t = tx"
    by (simp_all add: t_def ot_caller_def ot_nonce_def)
  from assms(1) have inv: "queues_inv p" by (simp add: pool_inv_def)
  from assms(3) r obtain m q where v: "validate_new_transaction p basic tx = Inr ()"
    and m: "account_next_nonce p basic (tx_caller tx) = Return (Inr m)"
    and i: "(if m < tx_nonce tx then insert_future_transaction p t else insert_pending_transaction p t) =
      (Inr () :: 'a add_error + unit, q)"
    and q: "mp_pending_transactions p' = mp_pending_transactions q" "mp_future_transactions p' = mp_future_transactions q"
    unfolding t(2) [symmetric] t_def
    by (auto simp: add_transaction_def Let_def split: sum.splits outcome.splits prod.splits)
  from v obtain n where n: "state_nonce basic (tx_caller tx) = Some n" "n \<le> tx_nonce tx"
    by (auto simp: validate_new_transaction_def state_nonce_def Let_def not_less split: option.splits sum.splits if_splits)
  have "?goes m t"
  proof (cases "m < tx_nonce tx")
    case True
    with i q insert_future_queue [of p t q] show ?thesis by (simp add: t)
  next
    case False
    with i have ins: "insert_pending_transaction p t = (Inr () :: 'a add_error + unit, q)" by simp
    have "tx_nonce tx = m" if "tx_nonce tx \<notin> ot_nonce ` set (queue_of (mp_pending_transactions p) (tx_caller tx))"
      by (rule next_nonce_absent [OF inv assms(2) n m _ that]) (use False in simp)
    moreover have "gap_closed p t p' \<longleftrightarrow> gap_closed p t q" by (simp add: gap_closed_def q)
    ultimately show ?thesis
      using insert_pending_queue [OF ins, unfolded t] False q
      by (cases "tx_nonce tx \<in> ot_nonce ` set (queue_of (mp_pending_transactions p) (tx_caller tx))") simp_all
  qed
  with m t(3) show "\<exists>m t. account_next_nonce p basic (tx_caller tx) = Return (Inr m) \<and> ot_transaction t = tx \<and> ?goes m t"
    by blast
qed

text \<open>The empty pool with one future transaction, whose turn comes when the gap before it is closed.\<close>

definition gapped_pool :: mem_pool where
  "gapped_pool =
     (let t = \<lparr>ot_order_id = 0, ot_transaction = sample_tx 1 6 100 78\<rparr>
      in empty_pool\<lparr>mp_future_transactions := [(1, [t])],
                    mp_hash_to_transaction := Map.empty(78 \<mapsto> t),
                    mp_next_order_id := 1\<rparr>)"

lemma gapped_pool_reached:
  "add_transaction empty_pool sample_state (sample_tx 1 6 100 78) = Return (Inr (), gapped_pool)"
  by (simp add: add_transaction_eval gapped_pool_def)

lemma gapped_pool_ok: "pool_inv gapped_pool" "in_sync gapped_pool sample_state"
proof -
  show "pool_inv gapped_pool"
    using add_transaction_pool_inv [OF pool_inv_new [of "Some 30000000" None, folded empty_pool_def],
        of sample_state "sample_tx 1 6 100 78"]
    by (simp add: gapped_pool_reached)
  show "in_sync gapped_pool sample_state"
    by (simp add: in_sync_def gapped_pool_def empty_pool_def mem_pool_new_def Let_def)
qed

theorem add_transaction_in_sync_witness:
  "\<exists>p'. add_transaction gapped_pool sample_state (sample_tx 1 5 100 77) = Return (Inr (), p')
     \<and> in_sync p' sample_state
     \<and> (\<exists>t. ot_transaction t = sample_tx 1 5 100 77 \<and> gap_closed gapped_pool t p')
     \<and> map ot_nonce (queue_of (mp_pending_transactions p') 1) = [5, 6] \<and> mp_future_transactions p' = []"
proof -
  obtain p' where p': "add_transaction gapped_pool sample_state (sample_tx 1 5 100 77) = Return (Inr (), p')"
    "map ot_nonce (queue_of (mp_pending_transactions p') 1) = [5, 6]" "mp_future_transactions p' = []"
    by (simp add: add_transaction_eval gapped_pool_def queue_of_def promote_future.simps remove_nth_def)
  have queue: "queue_of (mp_pending_transactions gapped_pool) 1 = []"
    by (simp add: queue_of_def gapped_pool_def empty_pool_def mem_pool_new_def Let_def)
  have next_nonce: "account_next_nonce gapped_pool sample_state 1 = Return (Inr 5)"
    by (simp add: account_next_nonce_def last_pending_nonce_def gapped_pool_def empty_pool_def mem_pool_new_def
        sample_state_def Let_def)
  have tx: "tx_caller (sample_tx 1 5 100 77) = 1" "tx_nonce (sample_tx 1 5 100 77) = 5"
    by (simp_all add: sample_tx_def)
  from add_transaction_in_sync [OF gapped_pool_ok p'(1)] p' show ?thesis
    by (auto simp: queue next_nonce tx)
qed

end
