(* ===== verification/Mem_Pool_Ops.thy ===== *)
theory Mem_Pool_Ops
  imports Mem_Pool
begin

text \<open>
  The other operations of the memory pool: removal of a transaction, the update to a new
  state, and the iterator over the pending transactions the miner consumes
  (\<^verbatim>\<open>crates/mem_pool/src/lib.rs\<close>). Each operation is described by what it does to the multiset
  of the pool's transactions.
\<close>

section \<open>Removing a transaction\<close>

lemma find_by_hash_Some:
  "find_by_hash m c h = Some (q, i) \<longleftrightarrow>
     map_of m c = Some q \<and> find_enum (\<lambda>_ t. ot_hash t = h) 0 q = Some i"
  by (auto simp: find_by_hash_def split: option.splits)

lemma find_by_hash_None:
  assumes "queues_ok m" and "find_by_hash m c h = None"
  shows "\<forall>t \<in> set (im_values m). ot_caller t = c \<longrightarrow> ot_hash t \<noteq> h"
proof (intro ballI impI notI)
  fix t assume t: "t \<in> set (im_values m)" "ot_caller t = c" "ot_hash t = h"
  then obtain c' q where q: "map_of m c' = Some q" "t \<in> set q"
    using set_im_values [OF queues_ok_im_ok [OF assms(1)]] by blast
  with t(2) queues_okD [OF assms(1) q(1)] have "map_of m c = Some q" by auto
  with assms(2) q(2) t(3) show False
    by (auto simp: find_by_hash_def find_enum_0_None in_set_conv_nth)
qed

lemma pool_mset_mem:
  "t \<in># pool_mset p \<longleftrightarrow>
     t \<in> set (im_values (mp_pending_transactions p)) \<or> t \<in> set (im_values (mp_future_transactions p))"
  by (simp add: pool_mset_def)

lemma im_values_nth:
  "im_ok m \<Longrightarrow> map_of m c = Some q \<Longrightarrow> i < length q \<Longrightarrow> q ! i \<in> set (im_values m)"
  using set_im_values nth_mem by metis

lemma mset_split_nth: "i < length q \<Longrightarrow> mset q = add_mset (q ! i) (mset (take i q) + mset (drop (i + 1) q))"
  by (metis mset_remove_nth remove_nth_def Suc_eq_plus1 mset_append)

lemma shrink_queue:
  assumes q: "queues_ok m" and c: "map_of m c = Some q" and r: "set rest \<subseteq> set q"
  defines "m' \<equiv> if rest = [] then AList.delete c m else AList.update c rest m"
  shows "queues_ok m'" and "no_empty_queue m \<Longrightarrow> no_empty_queue m'"
    and "mset (im_values m) + mset rest = mset q + mset (im_values m')"
proof -
  have "ot_caller t = c" if "t \<in> set rest" for t using that r queues_okD [OF q c] by blast
  then show "queues_ok m'" using q by (simp add: m'_def queues_ok_delete queues_ok_update)
  show "no_empty_queue m'" if "no_empty_queue m"
    using that by (simp add: m'_def no_empty_delete no_empty_update)
  show "mset (im_values m) + mset rest = mset q + mset (im_values m')"
    using queues_ok_im_ok [OF q] c
    by (simp add: m'_def mset_im_values_update mset_im_values_delete)
qed

lemma pool_inv_removed:
  assumes "pool_inv p" and "queues_inv p'" and "pool_mset p = add_mset t (pool_mset p')"
    and "mp_hash_to_transaction p' = (mp_hash_to_transaction p)(ot_hash t := None)"
    and "mp_next_order_id p' = mp_next_order_id p"
  shows "pool_inv p'"
  using assms index_ok_remove [of t "pool_mset p'" "mp_hash_to_transaction p"]
    orders_ok_mono [of "pool_mset p" "mp_next_order_id p" "pool_mset p'"]
  by (simp add: pool_inv_def)

lemma remove_transaction_found:
  assumes inv: "pool_inv p" and h: "mp_hash_to_transaction p h = Some t"
    and rm: "remove_transaction p h = (r, p')"
  shows "r = Some t" and "queues_inv p'" and "pool_mset p = add_mset t (pool_mset p')"
    and "mp_hash_to_transaction p' = (mp_hash_to_transaction p)(h := None)"
    and "mp_next_order_id p' = mp_next_order_id p"
proof -
  from inv have i: "index_ok (pool_mset p) (mp_hash_to_transaction p)" and qi: "queues_inv p"
    by (auto simp: pool_inv_def)
  note q = queues_invD [OF qi]
  from i h have t: "t \<in># pool_mset p" "ot_hash t = h" by (auto simp: index_ok_def)
  have same: "u = t" if "u \<in># pool_mset p" "ot_hash u = h" for u
    using index_okD [OF i that(1)] that(2) h by simp
  consider
    (pending) q' i where "find_by_hash (mp_pending_transactions p) (ot_caller t) h = Some (q', i)"
  | (future) q' i where "find_by_hash (mp_pending_transactions p) (ot_caller t) h = None"
      "find_by_hash (mp_future_transactions p) (ot_caller t) h = Some (q', i)"
    using t find_by_hash_None [OF q(1), of "ot_caller t" h] find_by_hash_None [OF q(2), of "ot_caller t" h]
    by (cases "find_by_hash (mp_pending_transactions p) (ot_caller t) h";
        cases "find_by_hash (mp_future_transactions p) (ot_caller t) h") (auto simp: pool_mset_mem)
  then have "r = Some t \<and> queues_inv p' \<and> pool_mset p = add_mset t (pool_mset p')
    \<and> mp_hash_to_transaction p' = (mp_hash_to_transaction p)(h := None)
    \<and> mp_next_order_id p' = mp_next_order_id p"
  proof cases
    case (pending q' i)
    then have q': "map_of (mp_pending_transactions p) (ot_caller t) = Some q'" and i: "i < length q'"
      and "ot_hash (q' ! i) = h" by (auto simp: find_by_hash_Some find_enum_0_Some)
    then have ti: "q' ! i = t"
      using same [of "q' ! i"] im_values_nth [OF q(4)] by (simp add: pool_mset_mem)
    have "ot_caller u = ot_caller t" if "u \<in> set (drop (i + 1) q')" for u
      using that queues_okD [OF q(1) q'] by (auto dest: in_set_dropD)
    then have fut: "queues_ok (entry_append (ot_caller t) (drop (i + 1) q') (mp_future_transactions p))"
      by (rule queues_ok_entry_append [OF q(2)])
    have sub: "set (take i q') \<subseteq> set q'" by (auto dest: in_set_takeD)
    note shrink = shrink_queue [OF q(1) q' sub]
    from rm h pending have r: "r = Some (q' ! i)" and p': "p' = p\<lparr>
        mp_hash_to_transaction := (mp_hash_to_transaction p)(h := None),
        mp_pending_transactions := (if take i q' = [] then AList.delete (ot_caller t) (mp_pending_transactions p)
          else AList.update (ot_caller t) (take i q') (mp_pending_transactions p)),
        mp_future_transactions := entry_append (ot_caller t) (drop (i + 1) q') (mp_future_transactions p)\<rparr>"
      unfolding remove_transaction_def Let_def by simp_all
    have "pool_mset p = add_mset t (pool_mset p')"
      using shrink(3) mset_split_nth [OF i] ti q(5)
      by (simp add: pool_mset_def p' mset_entry_append)
    with shrink(1) shrink(2) [OF q(3)] fut r ti show ?thesis
      by (simp add: p' queues_inv_def)
  next
    case (future q' i)
    then have q': "map_of (mp_future_transactions p) (ot_caller t) = Some q'" and i: "i < length q'"
      and "ot_hash (q' ! i) = h" by (auto simp: find_by_hash_Some find_enum_0_Some)
    then have ti: "q' ! i = t"
      using same [of "q' ! i"] im_values_nth [OF q(5)] by (simp add: pool_mset_mem)
    note shrink = shrink_queue [OF q(2) q' set_remove_nth [of i q']]
    from rm h future have r: "r = Some (q' ! i)" and p': "p' = p\<lparr>
        mp_hash_to_transaction := (mp_hash_to_transaction p)(h := None),
        mp_future_transactions := (if remove_nth i q' = [] then AList.delete (ot_caller t) (mp_future_transactions p)
          else AList.update (ot_caller t) (remove_nth i q') (mp_future_transactions p))\<rparr>"
      unfolding remove_transaction_def Let_def by simp_all
    have "pool_mset p = add_mset t (pool_mset p')"
      using shrink(3) mset_remove_nth [OF i] ti by (simp add: pool_mset_def p')
    with shrink(1) q r ti show ?thesis by (simp add: p' queues_inv_def)
  qed
  then show "r = Some t" and "queues_inv p'" and "pool_mset p = add_mset t (pool_mset p')"
    and "mp_hash_to_transaction p' = (mp_hash_to_transaction p)(h := None)"
    and "mp_next_order_id p' = mp_next_order_id p" by auto
qed

lemma remove_transaction_result:
  assumes "pool_inv p" and "remove_transaction p h = (r, p')"
  shows "r = transaction_by_hash p h \<and> pool_inv p' \<and> transaction_by_hash p' h = None
    \<and> (case r of None \<Rightarrow> p' = p | Some t \<Rightarrow> pool_mset p = add_mset t (pool_mset p'))"
proof (cases "mp_hash_to_transaction p h")
  case None
  with assms show ?thesis by (auto simp: remove_transaction_def transaction_by_hash_def)
next
  case (Some t)
  from assms(1) Some have h: "ot_hash t = h" by (auto simp: pool_inv_def index_ok_def)
  note rm = remove_transaction_found [OF assms(1) Some assms(2)]
  from pool_inv_removed [OF assms(1) rm(2,3)] rm(4,5) h have "pool_inv p'" by simp
  with rm Some show ?thesis by (simp add: transaction_by_hash_def)
qed

text \<open>C31. \<open>remove_transaction\<close> returns the transaction with the given hash, keeps the pool
  well-formed and takes exactly that transaction out of it; on an unknown hash it returns
  nothing and changes nothing.\<close>

theorem remove_transaction_exact:
  assumes "pool_inv p" and "remove_transaction p h = (r, p')"
  shows "r = transaction_by_hash p h \<and> pool_inv p' \<and> transaction_by_hash p' h = None
    \<and> (case r of None \<Rightarrow> p' = p | Some t \<Rightarrow> pool_mset p = add_mset t (pool_mset p'))"
  using assms by (rule remove_transaction_result)

theorem remove_transaction_exact_witness:
  "fst (remove_transaction (sample_pool 100 77 0) 77) = transaction_by_hash (sample_pool 100 77 0) 77
   \<and> pool_inv (snd (remove_transaction (sample_pool 100 77 0) 77))
   \<and> remove_transaction (sample_pool 100 77 0) 77 \<noteq> (None, sample_pool 100 77 0)"
  using remove_transaction_exact [OF pool_inv_sample, of 77 "fst (remove_transaction (sample_pool 100 77 0) 77)"
      "snd (remove_transaction (sample_pool 100 77 0) 77)"]
  by (auto simp: transaction_by_hash_def sample_pool_def Let_def)

text \<open>Removing the only pending transaction of a sender leaves an empty queue among the
  future transactions: the pool reports future transactions although it holds none at all.\<close>

theorem remove_transaction_leaves_empty_queue:
  "\<exists>p h r p'. pool_inv p \<and> \<not> has_future_transactions p \<and> remove_transaction p h = (r, p')
     \<and> pool_transactions p' = [] \<and> has_transactions p' \<and> has_future_transactions p'"
proof (intro exI conjI)
  show "pool_inv (sample_pool 100 77 0)" by (rule pool_inv_sample)
  show "remove_transaction (sample_pool 100 77 0) 77 =
      (Some \<lparr>ot_order_id = 0, ot_transaction = sample_tx 1 5 100 77\<rparr>,
       empty_pool\<lparr>mp_future_transactions := [(1, [])], mp_next_order_id := 1\<rparr>)"
    by (simp add: remove_transaction_def find_by_hash_def entry_append_def add_transaction_eval)
qed (simp_all add: has_future_transactions_def has_transactions_def pool_transactions_def
    sample_pool_def empty_pool_def mem_pool_new_def Let_def)

section \<open>Updating the pool to a new state\<close>

lemma retain_valid_eq:
  "retain_valid limit sender q hm =
     (filter (\<lambda>t. is_valid_tx (ot_transaction t) limit sender) q,
      drop_hashes (mset (filter (\<lambda>t. \<not> is_valid_tx (ot_transaction t) limit sender) q)) hm)"
  by (induction q arbitrary: hm) (simp_all add: drop_hashes_add)

lemma queues_ok_Nil [simp]: "queues_ok []"
  by (simp add: queues_ok_def)

lemma queues_ok_Cons [simp]:
  "queues_ok ((c, q) # m) \<longleftrightarrow> c \<notin> fst ` set m \<and> (\<forall>t \<in> set q. ot_caller t = c) \<and> queues_ok m"
  by (auto simp: queues_ok_def)

lemma mset_filter_split: "mset q = mset (filter P q) + mset (filter (\<lambda>t. \<not> P t) q)"
  by (induction q) auto

lemma allowed_iff:
  "basic (ot_caller t) = Inr account \<Longrightarrow>
     allowed basic limit t \<longleftrightarrow> is_valid_tx (ot_transaction t) limit (account_or_default account)"
  by (simp add: allowed_def)

text \<open>Splitting a queue at the first nonce out of sequence.\<close>

lemma split_sequence:
  assumes "(q', fut') =
    (case find_enum (\<lambda>idx t. ot_nonce t \<noteq> n + of_nat idx) 0 kept of
       Some idx \<Rightarrow> (take idx kept, entry_append c (drop idx kept) fut)
     | None \<Rightarrow> (kept, fut))"
    and "queues_ok fut" and "\<forall>t \<in> set kept. ot_caller t = c"
  shows "consecutive n q'" and "set q' \<subseteq> set kept" and "queues_ok fut'"
    and "mset kept + mset (im_values fut) = mset q' + mset (im_values fut')"
proof -
  have "consecutive n q' \<and> set q' \<subseteq> set kept \<and> queues_ok fut'
      \<and> mset kept + mset (im_values fut) = mset q' + mset (im_values fut')"
  proof (cases "find_enum (\<lambda>idx t. ot_nonce t \<noteq> n + of_nat idx) 0 kept")
    case None
    with assms show ?thesis by (simp add: find_enum_0_None consecutive_iff_nth)
  next
    case (Some idx)
    with assms(1) have eq: "q' = take idx kept" "fut' = entry_append c (drop idx kept) fut" by auto
    have "consecutive n q'" using Some by (simp add: eq find_enum_0_Some consecutive_iff_nth)
    moreover have "queues_ok fut'"
      unfolding eq using assms(3) by (intro queues_ok_entry_append [OF assms(2)]) (auto dest: in_set_dropD)
    moreover have "mset kept = mset q' + mset (drop idx kept)"
      by (metis append_take_drop_id eq(1) mset_append)
    ultimately show ?thesis
      using queues_ok_im_ok [OF assms(2)] by (auto simp: eq mset_entry_append dest: in_set_takeD)
  qed
  then show "consecutive n q'" "set q' \<subseteq> set kept" "queues_ok fut'"
    "mset kept + mset (im_values fut) = mset q' + mset (im_values fut')" by auto
qed

text \<open>
  The effect of the first loop: the queues keep their keys, the transactions it drops are
  exactly the ones it removes from the index, and none of them is allowed by the state. If it
  ends without an error, the pending queues hold only allowed transactions with consecutive
  nonces.
\<close>

definition pending_step ::
  "'e basic_fn \<Rightarrow> u64 option \<Rightarrow> tx_queues \<Rightarrow> (b256 \<rightharpoonup> ordered_transaction) \<Rightarrow> tx_queues
    \<Rightarrow> 'e + unit \<Rightarrow> tx_queues \<Rightarrow> (b256 \<rightharpoonup> ordered_transaction) \<Rightarrow> tx_queues \<Rightarrow> bool" where
  "pending_step basic limit m hm fut r m' hm' fut' \<longleftrightarrow>
     map fst m' = map fst m \<and> queues_ok m' \<and> queues_ok fut'
     \<and> set (im_values m') \<subseteq> set (im_values m)
     \<and> (\<exists>D. hm' = drop_hashes D hm
          \<and> mset (im_values m) + mset (im_values fut) = mset (im_values m') + mset (im_values fut') + D
          \<and> (\<forall>t \<in># D. \<not> allowed basic limit t))
     \<and> (r = Inr () \<longrightarrow>
          (\<forall>t \<in> set (im_values m'). allowed basic limit t)
          \<and> (\<forall>(c, q) \<in> set m'. \<exists>n. state_nonce basic c = Some n \<and> consecutive n q))"

lemma pending_step_refl:
  "queues_ok m \<Longrightarrow> queues_ok fut \<Longrightarrow> r \<noteq> Inr () \<or> m = [] \<Longrightarrow> pending_step basic limit m hm fut r m hm fut"
  unfolding pending_step_def by (auto intro!: exI [of _ "{#}"])

lemma update_pending_step:
  "queues_ok m \<Longrightarrow> queues_ok fut \<Longrightarrow> update_pending basic limit m hm fut = (r, m', hm', fut') \<Longrightarrow>
     pending_step basic limit m hm fut r m' hm' fut'"
proof (induction m arbitrary: hm fut r m' hm' fut')
  case Nil
  then show ?case by (auto intro: pending_step_refl)
next
  case (Cons e m)
  obtain c q where e: "e = (c, q)" by (cases e)
  show ?case
  proof (cases "basic c")
    case (Inl err)
    with Cons.prems e show ?thesis by (auto intro!: pending_step_refl)
  next
    case (Inr account)
    define sender where "sender = account_or_default account"
    define kept where "kept = filter (\<lambda>t. is_valid_tx (ot_transaction t) limit sender) q"
    define out where "out = filter (\<lambda>t. \<not> is_valid_tx (ot_transaction t) limit sender) q"
    define seq where "seq =
      (case find_enum (\<lambda>idx t. ot_nonce t \<noteq> ai_nonce sender + of_nat idx) 0 kept of
         Some idx \<Rightarrow> (take idx kept, entry_append c (drop idx kept) fut)
       | None \<Rightarrow> (kept, fut))"
    obtain q' fut1 where s: "(q', fut1) = seq" by (metis surj_pair)
    obtain r1 m1 hm1 fut2 where rec:
      "update_pending basic limit m (drop_hashes (mset out) hm) fut1 = (r1, m1, hm1, fut2)"
      by (metis surj_pair)
    have ok: "queues_ok m" "\<forall>t \<in> set q. ot_caller t = c" "c \<notin> fst ` set m"
      using Cons.prems(1) by (auto simp: e)
    have kc: "\<forall>t \<in> set kept. ot_caller t = c" using ok(2) by (auto simp: kept_def)
    note sq = split_sequence [OF s [unfolded seq_def] Cons.prems(2) kc]
    note ih = Cons.IH [OF ok(1) sq(3) rec, unfolded pending_step_def]
    have res: "r = r1" "m' = (c, q') # m1" "hm' = hm1" "fut' = fut2"
      using Cons.prems(3)
      unfolding e update_pending.simps Inr sum.case Let_def retain_valid_eq prod.case
        sender_def [symmetric] kept_def [symmetric] out_def [symmetric] seq_def [symmetric]
        s [symmetric] rec by auto
    from ih obtain D where D: "hm1 = drop_hashes D (drop_hashes (mset out) hm)"
      "mset (im_values m) + mset (im_values fut1) = mset (im_values m1) + mset (im_values fut2) + D"
      "\<forall>t \<in># D. \<not> allowed basic limit t" by blast
    have valid: "allowed basic limit t \<longleftrightarrow> is_valid_tx (ot_transaction t) limit sender" if "t \<in> set q" for t
      using that ok(2) Inr by (simp add: sender_def allowed_iff)
    have "mset q = mset kept + mset out" unfolding kept_def out_def by (rule mset_filter_split)
    then have "mset (im_values ((c, q) # m)) + mset (im_values fut)
        = mset (im_values m') + mset (im_values fut') + (mset out + D)"
      using D(2) sq(4) by (simp add: res) (metis (no_types, lifting) add.assoc add.commute)
    moreover have "hm' = drop_hashes (mset out + D) hm" by (simp add: res D(1) drop_hashes_union)
    moreover have "\<forall>t \<in># mset out + D. \<not> allowed basic limit t"
      using D(3) valid by (auto simp: out_def)
    ultimately have ex: "\<exists>D. hm' = drop_hashes D hm \<and> mset (im_values ((c, q) # m)) + mset (im_values fut)
        = mset (im_values m') + mset (im_values fut') + D \<and> (\<forall>t \<in># D. \<not> allowed basic limit t)" by blast
    have keys: "map fst m1 = map fst m" and ok1: "queues_ok m1" "queues_ok fut2"
      and sub: "set (im_values m1) \<subseteq> set (im_values m)" using ih by auto
    from keys ok(3) have c: "c \<notin> fst ` set m1" by (metis list.set_map)
    have q': "\<forall>t \<in> set q'. t \<in> set q \<and> allowed basic limit t"
      using sq(2) valid by (auto simp: kept_def)
    have sn: "state_nonce basic c = Some (ai_nonce sender)" by (simp add: state_nonce_def Inr sender_def)
    show ?thesis
      unfolding pending_step_def e using ex keys ok1 sub c q' ok(2) sn sq(1) ih by (auto simp: res)
  qed
qed

lemma update_future_step:
  "queues_ok m \<Longrightarrow> update_future basic limit m hm = (r, m', hm') \<Longrightarrow>
     map fst m' = map fst m \<and> queues_ok m'
     \<and> (\<exists>D. hm' = drop_hashes D hm \<and> mset (im_values m) = mset (im_values m') + D
          \<and> (\<forall>t \<in># D. \<not> allowed basic limit t))
     \<and> (r = Inr () \<longrightarrow> (\<forall>t \<in> set (im_values m'). allowed basic limit t))"
proof (induction m arbitrary: hm r m' hm')
  case Nil
  then show ?case by (auto intro!: exI [of _ "{#}"])
next
  case (Cons e m)
  obtain c q where e: "e = (c, q)" by (cases e)
  show ?case
  proof (cases "basic c")
    case (Inl err)
    with Cons.prems e show ?thesis by (auto intro!: exI [of _ "{#}"])
  next
    case (Inr account)
    define sender where "sender = account_or_default account"
    define kept where "kept = filter (\<lambda>t. is_valid_tx (ot_transaction t) limit sender) q"
    define out where "out = filter (\<lambda>t. \<not> is_valid_tx (ot_transaction t) limit sender) q"
    obtain r1 m1 hm1 where rec:
      "update_future basic limit m (drop_hashes (mset out) hm) = (r1, m1, hm1)"
      by (metis surj_pair)
    have ok: "queues_ok m" "\<forall>t \<in> set q. ot_caller t = c" "c \<notin> fst ` set m"
      using Cons.prems(1) by (auto simp: e)
    note ih = Cons.IH [OF ok(1) rec]
    have res: "r = r1" "m' = (c, kept) # m1" "hm' = hm1"
      using Cons.prems(2)
      unfolding e update_future.simps Inr sum.case Let_def retain_valid_eq prod.case
        sender_def [symmetric] kept_def [symmetric] out_def [symmetric] rec by auto
    from ih obtain D where D: "hm1 = drop_hashes D (drop_hashes (mset out) hm)"
      "mset (im_values m) = mset (im_values m1) + D" "\<forall>t \<in># D. \<not> allowed basic limit t" by blast
    have valid: "allowed basic limit t \<longleftrightarrow> is_valid_tx (ot_transaction t) limit sender" if "t \<in> set q" for t
      using that ok(2) Inr by (simp add: sender_def allowed_iff)
    have "mset q = mset kept + mset out" unfolding kept_def out_def by (rule mset_filter_split)
    then have "mset (im_values ((c, q) # m)) = mset (im_values m') + (mset out + D)"
      using D(2) by (simp add: res)
    moreover have "hm' = drop_hashes (mset out + D) hm" by (simp add: res D(1) drop_hashes_union)
    moreover have "\<forall>t \<in># mset out + D. \<not> allowed basic limit t"
      using D(3) valid by (auto simp: out_def)
    ultimately have ex: "\<exists>D. hm' = drop_hashes D hm \<and> mset (im_values ((c, q) # m)) = mset (im_values m') + D
        \<and> (\<forall>t \<in># D. \<not> allowed basic limit t)" by blast
    have keys: "map fst m1 = map fst m" and ok1: "queues_ok m1" using ih by auto
    from keys ok(3) have c: "c \<notin> fst ` set m1" by (metis list.set_map)
    have kept: "\<forall>t \<in> set kept. t \<in> set q \<and> allowed basic limit t" using valid by (auto simp: kept_def)
    show ?thesis unfolding e using ex keys ok1 c kept ok(2) ih by (auto simp: res)
  qed
qed

lemma im_values_remove_empty [simp]: "im_values (remove_empty_queues m) = im_values m"
  by (induction m) (auto simp: remove_empty_queues_def)

lemma queues_ok_remove_empty: "queues_ok m \<Longrightarrow> queues_ok (remove_empty_queues m)"
  by (auto simp: queues_ok_def remove_empty_queues_def distinct_map_filter)

lemma no_empty_remove_empty: "no_empty_queue (remove_empty_queues m)"
  by (auto simp: no_empty_queue_def remove_empty_queues_def)

lemma set_remove_empty: "set (remove_empty_queues m) \<subseteq> set m"
  by (auto simp: remove_empty_queues_def)

lemma mem_pool_update_success:
  assumes inv: "pool_inv p" and up: "mem_pool_update p basic = (Inr (), p')"
  obtains D where "mp_hash_to_transaction p' = drop_hashes D (mp_hash_to_transaction p)"
    and "pool_mset p = pool_mset p' + D" and "\<forall>t \<in># D. \<not> allowed basic (mp_block_gas_limit p) t"
    and "\<forall>t \<in># pool_mset p'. allowed basic (mp_block_gas_limit p) t"
    and "queues_inv p'" and "no_empty_queue (mp_future_transactions p')" and "in_sync p' basic"
    and "set (pending_transactions p') \<subseteq> set (pending_transactions p)"
    and "mp_next_order_id p' = mp_next_order_id p"
proof -
  let ?limit = "mp_block_gas_limit p"
  from inv have q: "queues_ok (mp_pending_transactions p)" "queues_ok (mp_future_transactions p)"
    by (auto simp: pool_inv_def queues_inv_def)
  obtain r1 m1 hm1 f1 where up1: "update_pending basic ?limit (mp_pending_transactions p)
      (mp_hash_to_transaction p) (mp_future_transactions p) = (r1, m1, hm1, f1)" by (metis surj_pair)
  obtain r2 f2 hm2 where up2: "update_future basic ?limit f1 hm1 = (r2, f2, hm2)" by (metis surj_pair)
  have r: "r1 = Inr ()" "r2 = Inr ()"
    using up unfolding mem_pool_update_def Let_def up1
    by (cases r1; cases r2; simp add: up2)+
  with up up1 up2 have p': "p' = p\<lparr>mp_pending_transactions := remove_empty_queues m1,
      mp_hash_to_transaction := hm2, mp_future_transactions := remove_empty_queues f2\<rparr>"
    by (simp add: mem_pool_update_def Let_def)
  note s1 = update_pending_step [OF q up1, unfolded pending_step_def]
  from s1 have ok1: "queues_ok m1" "queues_ok f1" by auto
  note s2 = update_future_step [OF ok1(2) up2]
  from s1 obtain D1 where D1: "hm1 = drop_hashes D1 (mp_hash_to_transaction p)"
    "pool_mset p = mset (im_values m1) + mset (im_values f1) + D1"
    "\<forall>t \<in># D1. \<not> allowed basic ?limit t" unfolding pool_mset_def by blast
  from s2 obtain D2 where D2: "hm2 = drop_hashes D2 hm1" "mset (im_values f1) = mset (im_values f2) + D2"
    "\<forall>t \<in># D2. \<not> allowed basic ?limit t" by blast
  show thesis
  proof (rule that [of "D1 + D2"])
    show "mp_hash_to_transaction p' = drop_hashes (D1 + D2) (mp_hash_to_transaction p)"
      by (simp add: p' D1(1) D2(1) drop_hashes_union)
    show "pool_mset p = pool_mset p' + (D1 + D2)"
      using D1(2) D2(2) by (simp add: p' pool_mset_def)
    show "\<forall>t \<in># D1 + D2. \<not> allowed basic ?limit t" using D1(3) D2(3) by auto
    show "\<forall>t \<in># pool_mset p'. allowed basic ?limit t"
      using s1 s2 r by (auto simp: p' pool_mset_def)
    show "queues_inv p'" "no_empty_queue (mp_future_transactions p')"
      using ok1 s2 by (auto simp: p' queues_inv_def queues_ok_remove_empty no_empty_remove_empty)
    show "in_sync p' basic"
      using s1 r(1) set_remove_empty [of m1] by (simp add: p' in_sync_def) blast
    show "set (pending_transactions p') \<subseteq> set (pending_transactions p)"
      using s1 by (simp add: p' pending_transactions_def)
  qed (simp add: p')
qed

text \<open>The update succeeds on a state whose accounts can be read.\<close>

lemma update_pending_total: "fst (update_pending (\<lambda>a. Inr (f a)) limit m hm fut) = Inr ()"
proof (induction m arbitrary: hm fut)
  case (Cons cq m)
  then show ?case by (cases cq) (auto simp: case_prod_unfold Let_def split: option.split)
qed simp

lemma update_future_total: "fst (update_future (\<lambda>a. Inr (f a)) limit m hm) = Inr ()"
proof (induction m arbitrary: hm)
  case (Cons cq m)
  then show ?case by (cases cq) (auto simp: case_prod_unfold Let_def)
qed simp

lemma mem_pool_update_total: "fst (mem_pool_update p (\<lambda>a. Inr (f a) :: 'e + account_info option)) = Inr ()"
proof -
  let ?basic = "\<lambda>a. Inr (f a) :: 'e + account_info option"
  obtain pend hm fut where pend: "update_pending ?basic (mp_block_gas_limit p) (mp_pending_transactions p)
      (mp_hash_to_transaction p) (mp_future_transactions p) = (Inr (), pend, hm, fut)"
    using update_pending_total by (metis prod.exhaust_sel)
  obtain fut' hm' where "update_future ?basic (mp_block_gas_limit p) fut hm = (Inr (), fut', hm')"
    using update_future_total by (metis prod.exhaust_sel)
  with pend show ?thesis by (simp add: mem_pool_update_def Let_def)
qed

lemma mem_pool_update_result:
  assumes "pool_inv p" and "mem_pool_update p basic = (Inr (), p')"
  shows "pool_inv p' \<and> in_sync p' basic
    \<and> no_empty_queue (mp_pending_transactions p') \<and> no_empty_queue (mp_future_transactions p')
    \<and> pool_mset p' = filter_mset (allowed basic (mp_block_gas_limit p)) (pool_mset p)"
  using assms
proof (rule mem_pool_update_success)
  fix D assume D: "mp_hash_to_transaction p' = drop_hashes D (mp_hash_to_transaction p)"
    "pool_mset p = pool_mset p' + D" "\<forall>t \<in># D. \<not> allowed basic (mp_block_gas_limit p) t"
    "\<forall>t \<in># pool_mset p'. allowed basic (mp_block_gas_limit p) t"
    "queues_inv p'" "no_empty_queue (mp_future_transactions p')" "in_sync p' basic"
    "mp_next_order_id p' = mp_next_order_id p"
  from assms(1) D(1,2) have "index_ok (pool_mset p') (mp_hash_to_transaction p')"
    by (simp add: pool_inv_def index_ok_drop)
  moreover have "orders_ok (pool_mset p') (mp_next_order_id p')"
    using assms(1) D(2,8) orders_ok_mono [of "pool_mset p" "mp_next_order_id p" "pool_mset p'"]
    by (simp add: pool_inv_def)
  moreover have "filter_mset (allowed basic (mp_block_gas_limit p)) (pool_mset p) = pool_mset p'"
    unfolding filter_mset_eq_conv using D(2,3,4) by simp
  ultimately show ?thesis using D(5,6,7) by (simp add: pool_inv_def queues_inv_def)
qed

text \<open>A successful update to a new state keeps exactly the transactions the state still
  allows (gas limit within the block's, balance sufficient, nonce not used yet). The
  pool stays well-formed and agrees with the state, and no queue is empty.\<close>

theorem mem_pool_update_filters:
  assumes "pool_inv p" and "mem_pool_update p basic = (Inr (), p')"
  shows "pool_inv p' \<and> in_sync p' basic
    \<and> no_empty_queue (mp_pending_transactions p') \<and> no_empty_queue (mp_future_transactions p')
    \<and> pool_mset p' = filter_mset (allowed basic (mp_block_gas_limit p)) (pool_mset p)"
  using assms by (rule mem_pool_update_result)

text \<open>A state in which the senders' nonce is the given one, and which cannot read account 2.\<close>

definition nonce_state :: "u64 \<Rightarrow> unit basic_fn" where
  "nonce_state n a =
     (if a = 2 then Inl ()
      else Inr (Some \<lparr>ai_balance = 10 ^ 18, ai_nonce = n, ai_code_hash = KECCAK_EMPTY, ai_code = None\<rparr>))"

lemmas update_eval =
  mem_pool_update_def is_valid_tx_def nonce_state_def remove_empty_queues_def

lemma sample_update:
  "mem_pool_update (sample_pool 100 77 0) (nonce_state 6) = (Inr (), empty_pool\<lparr>mp_next_order_id := 1\<rparr>)"
  by (simp add: update_eval add_transaction_eval)

theorem mem_pool_update_filters_witness:
  "pool_inv (empty_pool\<lparr>mp_next_order_id := 1\<rparr>) \<and>
   filter_mset (allowed (nonce_state 6) (Some 30000000)) (pool_mset (sample_pool 100 77 0)) = {#}"
  using mem_pool_update_filters [OF pool_inv_sample sample_update]
  by (simp add: pool_mset_def empty_pool_def mem_pool_new_def sample_pool_def Let_def)

text \<open>Updating the pool never makes a future transaction pending, even when its nonce has
  become the sender's next one: what is pending afterwards was pending before.\<close>

theorem mem_pool_update_never_promotes:
  assumes "pool_inv p" and "mem_pool_update p basic = (Inr (), p')"
  shows "set (pending_transactions p') \<subseteq> set (pending_transactions p)"
  using assms by (rule mem_pool_update_success)

text \<open>A pool with one transaction that waits for nonce 7.\<close>

definition waiting_pool :: mem_pool where
  "waiting_pool =
     (let t = \<lparr>ot_order_id = 0, ot_transaction = sample_tx 1 7 100 77\<rparr>
      in empty_pool\<lparr>mp_future_transactions := [(1, [t])],
                    mp_hash_to_transaction := Map.empty(77 \<mapsto> t),
                    mp_next_order_id := 1\<rparr>)"

lemma pool_inv_waiting: "pool_inv waiting_pool"
proof -
  have "add_transaction empty_pool sample_state (sample_tx 1 7 100 77) = Return (Inr (), waiting_pool)"
    by (simp add: add_transaction_eval waiting_pool_def)
  then show ?thesis
    using add_transaction_pool_inv [of empty_pool sample_state "sample_tx 1 7 100 77"]
      pool_inv_new [of "Some 30000000" None] by (simp flip: empty_pool_def)
qed

lemma waiting_update: "mem_pool_update waiting_pool (nonce_state 7) = (Inr (), waiting_pool)"
  by (simp add: update_eval add_transaction_eval waiting_pool_def)

theorem mem_pool_update_never_promotes_witness:
  "pending_transactions waiting_pool = [] \<and>
   (\<exists>t \<in> set (future_transactions waiting_pool).
      state_nonce (nonce_state 7) (ot_caller t) = Some (ot_nonce t))"
  using mem_pool_update_never_promotes [OF pool_inv_waiting waiting_update]
  by (simp add: pending_transactions_def future_transactions_def state_nonce_def nonce_state_def
      add_transaction_eval waiting_pool_def)

text \<open>An update that fails on a state read leaves emptied pending queues behind, and then
  the lookup of the sender's last pending nonce panics.\<close>

theorem mem_pool_update_error_panics:
  "\<exists>p p'. pool_inv p \<and> mem_pool_update p (nonce_state 6) = (Inl (), p') \<and> last_pending_nonce p' 1 = Panic"
proof -
  obtain p where p: "add_transaction (sample_pool 100 77 0) sample_state (sample_tx 2 5 100 78) = Return (Inr (), p)"
    and pend: "mp_pending_transactions p = [(1, [\<lparr>ot_order_id = 0, ot_transaction = sample_tx 1 5 100 77\<rparr>]),
        (2, [\<lparr>ot_order_id = 1, ot_transaction = sample_tx 2 5 100 78\<rparr>])]"
    by (simp add: add_transaction_eval)
  have "pool_inv p"
    using add_transaction_pool_inv [OF pool_inv_sample, of sample_state "sample_tx 2 5 100 78"] p by simp
  moreover obtain p' where "mem_pool_update p (nonce_state 6) = (Inl (), p')"
    and "mp_pending_transactions p' = [(1, []), (2, [\<lparr>ot_order_id = 1, ot_transaction = sample_tx 2 5 100 78\<rparr>])]"
    by (simp add: update_eval pend add_transaction_eval)
  ultimately show ?thesis by (auto simp: last_pending_nonce_def)
qed

section \<open>Replacement fees\<close>

text \<open>As long as a tenfold-plus-ten product of the old fees fits in 128 bits, a
  replacement is accepted exactly when both its gas price and its priority fee are at least
  ten percent above those of the transaction it replaces.\<close>

theorem replacement_needs_ten_percent:
  assumes "unat (tx_gas_price old) * 110 < 2 ^ 128" and "unat (priority_fee_or_price old) * 110 < 2 ^ 128"
  shows "(validate_replacement_transaction old new = (Inr () :: unit add_error + unit)) \<longleftrightarrow>
    unat (tx_gas_price old) * 110 \<le> unat (tx_gas_price new) * 100
    \<and> unat (priority_fee_or_price old) * 110 \<le> unat (priority_fee_or_price new) * 100"
  unfolding min_new_fee_le_iff [OF assms(1), symmetric] min_new_fee_le_iff [OF assms(2), symmetric]
  by (auto simp: validate_replacement_transaction_def Let_def not_less)

theorem replacement_needs_ten_percent_witness:
  "validate_replacement_transaction (sample_tx 1 5 100 77) (sample_tx 1 5 110 78) = (Inr () :: unit add_error + unit)
   \<and> validate_replacement_transaction (sample_tx 1 5 100 77) (sample_tx 1 5 109 78) \<noteq> (Inr () :: unit add_error + unit)"
  using replacement_needs_ten_percent [of "sample_tx 1 5 100 77" "sample_tx 1 5 110 78"]
    replacement_needs_ten_percent [of "sample_tx 1 5 100 77" "sample_tx 1 5 109 78"]
  by (simp add: sample_tx_def priority_fee_or_price_def)

text \<open>For larger fees the product wraps around: a transaction with gas price \<open>2^127\<close> can be
  replaced by one that pays nothing.\<close>

theorem replacement_fee_wraps:
  "\<exists>old new. tx_gas_price new = 0 \<and> unat (tx_gas_price old) = 2 ^ 127
     \<and> validate_replacement_transaction old new = (Inr () :: unit add_error + unit)"
  by (rule exI [of _ "sample_tx 1 5 (2 ^ 127) 77"], rule exI [of _ "sample_tx 1 5 0 78"])
    (simp add: sample_tx_def validate_replacement_transaction_def min_new_fee_def priority_fee_or_price_def)

end
