(* ===== verification/Mem_Pool_Iter.thy ===== *)
theory Mem_Pool_Iter
  imports Mem_Pool_Ops
begin

text \<open>
  The iterator over the pending transactions of the pool (\<open>PendingTransactions\<close> in
  \<^verbatim>\<open>crates/mem_pool/src/lib.rs\<close>) and the two orders in which the miner reads it
  (\<^verbatim>\<open>crates/block/miner/src/lib.rs\<close>). The iterator takes the first transaction of the sender
  whose first transaction comes first in the given order.
\<close>

section \<open>The model\<close>

text \<open>
  \<open>next\<close>. The comparison reads the first transaction of every queue, and panics on an empty
  one; a single empty queue panics in \<^verbatim>\<open>remove(0)\<close>.
\<close>

definition pending_next ::
  "(ordered_transaction \<Rightarrow> ordered_transaction \<Rightarrow> ordering) \<Rightarrow> tx_queues
     \<Rightarrow> (transaction option \<times> tx_queues) outcome" where
  "pending_next comparator m =
     (if \<exists>(c, q) \<in> set m. q = [] then Panic
      else Return
        (case min_by (\<lambda>lhs rhs. comparator (hd (snd lhs)) (hd (snd rhs))) m of
           None \<Rightarrow> (None, m)
         | Some (caller, q) \<Rightarrow>
             (Some (ot_transaction (hd q)),
              if tl q = [] then AList.delete caller m else AList.update caller (tl q) m)))"

definition remove_caller :: "address \<Rightarrow> tx_queues \<Rightarrow> ordered_transaction list option \<times> tx_queues" where
  "remove_caller caller m = (map_of m caller, AList.delete caller m)"

text \<open>The iterator works on a copy of the pending queues.\<close>

definition pool_iter :: "mem_pool \<Rightarrow> tx_queues" where
  "pool_iter p = mp_pending_transactions p"

definition first_in_first_out_comparator ::
  "ordered_transaction \<Rightarrow> ordered_transaction \<Rightarrow> ordering" where
  "first_in_first_out_comparator lhs rhs = cmp (ot_order_id lhs) (ot_order_id rhs)"

definition effective_miner_fee :: "transaction \<Rightarrow> u128 option \<Rightarrow> u128" where
  "effective_miner_fee tx base_fee =
     (let max_fee_per_gas = tx_gas_price tx;
          max_priority_fee_per_gas =
            (case tx_max_priority_fee_per_gas tx of Some f \<Rightarrow> f | None \<Rightarrow> max_fee_per_gas)
      in case base_fee of
           None \<Rightarrow> max_fee_per_gas
         | Some base_fee \<Rightarrow> min max_priority_fee_per_gas (max_fee_per_gas - base_fee))"

definition priority_comparator ::
  "ordered_transaction \<Rightarrow> ordered_transaction \<Rightarrow> u128 option \<Rightarrow> ordering" where
  "priority_comparator lhs rhs base_fee =
     (let ord = cmp (effective_miner_fee (ot_transaction rhs) base_fee)
                    (effective_miner_fee (ot_transaction lhs) base_fee)
      in if ord = Equal then cmp (ot_order_id lhs) (ot_order_id rhs) else ord)"

datatype mine_ordering = Fifo | Priority

definition mine_comparator ::
  "mine_ordering \<Rightarrow> u128 option \<Rightarrow> ordered_transaction \<Rightarrow> ordered_transaction \<Rightarrow> ordering" where
  "mine_comparator ord base_fee =
     (case ord of
        Fifo \<Rightarrow> first_in_first_out_comparator
      | Priority \<Rightarrow> \<lambda>lhs rhs. priority_comparator lhs rhs base_fee)"

section \<open>The two orders\<close>

interpretation fifo: total_comparator first_in_first_out_comparator
  by unfold_locales (auto simp: first_in_first_out_comparator_def not_less)

lemma priority_comparator_Greater:
  "priority_comparator lhs rhs base_fee = Greater \<longleftrightarrow>
     effective_miner_fee (ot_transaction lhs) base_fee < effective_miner_fee (ot_transaction rhs) base_fee
     \<or> effective_miner_fee (ot_transaction lhs) base_fee = effective_miner_fee (ot_transaction rhs) base_fee
        \<and> ot_order_id rhs < ot_order_id lhs"
  by (auto simp: priority_comparator_def Let_def)

lemma priority_comparator_Less:
  "priority_comparator lhs rhs base_fee = Less \<longleftrightarrow> priority_comparator rhs lhs base_fee = Greater"
  by (auto simp: priority_comparator_def Let_def)

interpretation prio: total_comparator "\<lambda>lhs rhs. priority_comparator lhs rhs base_fee" for base_fee
proof (unfold_locales, goal_cases)
  case (1 x)
  show ?case by (simp add: priority_comparator_def Let_def)
next
  case (2 x y)
  show ?case by (rule priority_comparator_Less)
next
  case (3 x y z)
  then show ?case by (auto simp: priority_comparator_Greater)
qed

lemma mine_comparator_total: "total_comparator (mine_comparator ord base_fee)"
  using fifo.total_comparator_axioms prio.total_comparator_axioms
  by (cases ord) (simp_all add: mine_comparator_def)

section \<open>What the iterator returns\<close>

abbreviation iter_inv :: "tx_queues \<Rightarrow> bool" where
  "iter_inv m \<equiv> queues_ok m \<and> no_empty_queue m"

lemma iter_inv_pool: "pool_inv p \<Longrightarrow> iter_inv (pool_iter p)"
  by (simp add: pool_inv_def queues_inv_def pool_iter_def)

lemma no_empty_iff: "no_empty_queue m \<longleftrightarrow> \<not> (\<exists>(c, q) \<in> set m. q = [])"
  by (auto simp: no_empty_queue_def)

lemma pending_next_cases:
  assumes cmp: "total_comparator comparator" and inv: "iter_inv m"
  obtains (finished) "m = []" "pending_next comparator m = Return (None, m)"
  | (step) c q m' where "map_of m c = Some q" "q \<noteq> []"
      "pending_next comparator m = Return (Some (ot_transaction (hd q)), m')"
      "m' = (if tl q = [] then AList.delete c m else AList.update c (tl q) m)"
      "\<And>c' q'. map_of m c' = Some q' \<Longrightarrow> comparator (hd q) (hd q') \<noteq> Greater"
proof (cases "min_by (\<lambda>lhs rhs. comparator (hd (snd lhs)) (hd (snd rhs))) m")
  case None
  with inv show ?thesis by (intro finished) (auto simp: pending_next_def no_empty_iff)
next
  case (Some e)
  obtain c q where e: "e = (c, q)" by (cases e)
  obtain ys zs where l: "m = ys @ e # zs"
    "\<And>y. y \<in> set ys \<Longrightarrow> comparator (hd (snd y)) (hd (snd e)) = Greater"
    "\<And>y. y \<in> set m \<Longrightarrow> comparator (hd (snd e)) (hd (snd y)) \<noteq> Greater"
    by (rule total_comparator.min_by_SomeE [OF total_comparator.by_key [OF cmp] Some]) blast
  from l(1,3) have mem: "(c, q) \<in> set m" and le: "\<forall>(c', q') \<in> set m. comparator (hd q) (hd q') \<noteq> Greater"
    by (force simp: e)+
  from mem inv have q: "map_of m c = Some q" "q \<noteq> []"
    by (auto simp: queues_ok_im_ok no_empty_queue_def)
  from inv Some e have nx: "pending_next comparator m = Return (Some (ot_transaction (hd q)),
      if tl q = [] then AList.delete c m else AList.update c (tl q) m)"
    by (simp add: pending_next_def no_empty_iff)
  from le have "comparator (hd q) (hd q') \<noteq> Greater" if "map_of m c' = Some q'" for c' q'
    using map_of_SomeD [OF that] by blast
  with q nx show ?thesis by (intro step) auto
qed

text \<open>One step keeps the queues well-formed and takes one transaction out of them.\<close>

lemma pending_next_step:
  assumes "iter_inv m" and "map_of m c = Some q" and "q \<noteq> []"
    and "m' = (if tl q = [] then AList.delete c m else AList.update c (tl q) m)"
  shows "iter_inv m'" and "mset (im_values m) = add_mset (hd q) (mset (im_values m'))"
    and "map_of m' = (map_of m)(c := (if tl q = [] then None else Some (tl q)))"
proof -
  have sub: "set (tl q) \<subseteq> set q" by (auto dest: list.set_sel(2) [OF assms(3)])
  from assms(1) have ok: "queues_ok m" by blast
  note shrink = shrink_queue [OF ok assms(2) sub, folded assms(4)]
  from shrink assms(1) show "iter_inv m'" by blast
  have "mset q = add_mset (hd q) (mset (tl q))" using assms(3) by (cases q) auto
  with shrink(3) show "mset (im_values m) = add_mset (hd q) (mset (im_values m'))"
    by (simp add: union_ac(3))
  show "map_of m' = (map_of m)(c := (if tl q = [] then None else Some (tl q)))"
    by (simp add: assms(4) update_conv' delete_conv')
qed

lemma remove_caller_step:
  assumes "iter_inv m"
  shows "iter_inv (snd (remove_caller c m))"
    and "set (im_values (snd (remove_caller c m))) \<subseteq> set (im_values m)"
    and "length (im_values (snd (remove_caller c m))) \<le> length (im_values m)"
proof -
  from assms show "iter_inv (snd (remove_caller c m))"
    by (simp add: remove_caller_def queues_ok_delete no_empty_delete)
  have "mset (im_values (AList.delete c m)) \<subseteq># mset (im_values m)"
    using assms mset_im_values_delete [of m c] by (cases "map_of m c") (auto simp: queues_ok_im_ok)
  then show "set (im_values (snd (remove_caller c m))) \<subseteq> set (im_values m)"
    "length (im_values (snd (remove_caller c m))) \<le> length (im_values m)"
    by (auto simp: remove_caller_def dest: mset_subset_eqD size_mset_mono)
qed

text \<open>C32. On a well-formed pool the iterator does not panic. It returns nothing exactly when no
  transaction is pending; otherwise the first transaction of some sender, ahead of which the
  given order (insertion or miner fee) puts no other sender's first transaction. It then holds
  exactly the remaining transactions.\<close>

theorem pending_next_least:
  assumes "pool_inv p"
  shows "(pool_iter p = [] \<and>
      pending_next (mine_comparator ord base_fee) (pool_iter p) = Return (None, pool_iter p))
    \<or> (\<exists>c q m'. map_of (pool_iter p) c = Some q \<and> q \<noteq> []
        \<and> pending_next (mine_comparator ord base_fee) (pool_iter p) = Return (Some (ot_transaction (hd q)), m')
        \<and> (\<forall>c' q'. map_of (pool_iter p) c' = Some q' \<longrightarrow>
             mine_comparator ord base_fee (hd q) (hd q') \<noteq> Greater)
        \<and> map_of m' = (map_of (pool_iter p))(c := (if tl q = [] then None else Some (tl q)))
        \<and> mset (pending_transactions p) = add_mset (hd q) (mset (im_values m')))"
proof (cases rule: pending_next_cases [OF mine_comparator_total [of ord base_fee] iter_inv_pool [OF assms]])
  case 1
  then show ?thesis by blast
next
  case (2 c q m')
  note step = pending_next_step [OF iter_inv_pool [OF assms] 2(1,2,4)]
  from 2 step(2,3) show ?thesis by (auto simp: pool_iter_def pending_transactions_def)
qed

theorem pending_next_least_witness:
  "\<exists>m'. pending_next (mine_comparator Fifo None) (pool_iter (sample_pool 100 77 0))
     = Return (Some (sample_tx 1 5 100 77), m') \<and> pending_transactions (sample_pool 100 77 0) \<noteq> []"
  using pending_next_least [OF pool_inv_sample, of Fifo None]
  by (auto simp: pool_iter_def sample_pool_def pending_transactions_def Let_def split: if_splits)

text \<open>The effective miner fee a transaction is ranked by is what it pays above the base
  fee, capped by its priority fee, as long as its gas price covers the base fee.\<close>

theorem effective_miner_fee_value:
  assumes "base_fee \<le> tx_gas_price tx"
  shows "unat (effective_miner_fee tx (Some base_fee)) =
    min (unat (priority_fee_or_price tx)) (unat (tx_gas_price tx) - unat base_fee)"
  using assms
  by (simp add: effective_miner_fee_def priority_fee_or_price_def Let_def min_def word_le_nat_alt unat_sub_le)

theorem effective_miner_fee_value_witness:
  "unat (effective_miner_fee (sample_tx 1 5 100 77) (Some 90)) = 10"
  using effective_miner_fee_value [of 90 "sample_tx 1 5 100 77"]
  by (simp add: sample_tx_def priority_fee_or_price_def)

text \<open>A transaction whose gas price is below the base fee is ranked by a wrapped-around
  difference: at a base fee of 100 one that offers 90 is taken before one that offers 150.\<close>

theorem underpriced_transaction_ranks_first:
  "priority_comparator \<lparr>ot_order_id = 1, ot_transaction = sample_tx 1 5 90 77\<rparr>
     \<lparr>ot_order_id = 0, ot_transaction = sample_tx 2 5 150 78\<rparr> (Some 100) = Less"
  by (simp add: priority_comparator_def effective_miner_fee_def sample_tx_def cmp_def Let_def)

end
