(* ===== verification/State_Diff.thy ===== *)
theory State_Diff
  imports State_Api "HOL-Library.AList"
begin

text \<open>
  Differences between states (\<^verbatim>\<open>crates/state/api/src/diff.rs\<close>, \<^verbatim>\<open>override.rs\<close>). The maps of
  accounts and of storage slots are association lists with distinct keys, because they are
  iterated over; the order of the entries is not observable. The types \<open>Account\<close>,
  \<open>AccountStatus\<close> and \<open>EvmStorageSlot\<close> come from revm: an account has its info, the slots
  that were loaded or changed, and a set of status flags, of which EDR uses three.
\<close>

section \<open>The model\<close>

datatype status_flag = Created | Touched | SelfDestructed

record evm_storage_slot =
  sl_original_value :: u256
  sl_present_value :: u256

type_synonym evm_storage = "(u256 \<times> evm_storage_slot) list"

record account =
  ac_info :: account_info
  ac_storage :: evm_storage
  ac_status :: "status_flag set"

type_synonym evm_state = "(address \<times> account) list"
type_synonym state_diff = evm_state

definition account_from :: "account_info \<Rightarrow> account" where
  "account_from info = \<lparr>ac_info = info, ac_storage = [], ac_status = {}\<rparr>"

definition apply_account_change :: "state_diff \<Rightarrow> address \<Rightarrow> account_info \<Rightarrow> state_diff" where
  "apply_account_change d addr info =
     AList.update addr
       (case map_of d addr of
          Some account \<Rightarrow> account\<lparr>ac_info := info\<rparr>
        | None \<Rightarrow> (account_from info)\<lparr>ac_status := {Touched}\<rparr>) d"

definition apply_storage_change ::
  "state_diff \<Rightarrow> address \<Rightarrow> u256 \<Rightarrow> evm_storage_slot \<Rightarrow> account_info option \<Rightarrow> state_diff" where
  "apply_storage_change d addr index slot info =
     AList.update addr
       (case map_of d addr of
          Some account \<Rightarrow> account\<lparr>ac_storage := AList.update index slot (ac_storage account)\<rparr>
        | None \<Rightarrow> (account_from (account_or_default info))
                    \<lparr>ac_storage := [(index, slot)], ac_status := {Created, Touched}\<rparr>) d"

text \<open>\<^verbatim>\<open>HashMap::extend\<close>.\<close>

definition extend_map :: "('k \<times> 'v) list \<Rightarrow> ('k \<times> 'v) list \<Rightarrow> ('k \<times> 'v) list" where
  "extend_map m entries = foldl (\<lambda>m (k, v). AList.update k v m) m entries"

text \<open>The change of an existing account in \<open>apply_diff\<close>.\<close>

definition merge_account :: "account \<Rightarrow> account \<Rightarrow> account" where
  "merge_account account account_diff =
     \<lparr>ac_info = ac_info account_diff,
      ac_storage = extend_map (ac_storage account) (ac_storage account_diff),
      ac_status = ac_status account \<union> ac_status account_diff\<rparr>"

definition apply_diff :: "state_diff \<Rightarrow> evm_state \<Rightarrow> state_diff" where
  "apply_diff d diff =
     foldl (\<lambda>d (addr, account_diff).
              AList.update addr
                (case map_of d addr of
                   Some account \<Rightarrow> merge_account account account_diff
                 | None \<Rightarrow> account_diff) d) d diff"

text \<open>A state override: the diff of the changes made outside of blocks, with a state root.\<close>

record state_override =
  so_diff :: state_diff
  so_state_root :: b256

definition with_state_root :: "b256 \<Rightarrow> state_override" where
  "with_state_root root = \<lparr>so_diff = [], so_state_root = root\<rparr>"

section \<open>Well-formed diffs\<close>

definition diff_ok :: "evm_state \<Rightarrow> bool" where
  "diff_ok d \<longleftrightarrow> distinct (map fst d) \<and> (\<forall>(_, a) \<in> set d. distinct (map fst (ac_storage a)))"

lemma diff_ok_Nil [simp]: "diff_ok []"
  by (simp add: diff_ok_def)

lemma diff_ok_Cons [simp]:
  "diff_ok ((k, a) # d) \<longleftrightarrow> k \<notin> fst ` set d \<and> distinct (map fst (ac_storage a)) \<and> diff_ok d"
  by (auto simp: diff_ok_def)

lemma diff_ok_lookup: "diff_ok d \<Longrightarrow> map_of d k = Some a \<Longrightarrow> distinct (map fst (ac_storage a))"
  by (fastforce simp: diff_ok_def dest: map_of_SomeD)

lemma set_update_subset: "set (AList.update k v m) \<subseteq> insert (k, v) (set m)"
  by (induction m) auto

lemma diff_ok_update:
  assumes "diff_ok d" and "distinct (map fst (ac_storage a))"
  shows "diff_ok (AList.update k a d)"
  using assms set_update_subset [of k a d] unfolding diff_ok_def
  by (auto simp: distinct_update)

lemma distinct_extend_map: "distinct (map fst m) \<Longrightarrow> distinct (map fst (extend_map m e))"
  unfolding extend_map_def by (induction e arbitrary: m) (auto simp: distinct_update)

lemma map_of_extend_map:
  "distinct (map fst e) \<Longrightarrow> map_of (extend_map m e) = map_of m ++ map_of e"
proof (induction e arbitrary: m)
  case Nil
  then show ?case by (simp add: extend_map_def)
next
  case (Cons p e)
  obtain k v where p: "p = (k, v)" by (cases p)
  have "map_of (extend_map m (p # e)) = map_of (extend_map (AList.update k v m) e)"
    by (simp add: extend_map_def p)
  also have "\<dots> = (map_of m)(k \<mapsto> v) ++ map_of e"
    using Cons by (simp add: update_conv')
  also have "\<dots> = map_of m ++ (map_of e)(k \<mapsto> v)"
  proof -
    have "map_of e k = None" using Cons.prems by (simp add: p map_of_eq_None_iff)
    then show ?thesis by (simp add: map_add_def fun_eq_iff split: option.split)
  qed
  also have "\<dots> = map_of m ++ map_of (p # e)" by (simp only: p map_of.simps fst_conv snd_conv)
  finally show ?case .
qed

lemma diff_ok_account_change: "diff_ok d \<Longrightarrow> diff_ok (apply_account_change d addr info)"
  unfolding apply_account_change_def
  by (rule diff_ok_update) (auto simp: account_from_def split: option.split dest: diff_ok_lookup)

lemma diff_ok_storage_change: "diff_ok d \<Longrightarrow> diff_ok (apply_storage_change d addr index slot info)"
  unfolding apply_storage_change_def
  by (rule diff_ok_update)
    (auto simp: account_from_def distinct_update split: option.split dest: diff_ok_lookup)

lemma diff_ok_apply_diff: "diff_ok d \<Longrightarrow> diff_ok e \<Longrightarrow> diff_ok (apply_diff d e)"
proof (induction e arbitrary: d)
  case Nil
  then show ?case by (simp add: apply_diff_def)
next
  case (Cons p e)
  obtain k a where p: "p = (k, a)" by (cases p)
  let ?a = "case map_of d k of Some b \<Rightarrow> merge_account b a | None \<Rightarrow> a"
  have "diff_ok (AList.update k ?a d)"
    using Cons.prems p
    by (intro diff_ok_update)
      (auto simp: merge_account_def split: option.split intro!: distinct_extend_map dest: diff_ok_lookup)
  with Cons p show ?case by (simp add: apply_diff_def)
qed

section \<open>Abstraction\<close>

text \<open>
  What a diff says of an account, without the order of the entries: its info, its slots as a
  map, its flags.
\<close>

type_synonym account_change = "account_info \<times> (u256 \<rightharpoonup> evm_storage_slot) \<times> status_flag set"

definition account_abs :: "account \<Rightarrow> account_change" where
  "account_abs a = (ac_info a, map_of (ac_storage a), ac_status a)"

definition diff_abs :: "evm_state \<Rightarrow> (address \<rightharpoonup> account_change)" where
  "diff_abs d addr = map_option account_abs (map_of d addr)"

text \<open>The abstract composition of changes: the later info, the later slots, all flags.\<close>

fun merge_change :: "account_change option \<Rightarrow> account_change option \<Rightarrow> account_change option" where
  "merge_change a None = a"
| "merge_change None b = b"
| "merge_change (Some (_, s, f)) (Some (i', s', f')) = Some (i', s ++ s', f \<union> f')"

lemma merge_change_None [simp]: "merge_change None b = b"
  by (cases b) auto

lemma merge_change_assoc: "merge_change (merge_change a b) c = merge_change a (merge_change b c)"
  by (cases a; cases b; cases c) (auto simp: Un_assoc)

lemma account_abs_merge:
  "distinct (map fst (ac_storage b)) \<Longrightarrow>
     Some (account_abs (merge_account a b)) = merge_change (Some (account_abs a)) (Some (account_abs b))"
  by (simp add: account_abs_def merge_account_def map_of_extend_map)

lemma diff_abs_apply_diff:
  "diff_ok d \<Longrightarrow> diff_ok e \<Longrightarrow> diff_abs (apply_diff d e) addr = merge_change (diff_abs d addr) (diff_abs e addr)"
proof (induction e arbitrary: d)
  case Nil
  then show ?case by (simp add: apply_diff_def diff_abs_def)
next
  case (Cons p e)
  obtain k a where p: "p = (k, a)" by (cases p)
  let ?a = "case map_of d k of Some b \<Rightarrow> merge_account b a | None \<Rightarrow> a"
  let ?d = "AList.update k ?a d"
  have ok: "diff_ok ?d"
    using Cons.prems p
    by (intro diff_ok_update)
      (auto simp: merge_account_def split: option.split intro!: distinct_extend_map dest: diff_ok_lookup)
  have "diff_abs (apply_diff d (p # e)) addr = merge_change (diff_abs ?d addr) (diff_abs e addr)"
    using Cons.IH [OF ok] Cons.prems(2) by (simp add: apply_diff_def p)
  also have "\<dots> = merge_change (diff_abs d addr) (diff_abs (p # e) addr)"
  proof (cases "addr = k")
    case True
    then have "diff_abs e addr = None" using Cons.prems(2) by (simp add: p diff_abs_def map_of_eq_None_iff)
    moreover have "diff_abs ?d addr = merge_change (diff_abs d addr) (Some (account_abs a))"
      using True Cons.prems(2) account_abs_merge [of a]
      by (cases "map_of d k") (simp_all add: diff_abs_def update_conv' p)
    ultimately show ?thesis using True by (simp add: diff_abs_def p)
  next
    case False
    then show ?thesis by (simp add: diff_abs_def update_conv' p)
  qed
  finally show ?case .
qed

section \<open>Properties\<close>

text \<open>C26. Applying one diff to another refines the composition of the changes they stand for, at
  every address: the later info replaces the earlier, the later slots override the earlier ones,
  the status flags accumulate.\<close>

theorem apply_diff_refines_merge:
  assumes "diff_ok d" and "diff_ok e"
  shows "diff_ok (apply_diff d e)
    \<and> diff_abs (apply_diff d e) addr = merge_change (diff_abs d addr) (diff_abs e addr)"
  using assms by (simp add: diff_ok_apply_diff diff_abs_apply_diff)

definition sample_info :: "u256 \<Rightarrow> account_info" where
  "sample_info b = \<lparr>ai_balance = b, ai_nonce = 1, ai_code_hash = KECCAK_EMPTY, ai_code = None\<rparr>"

theorem apply_diff_refines_merge_witness:
  "diff_abs (apply_diff (apply_account_change [] 1 (sample_info 5)) (apply_account_change [] 1 (sample_info 6))) 1
     = Some (sample_info 6, Map.empty, {Touched})"
  using apply_diff_refines_merge [OF diff_ok_account_change [OF diff_ok_Nil] diff_ok_account_change [OF diff_ok_Nil],
      of 1 "sample_info 5" 1 "sample_info 6" 1]
  by (simp add: diff_abs_def account_abs_def apply_account_change_def account_from_def)

text \<open>The composition of diffs is associative: it does not matter whether a later diff is
  applied to an already combined one, or combined first.\<close>

theorem apply_diff_assoc:
  assumes "diff_ok d" and "diff_ok e" and "diff_ok f"
  shows "diff_abs (apply_diff (apply_diff d e) f) = diff_abs (apply_diff d (apply_diff e f))"
  using assms by (simp add: fun_eq_iff diff_abs_apply_diff diff_ok_apply_diff merge_change_assoc)

theorem apply_diff_assoc_witness:
  "diff_abs (apply_diff (apply_diff [] (apply_account_change [] 1 (sample_info 5))) []) =
     diff_abs (apply_diff [] (apply_diff (apply_account_change [] 1 (sample_info 5)) []))"
  using apply_diff_assoc [OF diff_ok_Nil diff_ok_account_change [OF diff_ok_Nil] diff_ok_Nil] .

end
