(* ===== verification/Hardfork.thy ===== *)
theory Hardfork
  imports Edr_Prelude
begin

text \<open>
  The hardforks of the L1 chain (\<^verbatim>\<open>crates/edr_chain_l1/src/hardfork.rs\<close>), their order, names and
  conversion to the behaviour classes of the EVM, and the block rewards
  (\<^verbatim>\<open>crates/edr_chain_l1/src/reward.rs\<close>). \<open>evm_spec_id\<close> lists the constants of revm's
  \<open>SpecId\<close> that the sources name, in activation order.
\<close>

section \<open>The model\<close>

datatype l1_hardfork =
    Frontier | FrontierThawing | Homestead | DaoFork | Tangerine | SpuriousDragon | Byzantium
  | Constantinople | Petersburg | Istanbul | MuirGlacier | Berlin | London | ArrowGlacier
  | GrayGlacier | Merge | Shanghai | Cancun | Prague | Osaka | Amsterdam

definition all_hardforks :: "l1_hardfork list" where
  "all_hardforks =
     [Frontier, FrontierThawing, Homestead, DaoFork, Tangerine, SpuriousDragon, Byzantium,
      Constantinople, Petersburg, Istanbul, MuirGlacier, Berlin, London, ArrowGlacier,
      GrayGlacier, Merge, Shanghai, Cancun, Prague, Osaka, Amsterdam]"

text \<open>The discriminant (\<^verbatim>\<open>repr(u8)\<close>), by which the derived order compares.\<close>

primrec hardfork_index :: "l1_hardfork \<Rightarrow> nat" where
  "hardfork_index Frontier = 0"
| "hardfork_index FrontierThawing = 1"
| "hardfork_index Homestead = 2"
| "hardfork_index DaoFork = 3"
| "hardfork_index Tangerine = 4"
| "hardfork_index SpuriousDragon = 5"
| "hardfork_index Byzantium = 6"
| "hardfork_index Constantinople = 7"
| "hardfork_index Petersburg = 8"
| "hardfork_index Istanbul = 9"
| "hardfork_index MuirGlacier = 10"
| "hardfork_index Berlin = 11"
| "hardfork_index London = 12"
| "hardfork_index ArrowGlacier = 13"
| "hardfork_index GrayGlacier = 14"
| "hardfork_index Merge = 15"
| "hardfork_index Shanghai = 16"
| "hardfork_index Cancun = 17"
| "hardfork_index Prague = 18"
| "hardfork_index Osaka = 19"
| "hardfork_index Amsterdam = 20"

definition default_hardfork :: l1_hardfork where
  "default_hardfork = Osaka"

datatype evm_spec_id =
    FRONTIER | HOMESTEAD | TANGERINE | SPURIOUS_DRAGON | BYZANTIUM | PETERSBURG | ISTANBUL
  | BERLIN | LONDON | MERGE | SHANGHAI | CANCUN | PRAGUE | OSAKA | AMSTERDAM

primrec spec_index :: "evm_spec_id \<Rightarrow> nat" where
  "spec_index FRONTIER = 0"
| "spec_index HOMESTEAD = 1"
| "spec_index TANGERINE = 2"
| "spec_index SPURIOUS_DRAGON = 3"
| "spec_index BYZANTIUM = 4"
| "spec_index PETERSBURG = 5"
| "spec_index ISTANBUL = 6"
| "spec_index BERLIN = 7"
| "spec_index LONDON = 8"
| "spec_index MERGE = 9"
| "spec_index SHANGHAI = 10"
| "spec_index CANCUN = 11"
| "spec_index PRAGUE = 12"
| "spec_index OSAKA = 13"
| "spec_index AMSTERDAM = 14"

fun into_evm_spec :: "l1_hardfork \<Rightarrow> evm_spec_id" where
  "into_evm_spec Frontier = FRONTIER"
| "into_evm_spec FrontierThawing = FRONTIER"
| "into_evm_spec Homestead = HOMESTEAD"
| "into_evm_spec DaoFork = HOMESTEAD"
| "into_evm_spec Tangerine = TANGERINE"
| "into_evm_spec SpuriousDragon = SPURIOUS_DRAGON"
| "into_evm_spec Byzantium = BYZANTIUM"
| "into_evm_spec Constantinople = PETERSBURG"
| "into_evm_spec Petersburg = PETERSBURG"
| "into_evm_spec Istanbul = ISTANBUL"
| "into_evm_spec MuirGlacier = ISTANBUL"
| "into_evm_spec Berlin = BERLIN"
| "into_evm_spec London = LONDON"
| "into_evm_spec ArrowGlacier = LONDON"
| "into_evm_spec GrayGlacier = LONDON"
| "into_evm_spec Merge = MERGE"
| "into_evm_spec Shanghai = SHANGHAI"
| "into_evm_spec Cancun = CANCUN"
| "into_evm_spec Prague = PRAGUE"
| "into_evm_spec Osaka = OSAKA"
| "into_evm_spec Amsterdam = AMSTERDAM"

text \<open>The names the derived \<open>Display\<close> emits, which the module \<open>name\<close> repeats.\<close>

primrec hardfork_name :: "l1_hardfork \<Rightarrow> string" where
  "hardfork_name Frontier = ''Frontier''"
| "hardfork_name FrontierThawing = ''Frontier Thawing''"
| "hardfork_name Homestead = ''Homestead''"
| "hardfork_name DaoFork = ''DAO Fork''"
| "hardfork_name Tangerine = ''Tangerine''"
| "hardfork_name SpuriousDragon = ''Spurious''"
| "hardfork_name Byzantium = ''Byzantium''"
| "hardfork_name Constantinople = ''Constantinople''"
| "hardfork_name Petersburg = ''Petersburg''"
| "hardfork_name Istanbul = ''Istanbul''"
| "hardfork_name MuirGlacier = ''MuirGlacier''"
| "hardfork_name Berlin = ''Berlin''"
| "hardfork_name London = ''London''"
| "hardfork_name ArrowGlacier = ''Arrow Glacier''"
| "hardfork_name GrayGlacier = ''Gray Glacier''"
| "hardfork_name Merge = ''Merge''"
| "hardfork_name Shanghai = ''Shanghai''"
| "hardfork_name Cancun = ''Cancun''"
| "hardfork_name Prague = ''Prague''"
| "hardfork_name Osaka = ''Osaka''"
| "hardfork_name Amsterdam = ''Amsterdam''"

text \<open>\<open>from_str\<close>: the hardfork with that name; \<open>None\<close> stands for \<open>UnknownHardfork\<close>.\<close>

definition hardfork_from_str :: "string \<Rightarrow> l1_hardfork option" where
  "hardfork_from_str s = find (\<lambda>h. hardfork_name h = s) all_hardforks"

fun miner_reward :: "l1_hardfork \<Rightarrow> u128 option" where
  "miner_reward Byzantium = Some 3000000000000000000"
| "miner_reward Constantinople = Some 2000000000000000000"
| "miner_reward Petersburg = Some 2000000000000000000"
| "miner_reward Istanbul = Some 2000000000000000000"
| "miner_reward MuirGlacier = Some 2000000000000000000"
| "miner_reward Berlin = Some 2000000000000000000"
| "miner_reward London = Some 2000000000000000000"
| "miner_reward ArrowGlacier = Some 2000000000000000000"
| "miner_reward GrayGlacier = Some 2000000000000000000"
| "miner_reward _ = None"

section \<open>The orders\<close>

lemma nth_hardfork_index: "all_hardforks ! hardfork_index h = h"
  by (cases h) (simp_all add: all_hardforks_def)

lemma hardfork_index_inject [simp]: "hardfork_index a = hardfork_index b \<longleftrightarrow> a = b"
  by (metis nth_hardfork_index)

lemma nth_spec_index:
  "[FRONTIER, HOMESTEAD, TANGERINE, SPURIOUS_DRAGON, BYZANTIUM, PETERSBURG, ISTANBUL, BERLIN,
    LONDON, MERGE, SHANGHAI, CANCUN, PRAGUE, OSAKA, AMSTERDAM] ! spec_index s = s"
  by (cases s) simp_all

lemma spec_index_inject [simp]: "spec_index a = spec_index b \<longleftrightarrow> a = b"
  by (metis nth_spec_index)

instantiation l1_hardfork :: linorder
begin

definition less_eq_l1_hardfork :: "l1_hardfork \<Rightarrow> l1_hardfork \<Rightarrow> bool" where
  "less_eq_l1_hardfork a b \<longleftrightarrow> hardfork_index a \<le> hardfork_index b"

definition less_l1_hardfork :: "l1_hardfork \<Rightarrow> l1_hardfork \<Rightarrow> bool" where
  "less_l1_hardfork a b \<longleftrightarrow> hardfork_index a < hardfork_index b"

instance
  by standard (auto simp: less_eq_l1_hardfork_def less_l1_hardfork_def)

end

instantiation evm_spec_id :: linorder
begin

definition less_eq_evm_spec_id :: "evm_spec_id \<Rightarrow> evm_spec_id \<Rightarrow> bool" where
  "less_eq_evm_spec_id a b \<longleftrightarrow> spec_index a \<le> spec_index b"

definition less_evm_spec_id :: "evm_spec_id \<Rightarrow> evm_spec_id \<Rightarrow> bool" where
  "less_evm_spec_id a b \<longleftrightarrow> spec_index a < spec_index b"

instance
  by standard (auto simp: less_eq_evm_spec_id_def less_evm_spec_id_def)

end

lemmas spec_le_simps = less_eq_evm_spec_id_def less_evm_spec_id_def

section \<open>Properties\<close>

lemma sorted_spec_all: "sorted (map (spec_index \<circ> into_evm_spec) all_hardforks)"
  by (simp add: all_hardforks_def)

lemma hardfork_index_bound: "hardfork_index h < length all_hardforks"
  by (cases h) (simp_all add: all_hardforks_def)

text \<open>The conversion of a hardfork to the EVM behaviour class respects the activation
  order.\<close>

theorem into_evm_spec_mono:
  assumes "a \<le> b"
  shows "into_evm_spec a \<le> into_evm_spec b"
proof -
  have "map (spec_index \<circ> into_evm_spec) all_hardforks ! hardfork_index a
      \<le> map (spec_index \<circ> into_evm_spec) all_hardforks ! hardfork_index b"
    using assms sorted_spec_all hardfork_index_bound
    by (intro sorted_nth_mono) (simp_all add: less_eq_l1_hardfork_def)
  then show ?thesis
    using hardfork_index_bound by (simp add: less_eq_evm_spec_id_def nth_hardfork_index)
qed

theorem into_evm_spec_mono_witness: "into_evm_spec Constantinople \<le> into_evm_spec Berlin"
  by (rule into_evm_spec_mono) (simp add: less_eq_l1_hardfork_def)

lemma distinct_names: "distinct (map hardfork_name all_hardforks)"
  by (simp add: all_hardforks_def)

lemma set_all_hardforks: "h \<in> set all_hardforks"
  by (metis nth_hardfork_index hardfork_index_bound nth_mem)

lemma hardfork_name_inject: "hardfork_name a = hardfork_name b \<longleftrightarrow> a = b"
  using distinct_names set_all_hardforks by (metis distinct_map inj_onD)

text \<open>Parsing and printing hardfork names are inverse: a string parses to a hardfork
  exactly when it is that hardfork's name.\<close>

theorem hardfork_name_roundtrip: "hardfork_from_str s = Some h \<longleftrightarrow> s = hardfork_name h"
proof
  assume "hardfork_from_str s = Some h"
  then show "s = hardfork_name h" by (auto simp: hardfork_from_str_def find_Some_iff)
next
  assume s: "s = hardfork_name h"
  then have "hardfork_from_str s \<noteq> None"
    using set_all_hardforks by (auto simp: hardfork_from_str_def find_None_iff)
  then show "hardfork_from_str s = Some h"
    using s by (auto simp: hardfork_from_str_def find_Some_iff hardfork_name_inject)
qed

text \<open>A block reward is paid exactly from Byzantium until the Merge.\<close>

theorem miner_reward_range:
  "(miner_reward h \<noteq> None) \<longleftrightarrow> BYZANTIUM \<le> into_evm_spec h \<and> into_evm_spec h < MERGE"
  by (cases h) (simp_all add: spec_le_simps)

end
