(* ===== verification/Eips.thy ===== *)
theory Eips
  imports Hardfork
begin

text \<open>
  The fee parameters of EIP-1559 (\<^verbatim>\<open>crates/eips/1559\<close>), the blob parameter schedule of EIP-7892
  (\<^verbatim>\<open>crates/eips/7892\<close>) and the blob gas of a header (\<^verbatim>\<open>crates/eips/4844\<close>). The blob parameters
  themselves belong to the \<open>alloy\<close> crate: their type is a type variable.
\<close>

section \<open>The model\<close>

record constant_base_fee_params =
  max_change_denominator :: u128
  elasticity_multiplier :: u128

datatype 'h base_fee_activation = ActivationBlockNumber u64 | ActivationHardfork 'h

type_synonym 'h dynamic_base_fee_params = "('h base_fee_activation \<times> constant_base_fee_params) list"

fun activation_holds :: "'h::linorder \<Rightarrow> u64 \<Rightarrow> 'h base_fee_activation \<Rightarrow> bool" where
  "activation_holds hardfork block_number (ActivationBlockNumber n) \<longleftrightarrow> n \<le> block_number"
| "activation_holds hardfork block_number (ActivationHardfork h) \<longleftrightarrow> h \<le> hardfork"

definition dynamic_at_condition ::
  "'h::linorder dynamic_base_fee_params \<Rightarrow> 'h \<Rightarrow> u64 \<Rightarrow> constant_base_fee_params option" where
  "dynamic_at_condition activations hardfork block_number =
     map_option snd
       (find (\<lambda>(a, _). activation_holds hardfork block_number a) (rev activations))"

datatype 'h base_fee_params =
    ConstantParams constant_base_fee_params
  | DynamicParams "'h dynamic_base_fee_params"

fun at_condition ::
  "'h::linorder base_fee_params \<Rightarrow> 'h \<Rightarrow> u64 \<Rightarrow> constant_base_fee_params option" where
  "at_condition (ConstantParams params) hardfork block_number = Some params"
| "at_condition (DynamicParams params) hardfork block_number =
     dynamic_at_condition params hardfork block_number"

record blob_gas =
  bg_gas_used :: u64
  bg_excess_gas :: u64

type_synonym 'bp scheduled_blob_params = "(u64 \<times> 'bp) list"

text \<open>\<open>From<Vec<..>>\<close>: a stable sort by the timestamp.\<close>

definition scheduled_from_vec :: "(u64 \<times> 'bp) list \<Rightarrow> 'bp scheduled_blob_params" where
  "scheduled_from_vec value = sort_key fst value"

definition active_scheduled_params_at_timestamp ::
  "'bp scheduled_blob_params \<Rightarrow> u64 \<Rightarrow> 'bp option" where
  "active_scheduled_params_at_timestamp schedule timestamp =
     map_option snd (find (\<lambda>(ts, _). ts \<le> timestamp) (rev schedule))"

section \<open>Properties\<close>

lemma find_rev_Some:
  "find P (rev xs) = Some x \<longleftrightarrow>
     (\<exists>ys zs. xs = ys @ x # zs \<and> P x \<and> (\<forall>z \<in> set zs. \<not> P z))"
proof
  assume "find P (rev xs) = Some x"
  then show "\<exists>ys zs. xs = ys @ x # zs \<and> P x \<and> (\<forall>z \<in> set zs. \<not> P z)"
  proof (induction xs rule: rev_induct)
    case (snoc z xs)
    show ?case
    proof (cases "P z")
      case True
      with snoc.prems show ?thesis by (intro exI [of _ xs] exI [of _ "[]"]) simp
    next
      case False
      with snoc obtain ys zs where "xs = ys @ x # zs" "P x" "\<forall>z \<in> set zs. \<not> P z" by auto
      with False show ?thesis by (intro exI [of _ ys] exI [of _ "zs @ [z]"]) simp
    qed
  qed simp
next
  assume "\<exists>ys zs. xs = ys @ x # zs \<and> P x \<and> (\<forall>z \<in> set zs. \<not> P z)"
  then obtain ys zs where "xs = ys @ x # zs" "P x" "\<forall>z \<in> set zs. \<not> P z" by blast
  moreover have "find P (rev zs) = None" using calculation by (simp add: find_None_iff)
  moreover have "find P (as @ bs) = (case find P as of None \<Rightarrow> find P bs | r \<Rightarrow> r)" for as bs
    by (induction as) auto
  ultimately show "find P (rev xs) = Some x" by simp
qed

text \<open>Of a schedule in any order, the parameters in force at a time are those with the
  latest activation time that is not in the future; there are none exactly when every
  activation is in the future.\<close>

theorem active_scheduled_params_latest:
  "case active_scheduled_params_at_timestamp (scheduled_from_vec v) t of
     None \<Rightarrow> \<forall>(ts, p) \<in> set v. t < ts
   | Some p \<Rightarrow> \<exists>ts. (ts, p) \<in> set v \<and> ts \<le> t \<and> (\<forall>(ts', p') \<in> set v. ts' \<le> t \<longrightarrow> ts' \<le> ts)"
proof (cases "find (\<lambda>(ts, _). ts \<le> t) (rev (scheduled_from_vec v))")
  case None
  then have "\<forall>(ts, p) \<in> set v. t < ts"
    by (auto simp: scheduled_from_vec_def find_None_iff not_le)
  with None show ?thesis by (simp add: active_scheduled_params_at_timestamp_def)
next
  case (Some e)
  obtain ts p where e: "e = (ts, p)" by (cases e)
  from Some obtain ys zs where s: "scheduled_from_vec v = ys @ (ts, p) # zs" "ts \<le> t"
    "\<forall>z \<in> set zs. \<not> fst z \<le> t" unfolding find_rev_Some e by (auto simp: split_beta)
  have srt: "sorted (map fst (scheduled_from_vec v))" by (simp add: scheduled_from_vec_def)
  have "fst z \<le> ts" if "z \<in> set v" "fst z \<le> t" for z
  proof -
    from that(1) have "z \<in> set (ys @ (ts, p) # zs)"
      by (metis s(1) scheduled_from_vec_def set_sort)
    with that(2) s(3) have "z \<in> set ys \<or> z = (ts, p)" by auto
    then show ?thesis using srt unfolding s(1) by (auto simp: sorted_append)
  qed
  moreover have "(ts, p) \<in> set v"
    by (metis s(1) scheduled_from_vec_def set_sort in_set_conv_decomp)
  ultimately show ?thesis
    using Some e s(2) by (fastforce simp: active_scheduled_params_at_timestamp_def)
qed

theorem active_scheduled_params_latest_witness:
  "active_scheduled_params_at_timestamp (scheduled_from_vec [(20, ''b''), (10, ''a'')]) 15 = Some ''a''
   \<and> (case active_scheduled_params_at_timestamp (scheduled_from_vec [(20, ''b''), (10, ''a'')]) 15 of
        None \<Rightarrow> False
      | Some p \<Rightarrow> \<exists>ts :: u64. (ts, p) \<in> set [(20, ''b''), (10, ''a'')] \<and> ts \<le> 15)"
  using active_scheduled_params_latest [of "[(20, ''b''), (10, ''a'')]" 15]
  by (simp add: active_scheduled_params_at_timestamp_def scheduled_from_vec_def)

text \<open>Dynamic base fee parameters follow the last listed activation whose block number or
  hardfork has been reached.\<close>

theorem dynamic_at_condition_last:
  "dynamic_at_condition acts hardfork n = Some params \<longleftrightarrow>
     (\<exists>before a after. acts = before @ (a, params) # after \<and> activation_holds hardfork n a
        \<and> \<not> (\<exists>(b, _) \<in> set after. activation_holds hardfork n b))"
  by (auto simp: dynamic_at_condition_def find_rev_Some)

end
