(* ===== verification/Header_Types.thy ===== *)
theory Header_Types
  imports Eips
begin

text \<open>
  The data of block headers (\<^verbatim>\<open>crates/block/header/src/lib.rs\<close> and \<^verbatim>\<open>overrides.rs\<close>): the header of
  a block, the header of a block being built, the caller's overrides, the configuration of a
  chain, and the functions of other crates the header code calls. These are the fields of the
  record \<open>header_env\<close>, an argument of the definitions that use them.
\<close>

section \<open>Headers\<close>

type_synonym byte = "8 word"
type_synonym b64 = "64 word"
type_synonym bloom = "2048 word"

record block_header =
  bh_parent_hash :: b256
  bh_ommers_hash :: b256
  bh_beneficiary :: address
  bh_state_root :: b256
  bh_transactions_root :: b256
  bh_receipts_root :: b256
  bh_logs_bloom :: bloom
  bh_difficulty :: u256
  bh_number :: u64
  bh_gas_limit :: u64
  bh_gas_used :: u64
  bh_timestamp :: u64
  bh_extra_data :: "byte list"
  bh_mix_hash :: b256
  bh_nonce :: b64
  bh_base_fee_per_gas :: "u128 option"
  bh_withdrawals_root :: "b256 option"
  bh_blob_gas :: "blob_gas option"
  bh_parent_beacon_block_root :: "b256 option"
  bh_requests_hash :: "b256 option"
  bh_block_access_list_hash :: "b256 option"
  bh_slot_number :: "u64 option"

record partial_header =
  ph_parent_hash :: b256
  ph_ommers_hash :: b256
  ph_beneficiary :: address
  ph_state_root :: b256
  ph_receipts_root :: b256
  ph_logs_bloom :: bloom
  ph_difficulty :: u256
  ph_number :: u64
  ph_gas_limit :: u64
  ph_gas_used :: u64
  ph_timestamp :: u64
  ph_extra_data :: "byte list"
  ph_mix_hash :: b256
  ph_nonce :: b64
  ph_base_fee :: "u128 option"
  ph_withdrawals_root :: "b256 option"
  ph_blob_gas :: "blob_gas option"
  ph_parent_beacon_block_root :: "b256 option"
  ph_requests_hash :: "b256 option"
  ph_block_access_list_hash :: "b256 option"
  ph_slot_number :: "u64 option"

record header_overrides =
  ho_parent_hash :: "b256 option"
  ho_ommers_hash :: b256
  ho_beneficiary :: "address option"
  ho_state_root :: "b256 option"
  ho_difficulty :: "u256 option"
  ho_number :: "u64 option"
  ho_gas_limit :: "u64 option"
  ho_timestamp :: "u64 option"
  ho_extra_data :: "byte list option"
  ho_mix_hash :: "b256 option"
  ho_nonce :: "b64 option"
  ho_base_fee :: "u128 option"
  ho_base_fee_params :: "l1_hardfork base_fee_params option"
  ho_withdrawals_root :: "b256 option"
  ho_blob_gas :: "blob_gas option"
  ho_parent_beacon_block_root :: "b256 option"
  ho_requests_hash :: "b256 option"
  ho_block_access_list_hash :: "b256 option"
  ho_slot_number :: "u64 option"

text \<open>\<open>HeaderOverrides::default()\<close>.\<close>

definition no_overrides :: header_overrides where
  "no_overrides =
     \<lparr>ho_parent_hash = None, ho_ommers_hash = 0, ho_beneficiary = None, ho_state_root = None,
      ho_difficulty = None, ho_number = None, ho_gas_limit = None, ho_timestamp = None,
      ho_extra_data = None, ho_mix_hash = None, ho_nonce = None, ho_base_fee = None,
      ho_base_fee_params = None, ho_withdrawals_root = None, ho_blob_gas = None,
      ho_parent_beacon_block_root = None, ho_requests_hash = None,
      ho_block_access_list_hash = None, ho_slot_number = None\<rparr>"

text \<open>\<open>BlockHeader::new\<close>: a partial header completed with the root of its transactions.\<close>

definition header_new :: "partial_header \<Rightarrow> b256 \<Rightarrow> block_header" where
  "header_new ph transactions_root =
     \<lparr>bh_parent_hash = ph_parent_hash ph, bh_ommers_hash = ph_ommers_hash ph,
      bh_beneficiary = ph_beneficiary ph, bh_state_root = ph_state_root ph,
      bh_transactions_root = transactions_root, bh_receipts_root = ph_receipts_root ph,
      bh_logs_bloom = ph_logs_bloom ph, bh_difficulty = ph_difficulty ph,
      bh_number = ph_number ph, bh_gas_limit = ph_gas_limit ph, bh_gas_used = ph_gas_used ph,
      bh_timestamp = ph_timestamp ph, bh_extra_data = ph_extra_data ph,
      bh_mix_hash = ph_mix_hash ph, bh_nonce = ph_nonce ph,
      bh_base_fee_per_gas = ph_base_fee ph, bh_withdrawals_root = ph_withdrawals_root ph,
      bh_blob_gas = ph_blob_gas ph,
      bh_parent_beacon_block_root = ph_parent_beacon_block_root ph,
      bh_requests_hash = ph_requests_hash ph,
      bh_block_access_list_hash = ph_block_access_list_hash ph,
      bh_slot_number = ph_slot_number ph\<rparr>"

text \<open>\<open>From<BlockHeader> for PartialHeader\<close>.\<close>

definition partial_from_header :: "block_header \<Rightarrow> partial_header" where
  "partial_from_header h =
     \<lparr>ph_parent_hash = bh_parent_hash h, ph_ommers_hash = bh_ommers_hash h,
      ph_beneficiary = bh_beneficiary h, ph_state_root = bh_state_root h,
      ph_receipts_root = bh_receipts_root h, ph_logs_bloom = bh_logs_bloom h,
      ph_difficulty = bh_difficulty h, ph_number = bh_number h,
      ph_gas_limit = bh_gas_limit h, ph_gas_used = bh_gas_used h,
      ph_timestamp = bh_timestamp h, ph_extra_data = bh_extra_data h,
      ph_mix_hash = bh_mix_hash h, ph_nonce = bh_nonce h,
      ph_base_fee = bh_base_fee_per_gas h, ph_withdrawals_root = bh_withdrawals_root h,
      ph_blob_gas = bh_blob_gas h,
      ph_parent_beacon_block_root = bh_parent_beacon_block_root h,
      ph_requests_hash = bh_requests_hash h,
      ph_block_access_list_hash = bh_block_access_list_hash h,
      ph_slot_number = bh_slot_number h\<rparr>"

definition KECCAK_NULL_RLP :: b256 where
  "KECCAK_NULL_RLP = 0x56e81f171bcc55a6ff8345e692c0f86e5b48e01b996cadc001622fb5e363b421"

definition KECCAK_RLP_EMPTY_ARRAY :: b256 where
  "KECCAK_RLP_EMPTY_ARRAY = 0x1dcc4de8dec75d7aab85b567b6ccd41ad312451b948a7413f0a142fd40d49347"

section \<open>Parameters\<close>

text \<open>
  What the header code takes from other crates: the hash of a header
  (\<^verbatim>\<open>keccak256(alloy_rlp::encode(..))\<close>), the hash of a list of ommers, the root of the
  withdrawals trie, the initial base fee and the blob parameters of \<open>alloy-eips\<close>, and
  revm's \<open>BlobExcessGasAndPrice\<close>. \<open>'w\<close> is the type of withdrawals, \<open>'bp\<close> of blob parameters
  and \<open>'bx\<close> of the blob price record.
\<close>

record ('w, 'bp, 'bx) header_env =
  he_header_hash :: "block_header \<Rightarrow> b256"
  he_ommers_hash :: "block_header list \<Rightarrow> b256"
  he_withdrawals_root :: "'w list \<Rightarrow> b256"
  he_initial_base_fee :: u64
  he_cancun :: 'bp
  he_prague :: 'bp
  he_osaka :: 'bp
  he_update_fraction :: "'bp \<Rightarrow> u128"
  he_max_blob_gas_per_block :: "'bp \<Rightarrow> u64"
  he_next_block_excess_blob_gas_osaka :: "'bp \<Rightarrow> u64 \<Rightarrow> u64 \<Rightarrow> u64 \<Rightarrow> u64"
  he_calc_blob_fee :: "'bp \<Rightarrow> u64 \<Rightarrow> u128"
  he_blob_excess_gas_and_price :: "u64 \<Rightarrow> u64 \<Rightarrow> 'bx"

record 'bp block_config =
  bc_base_fee_params :: "l1_hardfork base_fee_params"
  bc_default_difficulty_fn :: "l1_hardfork \<Rightarrow> block_header option \<Rightarrow> u64 \<Rightarrow> u64 \<Rightarrow> u256"
  bc_hardfork :: l1_hardfork
  bc_scheduled_blob_params :: "'bp scheduled_blob_params option"

end
