(* ===== verification/State_Trie.thy ===== *)
theory State_Trie
  imports State_Diff Header_Types
begin

text \<open>
  The persistent state (\<^verbatim>\<open>crates/state/persistent_trie\<close>): a trie of accounts, a trie of storage
  slots per account, and a reference-counted map of contract code. A Merkle-Patricia trie of
  \<^verbatim>\<open>cita_trie\<close>, with its Keccak keys and RLP values, is the finite map it stores together with
  its root, and the root is a function of the map that is a parameter of the model, as are
  revm's test for empty accounts and the hash of code.
\<close>

section \<open>Shared maps\<close>

type_synonym ('k, 'v) shared_map = "'k \<rightharpoonup> 'v \<times> nat"

definition shared_insert :: "('k, 'v) shared_map \<Rightarrow> 'k \<Rightarrow> 'v \<Rightarrow> ('k, 'v) shared_map" where
  "shared_insert m k v =
     (case m k of
        Some (w, occurences) \<Rightarrow> m(k \<mapsto> (w, occurences + 1))
      | None \<Rightarrow> m(k \<mapsto> (v, 1)))"

definition shared_remove :: "('k, 'v) shared_map \<Rightarrow> 'k \<Rightarrow> ('k, 'v) shared_map" where
  "shared_remove m k =
     (case m k of
        Some (w, occurences) \<Rightarrow>
          if occurences - 1 = 0 then m(k := None) else m(k \<mapsto> (w, occurences - 1))
      | None \<Rightarrow> m)"

definition shared_get :: "('k, 'v) shared_map \<Rightarrow> 'k \<Rightarrow> 'v option" where
  "shared_get m k = map_option fst (m k)"

section \<open>Accounts and tries\<close>

record basic_account =
  ba_nonce :: u64
  ba_balance :: u256
  ba_storage_root :: b256
  ba_code_hash :: b256

definition default_basic_account :: basic_account where
  "default_basic_account =
     \<lparr>ba_nonce = 0, ba_balance = 0, ba_storage_root = KECCAK_NULL_RLP, ba_code_hash = KECCAK_EMPTY\<rparr>"

definition info_of_basic :: "basic_account \<Rightarrow> account_info" where
  "info_of_basic a =
     \<lparr>ai_balance = ba_balance a, ai_nonce = ba_nonce a, ai_code_hash = ba_code_hash a, ai_code = None\<rparr>"

definition basic_of_info :: "account_info \<Rightarrow> b256 \<Rightarrow> basic_account" where
  "basic_of_info info storage_root =
     \<lparr>ba_nonce = ai_nonce info, ba_balance = ai_balance info,
      ba_storage_root = storage_root, ba_code_hash = ai_code_hash info\<rparr>"

text \<open>What the state takes from other crates.\<close>

record state_env =
  se_storage_root :: "(u256 \<rightharpoonup> u256) \<Rightarrow> b256"
  se_account_root :: "(address \<rightharpoonup> basic_account) \<Rightarrow> b256"
  se_is_empty :: "account_info \<Rightarrow> bool"
  se_hash_slow :: "bytecode \<Rightarrow> b256"

record storage_trie =
  st_slots :: "u256 \<rightharpoonup> u256"
  st_root :: b256

definition storage_trie_default :: "state_env \<Rightarrow> storage_trie" where
  "storage_trie_default env = \<lparr>st_slots = Map.empty, st_root = se_storage_root env Map.empty\<rparr>"

definition set_storage_slot :: "(u256 \<rightharpoonup> u256) \<Rightarrow> u256 \<Rightarrow> u256 \<Rightarrow> u256 option \<times> (u256 \<rightharpoonup> u256)" where
  "set_storage_slot slots index v =
     (let old_value = slots index
      in (old_value,
          if v = 0
          then (if old_value \<noteq> None then slots(index := None) else slots)
          else slots(index \<mapsto> v)))"

definition set_storage_slots :: "(u256 \<rightharpoonup> u256) \<Rightarrow> evm_storage \<Rightarrow> (u256 \<rightharpoonup> u256)" where
  "set_storage_slots slots storage =
     foldl (\<lambda>slots (index, slot). snd (set_storage_slot slots index (sl_present_value slot))) slots storage"

text \<open>Dropping a mutation of a storage trie updates its root.\<close>

definition storage_trie_of :: "state_env \<Rightarrow> (u256 \<rightharpoonup> u256) \<Rightarrow> storage_trie" where
  "storage_trie_of env slots = \<lparr>st_slots = slots, st_root = se_storage_root env slots\<rparr>"

type_synonym storage_tries = "(address \<times> storage_trie) list"

record account_trie =
  at_accounts :: "address \<rightharpoonup> basic_account"
  at_root :: b256

record tries =
  pt_account_trie :: account_trie
  pt_storage_tries :: storage_tries

definition tries_default :: "state_env \<Rightarrow> tries" where
  "tries_default env =
     \<lparr>pt_account_trie = \<lparr>at_accounts = Map.empty, at_root = se_account_root env Map.empty\<rparr>,
      pt_storage_tries = []\<rparr>"

definition tries_account :: "tries \<Rightarrow> address \<Rightarrow> basic_account option" where
  "tries_account t addr = at_accounts (pt_account_trie t) addr"

definition tries_account_storage_slot :: "tries \<Rightarrow> address \<Rightarrow> u256 \<Rightarrow> u256 option" where
  "tries_account_storage_slot t addr index =
     Option.bind (map_of (pt_storage_tries t) addr) (\<lambda>trie. st_slots trie index)"

definition tries_state_root :: "tries \<Rightarrow> b256" where
  "tries_state_root t = at_root (pt_account_trie t)"

definition tries_storage_root :: "tries \<Rightarrow> address \<Rightarrow> b256 option" where
  "tries_storage_root t addr = map_option st_root (map_of (pt_storage_tries t) addr)"

section \<open>Mutations\<close>

text \<open>
  A mutation writes to its own query, but reads accounts from the trie as it was before: the root
  of the account trie changes only when the mutation is dropped.
\<close>

record mutation =
  mu_base :: "address \<rightharpoonup> basic_account"
  mu_query :: "address \<rightharpoonup> basic_account"
  mu_storage_tries :: storage_tries

definition mutate :: "tries \<Rightarrow> mutation" where
  "mutate t = \<lparr>mu_base = at_accounts (pt_account_trie t), mu_query = at_accounts (pt_account_trie t),
               mu_storage_tries = pt_storage_tries t\<rparr>"

definition drop_mutation :: "state_env \<Rightarrow> mutation \<Rightarrow> tries" where
  "drop_mutation env mu =
     \<lparr>pt_account_trie = \<lparr>at_accounts = mu_query mu, at_root = se_account_root env (mu_query mu)\<rparr>,
      pt_storage_tries = mu_storage_tries mu\<rparr>"

definition insert_info_with_root :: "mutation \<Rightarrow> address \<Rightarrow> account_info \<Rightarrow> b256 \<Rightarrow> mutation" where
  "insert_info_with_root mu addr info storage_root =
     mu\<lparr>mu_query := (mu_query mu)(addr \<mapsto> basic_of_info info storage_root)\<rparr>"

definition init_account :: "state_env \<Rightarrow> mutation \<Rightarrow> address \<Rightarrow> account_info \<Rightarrow> mutation" where
  "init_account env mu addr info =
     (let trie = storage_trie_default env
      in insert_info_with_root
           (mu\<lparr>mu_storage_tries := AList.update addr trie (mu_storage_tries mu)\<rparr>) addr info (st_root trie))"

definition insert_account_info :: "state_env \<Rightarrow> mutation \<Rightarrow> address \<Rightarrow> account_info \<Rightarrow> mutation" where
  "insert_account_info env mu addr info =
     (case map_of (mu_storage_tries mu) addr of
        Some trie \<Rightarrow> insert_info_with_root mu addr info (st_root trie)
      | None \<Rightarrow>
          (let trie = storage_trie_default env
           in insert_info_with_root
                (mu\<lparr>mu_storage_tries := AList.update addr trie (mu_storage_tries mu)\<rparr>)
                addr info (st_root trie)))"

definition insert_account_storage :: "state_env \<Rightarrow> mutation \<Rightarrow> address \<Rightarrow> account \<Rightarrow> mutation" where
  "insert_account_storage env mu addr account =
     (let trie = (case map_of (mu_storage_tries mu) addr of
                    Some trie \<Rightarrow> trie
                  | None \<Rightarrow> storage_trie_default env);
          trie = (if ac_storage account \<noteq> []
                  then storage_trie_of env (set_storage_slots (st_slots trie) (ac_storage account))
                  else trie)
      in insert_info_with_root
           (mu\<lparr>mu_storage_tries := AList.update addr trie (mu_storage_tries mu)\<rparr>)
           addr (ac_info account) (st_root trie))"

definition insert_storage_slot ::
  "state_env \<Rightarrow> mutation \<Rightarrow> address \<Rightarrow> u256 \<Rightarrow> u256 \<Rightarrow> 'e + account_info
     \<Rightarrow> ('e + u256 option) \<times> mutation" where
  "insert_storage_slot env mu addr index v default_account =
     (let trie = (case map_of (mu_storage_tries mu) addr of
                    Some trie \<Rightarrow> trie
                  | None \<Rightarrow> storage_trie_default env);
          (old_value, slots) = set_storage_slot (st_slots trie) index v;
          trie = storage_trie_of env slots;
          mu = mu\<lparr>mu_storage_tries := AList.update addr trie (mu_storage_tries mu)\<rparr>
      in case mu_base mu addr of
           Some account \<Rightarrow>
             (Inr old_value,
              mu\<lparr>mu_query := (mu_query mu)(addr \<mapsto> account\<lparr>ba_storage_root := st_root trie\<rparr>)\<rparr>)
         | None \<Rightarrow>
             (case default_account of
                Inl e \<Rightarrow> (Inl e, mu)
              | Inr info \<Rightarrow> (Inr old_value, insert_info_with_root mu addr info (st_root trie))))"

definition remove_account_storage :: "mutation \<Rightarrow> address \<Rightarrow> mutation" where
  "remove_account_storage mu addr = mu\<lparr>mu_storage_tries := AList.delete addr (mu_storage_tries mu)\<rparr>"

definition mu_remove_account :: "mutation \<Rightarrow> address \<Rightarrow> basic_account option \<times> mutation" where
  "mu_remove_account mu addr =
     (let account = mu_base mu addr
      in (account,
          if account \<noteq> None
          then remove_account_storage (mu\<lparr>mu_query := (mu_query mu)(addr := None)\<rparr>) addr
          else mu))"

section \<open>Operations on the tries\<close>

definition tries_with_accounts :: "state_env \<Rightarrow> (address \<times> account_info) list \<Rightarrow> tries" where
  "tries_with_accounts env accounts =
     drop_mutation env
       (foldl (\<lambda>mu (addr, info). init_account env mu addr info) (mutate (tries_default env)) accounts)"

text \<open>The body of the loop of \<open>commit\<close>.\<close>

definition commit_account :: "state_env \<Rightarrow> mutation \<Rightarrow> address \<Rightarrow> account \<Rightarrow> mutation" where
  "commit_account env mu addr account =
     (if Touched \<in> ac_status account
      then if (se_is_empty env (ac_info account) \<and> Created \<notin> ac_status account)
              \<or> SelfDestructed \<in> ac_status account
           then snd (mu_remove_account mu addr)
           else insert_account_storage env
                  (if Created \<in> ac_status account then remove_account_storage mu addr else mu) addr account
      else mu)"

definition tries_commit :: "state_env \<Rightarrow> tries \<Rightarrow> evm_state \<Rightarrow> tries" where
  "tries_commit env t changes =
     drop_mutation env (foldl (\<lambda>mu (addr, account). commit_account env mu addr account) (mutate t) changes)"

definition tries_set_account :: "state_env \<Rightarrow> tries \<Rightarrow> address \<Rightarrow> account_info \<Rightarrow> tries" where
  "tries_set_account env t addr info = drop_mutation env (insert_account_info env (mutate t) addr info)"

definition tries_remove_account :: "state_env \<Rightarrow> tries \<Rightarrow> address \<Rightarrow> basic_account option \<times> tries" where
  "tries_remove_account env t addr =
     (let (account, mu) = mu_remove_account (mutate t) addr in (account, drop_mutation env mu))"

definition tries_set_account_storage_slot ::
  "state_env \<Rightarrow> tries \<Rightarrow> address \<Rightarrow> u256 \<Rightarrow> u256 \<Rightarrow> 'e + account_info \<Rightarrow> ('e + u256 option) \<times> tries" where
  "tries_set_account_storage_slot env t addr index v default_account =
     (let (r, mu) = insert_storage_slot env (mutate t) addr index v default_account
      in (r, drop_mutation env mu))"

text \<open>
  The accounts that \<open>serialize\<close> collects before they are written as JSON: it panics if a storage
  trie is stored for an account that does not exist.
\<close>

definition tries_serialize :: "tries \<Rightarrow> (address \<times> basic_account \<times> storage_trie) list outcome" where
  "tries_serialize t =
     (if \<exists>(addr, _) \<in> set (pt_storage_tries t). tries_account t addr = None then Panic
      else Return
        (concat (map (\<lambda>(addr, trie).
           case tries_account t addr of
             None \<Rightarrow> []
           | Some account \<Rightarrow>
               if account = default_basic_account then [] else [(addr, account, trie)])
           (pt_storage_tries t))))"

section \<open>The state\<close>

text \<open>The error of the RPC client is a parameter.\<close>

datatype 'r state_error =
    CannotRevert
  | InvalidCodeHash b256
  | InvalidStateRoot b256 bool
  | Remote 'r
  | Unsupported string "string option"

record state_trie =
  sx_tries :: tries
  sx_contracts :: "(b256, bytecode) shared_map"

definition state_default :: "state_env \<Rightarrow> state_trie" where
  "state_default env =
     \<lparr>sx_tries = tries_default env, sx_contracts = shared_insert Map.empty KECCAK_EMPTY []\<rparr>"

definition insert_code :: "state_trie \<Rightarrow> b256 \<Rightarrow> bytecode \<Rightarrow> state_trie" where
  "insert_code s code_hash code = s\<lparr>sx_contracts := shared_insert (sx_contracts s) code_hash code\<rparr>"

definition remove_code :: "state_trie \<Rightarrow> b256 \<Rightarrow> state_trie" where
  "remove_code s code_hash =
     (if code_hash \<noteq> KECCAK_EMPTY then s\<lparr>sx_contracts := shared_remove (sx_contracts s) code_hash\<rparr> else s)"

definition state_basic :: "state_trie \<Rightarrow> address \<Rightarrow> account_info option" where
  "state_basic s addr = map_option info_of_basic (tries_account (sx_tries s) addr)"

definition state_code_by_hash :: "state_trie \<Rightarrow> b256 \<Rightarrow> 'r state_error + bytecode" where
  "state_code_by_hash s code_hash =
     (case shared_get (sx_contracts s) code_hash of
        Some code \<Rightarrow> Inr code
      | None \<Rightarrow> Inl (InvalidCodeHash code_hash))"

definition state_storage :: "state_trie \<Rightarrow> address \<Rightarrow> u256 \<Rightarrow> u256" where
  "state_storage s addr index =
     (case tries_account_storage_slot (sx_tries s) addr index of Some v \<Rightarrow> v | None \<Rightarrow> 0)"

definition state_is_empty :: "state_trie \<Rightarrow> bool" where
  "state_is_empty s \<longleftrightarrow> tries_state_root (sx_tries s) = KECCAK_NULL_RLP"

text \<open>\<open>modifier\<close> maps the balance, the nonce and the code of the account.\<close>

definition modify_account_or_else ::
  "state_env \<Rightarrow> state_trie \<Rightarrow> address
     \<Rightarrow> (u256 \<times> u64 \<times> bytecode option \<Rightarrow> u256 \<times> u64 \<times> bytecode option)
     \<Rightarrow> 'r state_error + account_info \<Rightarrow> (b256 \<Rightarrow> 'r state_error + bytecode)
     \<Rightarrow> ('r state_error + account_info) \<times> state_trie" where
  "modify_account_or_else env s addr modifier default_account external_code_by_hash =
     (case (case tries_account (sx_tries s) addr of
              Some account \<Rightarrow> Inr (info_of_basic account)
            | None \<Rightarrow> default_account) of
        Inl e \<Rightarrow> (Inl e, s)
      | Inr info \<Rightarrow>
          (case (if ai_code_hash info \<noteq> KECCAK_EMPTY
                 then (case shared_get (sx_contracts s) (ai_code_hash info) of
                         Some code \<Rightarrow> Inr (Some code)
                       | None \<Rightarrow> map_sum id Some (external_code_by_hash (ai_code_hash info)))
                 else Inr (ai_code info)) of
             Inl e \<Rightarrow> (Inl e, s)
           | Inr code \<Rightarrow>
               (let old_code_hash = ai_code_hash info;
                    (balance, nonce, new_code) = modifier (ai_balance info, ai_nonce info, code);
                    new_code_hash = (case new_code of Some c \<Rightarrow> se_hash_slow env c | None \<Rightarrow> KECCAK_EMPTY);
                    info = \<lparr>ai_balance = balance, ai_nonce = nonce, ai_code_hash = new_code_hash, ai_code = new_code\<rparr>;
                    s = (if new_code_hash \<noteq> old_code_hash
                         then remove_code
                                (case new_code of Some c \<Rightarrow> insert_code s new_code_hash c | None \<Rightarrow> s)
                                old_code_hash
                         else s)
                in (Inr info, s\<lparr>sx_tries := tries_set_account env (sx_tries s) addr info\<rparr>))))"

definition set_account_storage_slot_or_else ::
  "state_env \<Rightarrow> state_trie \<Rightarrow> address \<Rightarrow> u256 \<Rightarrow> u256 \<Rightarrow> 'e + account_info \<Rightarrow> ('e + u256) \<times> state_trie" where
  "set_account_storage_slot_or_else env s addr index v default_account =
     (let (r, t) = tries_set_account_storage_slot env (sx_tries s) addr index v default_account
      in (case r of Inl e \<Rightarrow> Inl e | Inr old \<Rightarrow> Inr (case old of Some w \<Rightarrow> w | None \<Rightarrow> 0),
          s\<lparr>sx_tries := t\<rparr>))"

text \<open>The change of the contracts for one account of a commit; \<open>t\<close> holds the accounts before it.\<close>

definition commit_code :: "state_env \<Rightarrow> tries \<Rightarrow> state_trie \<Rightarrow> address \<Rightarrow> account \<Rightarrow> state_trie" where
  "commit_code env t s addr account =
     (if SelfDestructed \<in> ac_status account then remove_code s (ai_code_hash (ac_info account))
      else if se_is_empty env (ac_info account) \<and> Created \<notin> ac_status account then s
      else
        (let old_code_hash = (case tries_account t addr of
                                Some old_account \<Rightarrow> ba_code_hash old_account
                              | None \<Rightarrow> KECCAK_EMPTY)
         in if old_code_hash \<noteq> ai_code_hash (ac_info account)
            then remove_code
                   (case ai_code (ac_info account) of
                      Some new_code \<Rightarrow> insert_code s (ai_code_hash (ac_info account)) new_code
                    | None \<Rightarrow> s)
                   old_code_hash
            else s))"

definition state_commit :: "state_env \<Rightarrow> state_trie \<Rightarrow> evm_state \<Rightarrow> state_trie" where
  "state_commit env s changes =
     (let t = sx_tries s;
          s = foldl (\<lambda>s (addr, account). commit_code env t s addr account) s changes
      in s\<lparr>sx_tries := tries_commit env t changes\<rparr>)"

definition state_from_diff :: "state_env \<Rightarrow> state_diff \<Rightarrow> state_trie" where
  "state_from_diff env d = state_commit env (state_default env) d"

definition state_insert_account :: "state_env \<Rightarrow> state_trie \<Rightarrow> address \<Rightarrow> account_info \<Rightarrow> state_trie" where
  "state_insert_account env s addr info =
     (let s = (case ai_code info of Some code \<Rightarrow> insert_code s (ai_code_hash info) code | None \<Rightarrow> s)
      in s\<lparr>sx_tries := tries_set_account env (sx_tries s) addr (info\<lparr>ai_code := None\<rparr>)\<rparr>)"

definition state_modify_account ::
  "state_env \<Rightarrow> state_trie \<Rightarrow> address
     \<Rightarrow> (u256 \<times> u64 \<times> bytecode option \<Rightarrow> u256 \<times> u64 \<times> bytecode option)
     \<Rightarrow> ('r state_error + account_info) \<times> state_trie" where
  "state_modify_account env s addr modifier =
     modify_account_or_else env s addr modifier (Inr (default_account_info\<lparr>ai_code := None\<rparr>))
       (\<lambda>code_hash. Inl (InvalidCodeHash code_hash))"

definition state_remove_account :: "state_env \<Rightarrow> state_trie \<Rightarrow> address \<Rightarrow> account_info option \<times> state_trie" where
  "state_remove_account env s addr =
     (let (account, t) = tries_remove_account env (sx_tries s) addr;
          s = s\<lparr>sx_tries := t\<rparr>
      in case account of
           None \<Rightarrow> (None, s)
         | Some a \<Rightarrow> (Some (info_of_basic a), remove_code s (ba_code_hash a)))"

definition state_set_account_storage_slot ::
  "state_env \<Rightarrow> state_trie \<Rightarrow> address \<Rightarrow> u256 \<Rightarrow> u256 \<Rightarrow> ('e + u256) \<times> state_trie" where
  "state_set_account_storage_slot env s addr index v =
     set_account_storage_slot_or_else env s addr index v (Inr (default_account_info\<lparr>ai_code := None\<rparr>))"

definition state_root :: "state_trie \<Rightarrow> b256" where
  "state_root s = tries_state_root (sx_tries s)"

definition account_storage_root :: "state_trie \<Rightarrow> address \<Rightarrow> b256 option" where
  "account_storage_root s addr = tries_storage_root (sx_tries s) addr"

end
