(* ===== verification/State_Trie_Facts.thy ===== *)
theory State_Trie_Facts
  imports State_Trie
begin

text \<open>
  The persistent state: the invariant that ties the tries together, what a state reads after a
  commit, and the reference counts of the contract code.
\<close>

section \<open>Storage slots\<close>

lemma set_storage_slot_fst [simp]: "fst (set_storage_slot slots i v) = slots i"
  by (simp add: set_storage_slot_def Let_def)

lemma set_storage_slot_snd:
  "snd (set_storage_slot slots i v) = slots(i := if v = 0 then None else Some v)"
  by (auto simp: set_storage_slot_def Let_def)

lemma set_storage_slots_lookup:
  "distinct (map fst storage) \<Longrightarrow>
     set_storage_slots slots storage i =
       (case map_of storage i of
          None \<Rightarrow> slots i
        | Some sl \<Rightarrow> if sl_present_value sl = 0 then None else Some (sl_present_value sl))"
proof (induction storage arbitrary: slots)
  case Nil
  then show ?case by (simp add: set_storage_slots_def)
next
  case (Cons p storage)
  obtain j sl where p: "p = (j, sl)" by (cases p)
  have "map_of storage j = None" using Cons.prems by (simp add: p map_of_eq_None_iff)
  moreover have "set_storage_slots slots (p # storage) =
      set_storage_slots (snd (set_storage_slot slots j (sl_present_value sl))) storage"
    by (simp add: set_storage_slots_def p)
  ultimately show ?case
    using Cons by (cases "i = j")
      (simp_all add: p set_storage_slot_snd split: option.split del: map_of_eq_Some_iff)
qed

lemma set_storage_slots_nonzero:
  "(\<And>i. slots i \<noteq> Some 0) \<Longrightarrow> set_storage_slots slots storage i \<noteq> Some 0"
  unfolding set_storage_slots_def
  by (induction storage arbitrary: slots) (auto simp: set_storage_slot_snd)

section \<open>The invariant of the tries\<close>

text \<open>
  There is a storage trie exactly for the accounts that exist; its root is the root of its slots
  and is recorded in the account; a slot never holds zero.
\<close>

definition storage_trie_ok :: "state_env \<Rightarrow> storage_trie \<Rightarrow> bool" where
  "storage_trie_ok env trie \<longleftrightarrow>
     st_root trie = se_storage_root env (st_slots trie) \<and> (\<forall>i. st_slots trie i \<noteq> Some 0)"

definition account_view_ok :: "state_env \<Rightarrow> basic_account option \<Rightarrow> storage_trie option \<Rightarrow> bool" where
  "account_view_ok env account trie \<longleftrightarrow>
     (account = None \<longleftrightarrow> trie = None)
     \<and> (\<forall>a t. account = Some a \<longrightarrow> trie = Some t \<longrightarrow> storage_trie_ok env t \<and> ba_storage_root a = st_root t)"

definition tries_ok :: "state_env \<Rightarrow> tries \<Rightarrow> bool" where
  "tries_ok env t \<longleftrightarrow>
     at_root (pt_account_trie t) = se_account_root env (at_accounts (pt_account_trie t))
     \<and> distinct (map fst (pt_storage_tries t))
     \<and> (\<forall>addr. account_view_ok env (tries_account t addr) (map_of (pt_storage_tries t) addr))"

definition mutation_ok :: "state_env \<Rightarrow> mutation \<Rightarrow> bool" where
  "mutation_ok env mu \<longleftrightarrow>
     distinct (map fst (mu_storage_tries mu))
     \<and> (\<forall>addr. account_view_ok env (mu_query mu addr) (map_of (mu_storage_tries mu) addr))"

lemma storage_trie_ok_default [simp]: "storage_trie_ok env (storage_trie_default env)"
  by (simp add: storage_trie_ok_def storage_trie_default_def)

lemma storage_trie_ok_of: "(\<And>i. slots i \<noteq> Some 0) \<Longrightarrow> storage_trie_ok env (storage_trie_of env slots)"
  by (simp add: storage_trie_ok_def storage_trie_of_def)

lemma mutation_ok_mutate: "tries_ok env t \<Longrightarrow> mutation_ok env (mutate t)"
  by (simp add: tries_ok_def mutation_ok_def mutate_def tries_account_def)

lemma tries_ok_drop: "mutation_ok env mu \<Longrightarrow> tries_ok env (drop_mutation env mu)"
  by (simp add: tries_ok_def mutation_ok_def drop_mutation_def tries_account_def)

lemma mutation_ok_upd:
  assumes ok: "mutation_ok env mu"
    and "mu_query mu' = (mu_query mu)(addr \<mapsto> a)"
    and "map_of (mu_storage_tries mu') = (map_of (mu_storage_tries mu))(addr \<mapsto> trie)"
    and "distinct (map fst (mu_storage_tries mu'))"
    and "storage_trie_ok env trie" and "ba_storage_root a = st_root trie"
  shows "mutation_ok env mu'"
proof -
  have "account_view_ok env (mu_query mu' x) (map_of (mu_storage_tries mu') x)" for x
  proof (cases "x = addr")
    case True
    then show ?thesis using assms by (simp add: account_view_ok_def)
  next
    case False
    then show ?thesis using ok unfolding assms(2,3) by (simp add: mutation_ok_def)
  qed
  with assms(4) show ?thesis by (simp add: mutation_ok_def)
qed

lemma mutation_ok_distinct: "mutation_ok env mu \<Longrightarrow> distinct (map fst (mu_storage_tries mu))"
  by (simp add: mutation_ok_def)

lemma mutation_ok_insert:
  assumes "mutation_ok env mu" and "storage_trie_ok env trie"
  shows "mutation_ok env
    (insert_info_with_root (mu\<lparr>mu_storage_tries := AList.update addr trie (mu_storage_tries mu)\<rparr>)
       addr info (st_root trie))"
  by (rule mutation_ok_upd [OF assms(1), where addr = addr and trie = trie])
    (use assms in \<open>auto simp: insert_info_with_root_def update_conv' distinct_update basic_of_info_def
       dest: mutation_ok_distinct\<close>)

lemma mutation_ok_trie:
  "mutation_ok env mu \<Longrightarrow> map_of (mu_storage_tries mu) addr = Some trie \<Longrightarrow> storage_trie_ok env trie"
  unfolding mutation_ok_def account_view_ok_def by (metis not_None_eq)

lemma mutation_ok_init_account: "mutation_ok env mu \<Longrightarrow> mutation_ok env (init_account env mu addr info)"
  unfolding init_account_def Let_def by (rule mutation_ok_insert) auto

lemma update_same_map: "map_of m k = Some v \<Longrightarrow> map_of (AList.update k v m) = map_of m"
  by (auto simp: update_conv' fun_eq_iff)

lemma mutation_ok_insert_account_info:
  assumes ok: "mutation_ok env mu"
  shows "mutation_ok env (insert_account_info env mu addr info)"
proof (cases "map_of (mu_storage_tries mu) addr")
  case None
  then show ?thesis
    using mutation_ok_insert [OF ok storage_trie_ok_default] by (simp add: insert_account_info_def Let_def)
next
  case (Some trie)
  from mutation_ok_insert [OF ok mutation_ok_trie [OF ok Some], of addr info]
  show ?thesis
    using ok by (simp add: insert_account_info_def Some mutation_ok_def insert_info_with_root_def
        update_same_map [OF Some])
qed

lemma mutation_ok_insert_account_storage:
  assumes ok: "mutation_ok env mu"
  shows "mutation_ok env (insert_account_storage env mu addr account)"
proof -
  let ?trie = "case map_of (mu_storage_tries mu) addr of Some trie \<Rightarrow> trie | None \<Rightarrow> storage_trie_default env"
  have trie: "storage_trie_ok env ?trie"
    using mutation_ok_trie [OF ok] by (auto split: option.split)
  then have "storage_trie_ok env (storage_trie_of env (set_storage_slots (st_slots ?trie) (ac_storage account)))"
    by (intro storage_trie_ok_of set_storage_slots_nonzero) (simp add: storage_trie_ok_def)
  with trie show ?thesis
    unfolding insert_account_storage_def Let_def by (intro mutation_ok_insert [OF ok]) auto
qed

lemma mutation_ok_remove: "mutation_ok env mu \<Longrightarrow> mutation_ok env (snd (mu_remove_account mu addr))"
  by (auto simp: mu_remove_account_def remove_account_storage_def Let_def mutation_ok_def
      account_view_ok_def delete_conv' distinct_delete simp del: map_of_eq_Some_iff)

lemma mutation_ok_remove_storage_then_insert:
  assumes "mutation_ok env mu"
  shows "mutation_ok env (insert_account_storage env (remove_account_storage mu addr) addr account)"
proof -
  define trie where "trie = (if ac_storage account \<noteq> []
    then storage_trie_of env (set_storage_slots Map.empty (ac_storage account)) else storage_trie_default env)"
  have "storage_trie_ok env trie"
    using set_storage_slots_nonzero [of Map.empty] by (auto simp: trie_def intro!: storage_trie_ok_of)
  then show ?thesis
    by (intro mutation_ok_upd [OF assms, where addr = addr and trie = trie
          and a = "basic_of_info (ac_info account) (st_root trie)"])
      (use assms in \<open>auto simp: insert_account_storage_def remove_account_storage_def Let_def delete_conv'
         insert_info_with_root_def update_conv' distinct_update distinct_delete storage_trie_default_def
         trie_def basic_of_info_def fun_eq_iff dest: mutation_ok_distinct simp del: map_of_eq_Some_iff\<close>)
qed

lemma mutation_ok_commit_account:
  "mutation_ok env mu \<Longrightarrow> mutation_ok env (commit_account env mu addr account)"
  by (simp add: commit_account_def mutation_ok_remove mutation_ok_insert_account_storage
      mutation_ok_remove_storage_then_insert)

lemma mutation_ok_insert_storage_slot:
  assumes ok: "mutation_ok env mu" and ins: "insert_storage_slot env mu addr i v dflt = (Inr old, mu')"
  shows "mutation_ok env mu'"
proof -
  define trie where "trie = (case map_of (mu_storage_tries mu) addr of
    Some trie \<Rightarrow> trie | None \<Rightarrow> storage_trie_default env)"
  have "storage_trie_ok env trie"
    using mutation_ok_trie [OF ok] by (auto simp: trie_def split: option.split)
  then have new: "storage_trie_ok env (storage_trie_of env (snd (set_storage_slot (st_slots trie) i v)))"
    by (intro storage_trie_ok_of) (simp add: set_storage_slot_snd storage_trie_ok_def)
  from ins obtain a where "mu_query mu' = (mu_query mu)(addr \<mapsto> a)"
    and "ba_storage_root a = st_root (storage_trie_of env (snd (set_storage_slot (st_slots trie) i v)))"
    and "mu_storage_tries mu' = AList.update addr
      (storage_trie_of env (snd (set_storage_slot (st_slots trie) i v))) (mu_storage_tries mu)"
    unfolding insert_storage_slot_def Let_def trie_def [symmetric] prod.case_eq_if
    by (auto simp: insert_info_with_root_def basic_of_info_def split: option.splits sum.splits)
  with new show ?thesis
    using mutation_ok_distinct [OF ok] by (intro mutation_ok_upd [OF ok, where addr = addr and a = a
          and trie = "storage_trie_of env (snd (set_storage_slot (st_slots trie) i v))"])
      (simp_all add: update_conv' distinct_update)
qed

lemma foldl_invariant: "P s \<Longrightarrow> (\<And>s x. P s \<Longrightarrow> P (f s x)) \<Longrightarrow> P (foldl f s xs)"
  by (induction xs arbitrary: s) auto

lemma tries_ok_commit: "tries_ok env t \<Longrightarrow> tries_ok env (tries_commit env t changes)"
  unfolding tries_commit_def
  by (rule tries_ok_drop, rule foldl_invariant [where P = "mutation_ok env"])
    (auto intro: mutation_ok_mutate mutation_ok_commit_account)

lemma tries_ok_default: "tries_ok env (tries_default env)"
  by (simp add: tries_ok_def tries_default_def tries_account_def account_view_ok_def)

lemma tries_ok_with_accounts: "tries_ok env (tries_with_accounts env accounts)"
  unfolding tries_with_accounts_def
  by (rule tries_ok_drop, rule foldl_invariant [where P = "mutation_ok env"])
    (auto intro: mutation_ok_mutate tries_ok_default mutation_ok_init_account)

lemma tries_ok_set_account: "tries_ok env t \<Longrightarrow> tries_ok env (tries_set_account env t addr info)"
  by (simp add: tries_set_account_def tries_ok_drop mutation_ok_insert_account_info mutation_ok_mutate)

lemma tries_ok_remove_account: "tries_ok env t \<Longrightarrow> tries_ok env (snd (tries_remove_account env t addr))"
  by (auto simp: tries_remove_account_def prod.case_eq_if intro: tries_ok_drop mutation_ok_remove mutation_ok_mutate)

lemma tries_ok_set_storage_slot:
  assumes ok: "tries_ok env t" and "tries_set_account_storage_slot env t addr i v dflt = (Inr old, t')"
  shows "tries_ok env t'"
proof -
  obtain mu where "insert_storage_slot env (mutate t) addr i v dflt = (Inr old, mu)"
    and t': "t' = drop_mutation env mu"
    using assms(2) by (cases "insert_storage_slot env (mutate t) addr i v dflt")
      (simp add: tries_set_account_storage_slot_def)
  from mutation_ok_insert_storage_slot [OF mutation_ok_mutate [OF ok] this(1)]
  show ?thesis unfolding t' by (rule tries_ok_drop)
qed

section \<open>Reachable states\<close>

text \<open>
  One step of a state: a call of one of its operations, whether it succeeds or fails. The only
  exception is a call of \<open>set_account_storage_slot_or_else\<close> that fails, which is not a step; it fails
  only if the account does not exist and the caller's function for its default value returns an
  error. The account that \<open>modify_account_or_else\<close> and \<open>set_account_storage_slot_or_else\<close> start from,
  and the code of an account that is not stored, are supplied by the caller; the steps do not depend
  on the data of their errors, which have none here.
\<close>

inductive state_step :: "state_env \<Rightarrow> state_trie \<Rightarrow> state_trie \<Rightarrow> bool" for env where
  commit: "state_step env s (state_commit env s changes)"
| insert_account: "state_step env s (state_insert_account env s addr info)"
| modify_account: "state_step env s
    (snd (modify_account_or_else env s addr modifier dflt (code :: b256 \<Rightarrow> unit state_error + bytecode)))"
| remove_account: "state_step env s (snd (state_remove_account env s addr))"
| set_slot: "set_account_storage_slot_or_else env s addr index v (dflt :: unit state_error + account_info)
    = (Inr old, s') \<Longrightarrow> state_step env s s'"

inductive state_reachable :: "state_env \<Rightarrow> state_trie \<Rightarrow> bool" for env where
  default: "state_reachable env (state_default env)"
| step: "state_reachable env s \<Longrightarrow> state_step env s s' \<Longrightarrow> state_reachable env s'"

lemma sx_tries_code [simp]:
  "sx_tries (insert_code s h c) = sx_tries s" "sx_tries (remove_code s h) = sx_tries s"
  by (simp_all add: insert_code_def remove_code_def)

lemma sx_tries_commit [simp]: "sx_tries (state_commit env s changes) = tries_commit env (sx_tries s) changes"
  by (simp add: state_commit_def Let_def)

lemma modify_account_tries:
  assumes "modify_account_or_else env s addr modifier dflt code = (Inr info, s')"
  shows "sx_tries s' = tries_set_account env (sx_tries s) addr info"
  using assms
  by (auto simp: modify_account_or_else_def Let_def prod.case_eq_if split: sum.splits if_splits option.splits)

lemma modify_account_refused:
  "modify_account_or_else env s addr modifier dflt code = (Inl e, s') \<Longrightarrow> s' = s"
  by (auto simp: modify_account_or_else_def Let_def prod.case_eq_if split: sum.splits if_splits option.splits)

lemma state_step_tries_ok: "state_step env s s' \<Longrightarrow> tries_ok env (sx_tries s) \<Longrightarrow> tries_ok env (sx_tries s')"
proof (induction rule: state_step.induct)
  case (commit s changes)
  then show ?case by (simp add: tries_ok_commit)
next
  case (insert_account s addr info)
  then show ?case
    by (simp add: state_insert_account_def Let_def tries_ok_set_account split: option.split)
next
  case (modify_account s addr modifier dflt code)
  obtain r s' where m: "modify_account_or_else env s addr modifier dflt code = (r, s')" by fastforce
  with modify_account show ?case
    by (cases r) (auto simp: modify_account_tries tries_ok_set_account dest: modify_account_refused)
next
  case (remove_account s addr)
  then show ?case
    using tries_ok_remove_account [OF remove_account, of addr]
    by (simp add: state_remove_account_def Let_def prod.case_eq_if split: option.split)
next
  case (set_slot s addr index v dflt old s')
  obtain r t where rt: "tries_set_account_storage_slot env (sx_tries s) addr index v dflt = (r, t)"
    by (cases "tries_set_account_storage_slot env (sx_tries s) addr index v dflt")
  with set_slot obtain w where "r = Inr w" "s' = s\<lparr>sx_tries := t\<rparr>"
    by (auto simp: set_account_storage_slot_or_else_def split: sum.splits)
  with rt set_slot show ?case by (auto intro: tries_ok_set_storage_slot)
qed

lemma state_reachable_tries_ok: "state_reachable env s \<Longrightarrow> tries_ok env (sx_tries s)"
proof (induction rule: state_reachable.induct)
  case default
  then show ?case by (simp add: state_default_def tries_ok_default)
next
  case (step s s')
  then show ?case by (blast intro: state_step_tries_ok)
qed

lemma tries_ok_serialize:
  assumes "tries_ok env t"
  shows "tries_serialize t \<noteq> Panic"
proof -
  have "tries_account t addr \<noteq> None" if "(addr, trie) \<in> set (pt_storage_tries t)" for addr trie
  proof -
    from weak_map_of_SomeI [OF that] have "map_of (pt_storage_tries t) addr \<noteq> None" by auto
    with assms show ?thesis by (simp add: tries_ok_def account_view_ok_def)
  qed
  then have "\<not> (\<exists>(addr, _) \<in> set (pt_storage_tries t). tries_account t addr = None)" by blast
  then show ?thesis by (simp add: tries_serialize_def)
qed

text \<open>C4. Commits, insertions, modifications and removals of accounts, whether they succeed or fail, and
  successful writes of a storage slot lead from the empty state only to states in which a storage
  trie is stored for exactly the accounts that exist, every account records the root of its storage,
  no slot holds zero, and the state root is the root of the accounts; such a state can be serialized.
  A slot write that fails, because the account does not exist and the caller cannot supply it, is
  excluded: it breaks the invariant, which is a bug.\<close>

theorem state_reachable_invariant:
  assumes "state_reachable env s"
  shows "tries_ok env (sx_tries s)
    \<and> state_root s = se_account_root env (at_accounts (pt_account_trie (sx_tries s)))
    \<and> tries_serialize (sx_tries s) \<noteq> Panic"
  using state_reachable_tries_ok [OF assms] tries_ok_serialize
  by (simp add: state_root_def tries_state_root_def tries_ok_def)

definition sample_state_env :: state_env where
  "sample_state_env =
     \<lparr>se_storage_root = (\<lambda>_. KECCAK_NULL_RLP), se_account_root = (\<lambda>_. KECCAK_NULL_RLP),
      se_is_empty = (\<lambda>info. ai_balance info = 0 \<and> ai_nonce info = 0 \<and> ai_code_hash info = KECCAK_EMPTY),
      se_hash_slow = (\<lambda>c. of_nat (length c))\<rparr>"

theorem state_reachable_invariant_witness:
  "tries_serialize (sx_tries (state_insert_account sample_state_env (state_default sample_state_env) 1 (sample_info 5)))
     \<noteq> Panic"
  using state_reachable_invariant
    [OF state_reachable.step [OF state_reachable.default state_step.insert_account
        [where addr = 1 and info = "sample_info 5"]], of sample_state_env]
  by blast

section \<open>What a state reads after a commit\<close>

text \<open>
  The effect of one committed account on its own entries: \<open>b\<close> is the account before the commit,
  \<open>v\<close> the account and the storage trie in the mutation.
\<close>

definition commit_effect ::
  "state_env \<Rightarrow> basic_account option \<Rightarrow> basic_account option \<times> storage_trie option \<Rightarrow> account
     \<Rightarrow> basic_account option \<times> storage_trie option" where
  "commit_effect env b v account =
     (if Touched \<in> ac_status account
      then if (se_is_empty env (ac_info account) \<and> Created \<notin> ac_status account)
              \<or> SelfDestructed \<in> ac_status account
           then (if b \<noteq> None then (None, None) else v)
           else
             (let trie = (case (if Created \<in> ac_status account then None else snd v) of
                            Some trie \<Rightarrow> trie | None \<Rightarrow> storage_trie_default env);
                  trie = (if ac_storage account \<noteq> []
                          then storage_trie_of env (set_storage_slots (st_slots trie) (ac_storage account))
                          else trie)
              in (Some (basic_of_info (ac_info account) (st_root trie)), Some trie))
      else v)"

definition mu_view :: "mutation \<Rightarrow> address \<Rightarrow> basic_account option \<times> storage_trie option" where
  "mu_view mu addr = (mu_query mu addr, map_of (mu_storage_tries mu) addr)"

lemma commit_account_base [simp]: "mu_base (commit_account env mu addr account) = mu_base mu"
  by (simp add: commit_account_def mu_remove_account_def remove_account_storage_def
      insert_account_storage_def insert_info_with_root_def Let_def)

lemma mu_view_commit_account:
  "mu_view (commit_account env mu addr account) x =
     (if x = addr then commit_effect env (mu_base mu addr) (mu_view mu addr) account else mu_view mu x)"
  by (simp add: commit_account_def mu_view_def commit_effect_def mu_remove_account_def
      remove_account_storage_def insert_account_storage_def insert_info_with_root_def Let_def
      update_conv' delete_conv')

lemma mu_view_commit:
  "distinct (map fst changes) \<Longrightarrow>
     mu_view (foldl (\<lambda>mu (addr, account). commit_account env mu addr account) mu changes) x =
       (case map_of changes x of
          None \<Rightarrow> mu_view mu x
        | Some account \<Rightarrow> commit_effect env (mu_base mu x) (mu_view mu x) account)"
proof (induction changes arbitrary: mu)
  case Nil
  then show ?case by simp
next
  case (Cons p changes)
  obtain addr account where p: "p = (addr, account)" by (cases p)
  have "map_of changes addr = None" using Cons.prems by (simp add: p map_of_eq_None_iff)
  with Cons show ?case
    by (cases "x = addr") (simp_all add: p mu_view_commit_account split: option.split del: map_of_eq_Some_iff)
qed

lemma tries_commit_view:
  assumes "distinct (map fst changes)"
  shows "(tries_account (tries_commit env t changes) x, map_of (pt_storage_tries (tries_commit env t changes)) x) =
    (case map_of changes x of
       None \<Rightarrow> (tries_account t x, map_of (pt_storage_tries t) x)
     | Some account \<Rightarrow>
         commit_effect env (tries_account t x) (tries_account t x, map_of (pt_storage_tries t) x) account)"
  using mu_view_commit [OF assms, of env "mutate t" x]
  by (cases "map_of changes x")
    (simp_all add: tries_commit_def mu_view_def drop_mutation_def mutate_def tries_account_def)

text \<open>What the source means a commit to do to an account and to its slots.\<close>

definition committed_info :: "state_env \<Rightarrow> account \<Rightarrow> account_info option" where
  "committed_info env account =
     (if (se_is_empty env (ac_info account) \<and> Created \<notin> ac_status account) \<or> SelfDestructed \<in> ac_status account
      then None else Some ((ac_info account)\<lparr>ai_code := None\<rparr>))"

definition committed_slot :: "state_env \<Rightarrow> account \<Rightarrow> u256 \<Rightarrow> u256 \<Rightarrow> u256" where
  "committed_slot env account index old =
     (if committed_info env account = None then 0
      else case map_of (ac_storage account) index of
             Some slot \<Rightarrow> sl_present_value slot
           | None \<Rightarrow> if Created \<in> ac_status account then 0 else old)"

lemma info_of_basic_of_info [simp]: "info_of_basic (basic_of_info info root) = info\<lparr>ai_code := None\<rparr>"
  by (simp add: info_of_basic_def basic_of_info_def)

lemma commit_basic:
  assumes "diff_ok changes" and ok: "tries_ok env (sx_tries s)"
  shows "state_basic (state_commit env s changes) addr =
    (case map_of changes addr of
       Some account \<Rightarrow> if Touched \<in> ac_status account then committed_info env account else state_basic s addr
     | None \<Rightarrow> state_basic s addr)"
proof -
  have "tries_account (tries_commit env (sx_tries s) changes) addr =
    fst (case map_of changes addr of
       None \<Rightarrow> (tries_account (sx_tries s) addr, map_of (pt_storage_tries (sx_tries s)) addr)
     | Some account \<Rightarrow> commit_effect env (tries_account (sx_tries s) addr)
         (tries_account (sx_tries s) addr, map_of (pt_storage_tries (sx_tries s)) addr) account)"
    using tries_commit_view [of changes env "sx_tries s" addr] assms(1)
    by (metis diff_ok_def fst_conv)
  then show ?thesis
    by (cases "map_of changes addr")
      (auto simp: state_basic_def commit_effect_def committed_info_def Let_def)
qed

lemma slot_of_trie:
  assumes "diff_ok changes"
  shows "state_storage (state_commit env s changes) addr index =
    (case snd (case map_of changes addr of
       None \<Rightarrow> (tries_account (sx_tries s) addr, map_of (pt_storage_tries (sx_tries s)) addr)
     | Some account \<Rightarrow> commit_effect env (tries_account (sx_tries s) addr)
         (tries_account (sx_tries s) addr, map_of (pt_storage_tries (sx_tries s)) addr) account) of
       None \<Rightarrow> 0
     | Some trie \<Rightarrow> (case st_slots trie index of Some v \<Rightarrow> v | None \<Rightarrow> 0))"
proof -
  have "map_of (pt_storage_tries (tries_commit env (sx_tries s) changes)) addr =
    snd (case map_of changes addr of
       None \<Rightarrow> (tries_account (sx_tries s) addr, map_of (pt_storage_tries (sx_tries s)) addr)
     | Some account \<Rightarrow> commit_effect env (tries_account (sx_tries s) addr)
         (tries_account (sx_tries s) addr, map_of (pt_storage_tries (sx_tries s)) addr) account)"
    using tries_commit_view [of changes env "sx_tries s" addr] assms
    by (metis diff_ok_def snd_conv)
  then show ?thesis
    by (simp add: state_storage_def tries_account_storage_slot_def bind_split split: option.split)
qed

lemma commit_storage:
  assumes changes: "diff_ok changes" and ok: "tries_ok env (sx_tries s)"
  shows "state_storage (state_commit env s changes) addr index =
    (case map_of changes addr of
       Some account \<Rightarrow>
         if Touched \<in> ac_status account then committed_slot env account index (state_storage s addr index)
         else state_storage s addr index
     | None \<Rightarrow> state_storage s addr index)"
proof (cases "map_of changes addr")
  case None
  then show ?thesis
    using slot_of_trie [OF changes, of env s addr index]
    by (simp add: state_storage_def tries_account_storage_slot_def bind_split split: option.split)
next
  case (Some account)
  have view: "account_view_ok env (tries_account (sx_tries s) addr) (map_of (pt_storage_tries (sx_tries s)) addr)"
    using ok by (simp add: tries_ok_def)
  have storage: "state_storage s addr index =
      (case map_of (pt_storage_tries (sx_tries s)) addr of
         None \<Rightarrow> 0 | Some trie \<Rightarrow> (case st_slots trie index of Some v \<Rightarrow> v | None \<Rightarrow> 0))"
    by (simp add: state_storage_def tries_account_storage_slot_def bind_split split: option.split)
  show ?thesis
    unfolding slot_of_trie [OF changes] storage Some option.case
    using view diff_ok_lookup [OF changes Some]
    by (auto simp: commit_effect_def committed_slot_def committed_info_def Let_def account_view_ok_def
        set_storage_slots_lookup storage_trie_of_def storage_trie_default_def
        split: option.split simp del: map_of_eq_Some_iff)
qed

text \<open>C3. Reading a state after a commit: an address that is not among the changes, or not touched,
  is as before; a touched account that is self-destructed, or that is empty and was not created by the
  change, is gone with its storage; otherwise, and so also for a created account that is empty, its info is the committed one, a slot that the change contains has the committed value,
  and any other slot keeps its value, or is zero if the account was created.\<close>

theorem state_commit_reads:
  assumes "state_reachable env s" and "diff_ok changes"
  shows "state_basic (state_commit env s changes) addr =
      (case map_of changes addr of
         Some account \<Rightarrow> if Touched \<in> ac_status account then committed_info env account else state_basic s addr
       | None \<Rightarrow> state_basic s addr)
    \<and> state_storage (state_commit env s changes) addr index =
      (case map_of changes addr of
         Some account \<Rightarrow>
           if Touched \<in> ac_status account then committed_slot env account index (state_storage s addr index)
           else state_storage s addr index
       | None \<Rightarrow> state_storage s addr index)"
  using assms commit_basic commit_storage state_reachable_tries_ok by blast

theorem state_commit_reads_witness:
  "state_basic (state_commit sample_state_env (state_default sample_state_env)
     (apply_account_change [] 1 (sample_info 5))) 1 = Some (sample_info 5)"
  using state_commit_reads [OF state_reachable.default diff_ok_account_change [OF diff_ok_Nil],
      where env = sample_state_env and addr = 1, of 1 "sample_info 5"]
  by (simp add: apply_account_change_def account_from_def committed_info_def sample_state_env_def sample_info_def)

lemma set_slot_storage:
  "state_storage (snd (set_account_storage_slot_or_else env s addr index v dflt)) addr j =
     (if j = index then v else state_storage s addr j)"
  unfolding set_account_storage_slot_or_else_def tries_set_account_storage_slot_def insert_storage_slot_def
    Let_def prod.case_eq_if
  by (auto simp: state_storage_def tries_account_storage_slot_def drop_mutation_def mutate_def
      insert_info_with_root_def update_conv' storage_trie_of_def set_storage_slot_snd storage_trie_default_def
      split: option.split sum.split simp del: map_of_eq_Some_iff)

text \<open>C39. Setting one storage slot of a state keeps the other slots of the account. The same change
  recorded with \<open>apply_storage_change\<close> in a diff that does not contain the account marks the
  account as created, so that committing the diff to the same state erases its other slots: the
  state that is recomputed from the recorded change is not the state that was changed.\<close>

theorem storage_override_erases_other_slots:
  assumes "state_reachable env s" and "j \<noteq> index"
  shows "state_storage (snd (state_set_account_storage_slot env s addr index v)) addr j = state_storage s addr j
    \<and> state_storage (state_commit env s
        (apply_storage_change [] addr index \<lparr>sl_original_value = w, sl_present_value = v\<rparr> info)) addr j = 0"
  using commit_storage [OF diff_ok_storage_change [OF diff_ok_Nil] state_reachable_tries_ok [OF assms(1)],
      of addr index "\<lparr>sl_original_value = w, sl_present_value = v\<rparr>" info addr j] assms(2)
  by (simp add: apply_storage_change_def account_from_def committed_slot_def committed_info_def
      state_set_account_storage_slot_def set_slot_storage)

definition slot_state :: state_trie where
  "slot_state = snd (state_set_account_storage_slot sample_state_env (state_default sample_state_env) 1 7 42
     :: (unit state_error + u256) \<times> state_trie)"

lemma slot_state_reachable: "state_reachable sample_state_env slot_state"
proof (rule state_reachable.step [OF state_reachable.default])
  have "\<exists>old. set_account_storage_slot_or_else sample_state_env (state_default sample_state_env) 1 7 42
      (Inr (default_account_info\<lparr>ai_code := None\<rparr>) :: unit state_error + account_info) = (Inr old, slot_state)"
    by (simp add: slot_state_def state_set_account_storage_slot_def set_account_storage_slot_or_else_def
        tries_set_account_storage_slot_def insert_storage_slot_def state_default_def tries_default_def
        mutate_def Let_def prod.case_eq_if)
  then show "state_step sample_state_env (state_default sample_state_env) slot_state"
    by (auto intro: state_step.set_slot)
qed

lemma slot_state_slot: "state_storage slot_state 1 7 = 42"
  by (simp add: slot_state_def state_set_account_storage_slot_def set_slot_storage)

theorem storage_override_erases_other_slots_witness:
  "state_storage slot_state 1 7 = 42
   \<and> state_storage (snd (state_set_account_storage_slot sample_state_env slot_state 1 8 43
        :: (unit state_error + u256) \<times> state_trie)) 1 7 = 42
   \<and> state_storage (state_commit sample_state_env slot_state
       (apply_storage_change [] 1 8 \<lparr>sl_original_value = 0, sl_present_value = 43\<rparr> None)) 1 7 = 0"
  by (simp add: storage_override_erases_other_slots [OF slot_state_reachable] slot_state_slot)

text \<open>When the caller cannot supply the account whose slot is set, the error is returned after
  the storage trie of the account has been stored; serializing the state then panics.\<close>

theorem failed_slot_write_breaks_serialize:
  assumes "tries_account (sx_tries s) addr = None"
  shows "\<exists>s'. set_account_storage_slot_or_else env s addr index v (Inl e) = (Inl e, s')
    \<and> tries_account (sx_tries s') addr = None \<and> tries_serialize (sx_tries s') = Panic"
proof -
  obtain s' where s': "set_account_storage_slot_or_else env s addr index v (Inl e) = (Inl e, s')"
    and acc: "tries_account (sx_tries s') addr = None"
    and st: "map_of (pt_storage_tries (sx_tries s')) addr \<noteq> None"
    using assms by (simp add: set_account_storage_slot_or_else_def tries_set_account_storage_slot_def
        insert_storage_slot_def mutate_def tries_account_def drop_mutation_def Let_def prod.case_eq_if update_conv')
  from st obtain trie where "(addr, trie) \<in> set (pt_storage_tries (sx_tries s'))"
    by (auto dest: map_of_SomeD)
  with acc have "tries_serialize (sx_tries s') = Panic"
    by (auto simp: tries_serialize_def)
  with s' acc show ?thesis by blast
qed

theorem failed_slot_write_breaks_serialize_witness:
  "\<exists>s'. set_account_storage_slot_or_else sample_state_env (state_default sample_state_env) 1 7 42
        (Inl (CannotRevert :: unit state_error)) = (Inl CannotRevert, s')
     \<and> tries_account (sx_tries s') 1 = None \<and> tries_serialize (sx_tries s') = Panic"
  by (rule failed_slot_write_breaks_serialize)
    (simp add: state_default_def tries_default_def tries_account_def)

end
