(* ===== verification/State_Code.thy ===== *)
theory State_Code
  imports State_Trie_Facts
begin

text \<open>
  The contract code of the persistent state is shared between accounts and reference-counted. This
  theory relates the counts to the accounts, and shows which commits keep them right.
\<close>

section \<open>Counting\<close>

definition code_count :: "('k, 'v) shared_map \<Rightarrow> 'k \<Rightarrow> nat" where
  "code_count m k = (case m k of Some (_, n) \<Rightarrow> n | None \<Rightarrow> 0)"

definition shared_ok :: "('k, 'v) shared_map \<Rightarrow> bool" where
  "shared_ok m \<longleftrightarrow> (\<forall>k v. m k \<noteq> Some (v, 0))"

lemma code_count_insert:
  "code_count (shared_insert m k v) h = code_count m h + (if h = k then 1 else 0)"
  by (auto simp: code_count_def shared_insert_def split: option.split)

lemma code_count_remove:
  "code_count (shared_remove m k) h = code_count m h - (if h = k then 1 else 0)"
  by (auto simp: code_count_def shared_remove_def split: option.split)

lemma shared_ok_insert: "shared_ok m \<Longrightarrow> shared_ok (shared_insert m k v)"
  by (auto simp: shared_ok_def shared_insert_def split: option.split)

lemma shared_ok_remove: "shared_ok m \<Longrightarrow> shared_ok (shared_remove m k)"
  by (auto simp: shared_ok_def shared_remove_def split: option.split)

lemma shared_get_iff:
  assumes "shared_ok m"
  shows "shared_get m k = None \<longleftrightarrow> code_count m k = 0"
proof (cases "m k")
  case None
  then show ?thesis by (simp add: shared_get_def code_count_def)
next
  case (Some p)
  obtain v n where p: "p = (v, n)" by (cases p)
  have "n \<noteq> 0" using Some p assms by (cases n) (auto simp: shared_ok_def)
  then show ?thesis by (simp add: shared_get_def code_count_def Some p)
qed

lemma code_insert_code [simp]:
  "code_count (sx_contracts (insert_code s k c)) h = code_count (sx_contracts s) h + (if h = k then 1 else 0)"
  by (simp add: insert_code_def code_count_insert)

lemma code_remove_code:
  "h \<noteq> KECCAK_EMPTY \<Longrightarrow>
     code_count (sx_contracts (remove_code s k)) h = code_count (sx_contracts s) h - (if h = k then 1 else 0)"
  by (auto simp: remove_code_def code_count_remove)

text \<open>The number of accounts with a given code.\<close>

definition code_hash_of :: "basic_account option \<Rightarrow> b256" where
  "code_hash_of a = (case a of Some b \<Rightarrow> ba_code_hash b | None \<Rightarrow> KECCAK_EMPTY)"

definition code_refs :: "(address \<rightharpoonup> basic_account) \<Rightarrow> b256 \<Rightarrow> nat" where
  "code_refs f h = card {addr. code_hash_of (f addr) = h}"

lemma finite_code_refs: "finite (dom f) \<Longrightarrow> h \<noteq> KECCAK_EMPTY \<Longrightarrow> finite {addr. code_hash_of (f addr) = h}"
  by (rule finite_subset [of _ "dom f"]) (auto simp: code_hash_of_def split: option.splits)

lemma code_refs_update:
  assumes "finite (dom f)" and "h \<noteq> KECCAK_EMPTY"
  shows "code_refs (f(a := v)) h =
    code_refs f h - (if code_hash_of (f a) = h then 1 else 0) + (if code_hash_of v = h then 1 else 0)"
proof -
  let ?A = "{addr. code_hash_of (f addr) = h}"
  note fin = finite_code_refs [OF assms]
  have "{addr. code_hash_of ((f(a := v)) addr) = h} = (if code_hash_of v = h then insert a (?A - {a}) else ?A - {a})"
    by auto
  moreover have "code_hash_of (f a) = h \<Longrightarrow> 0 < card ?A" using fin by (auto simp: card_gt_0_iff)
  moreover have "card (?A - {a}) = card ?A - (if code_hash_of (f a) = h then 1 else 0)"
    by (simp add: card_Diff_singleton_if)
  ultimately show ?thesis
    using fin by (cases "code_hash_of (f a) = h"; cases "code_hash_of v = h")
      (simp_all add: code_refs_def insert_absorb)
qed

definition code_inv :: "(b256, bytecode) shared_map \<Rightarrow> (address \<rightharpoonup> basic_account) \<Rightarrow> bool" where
  "code_inv m f \<longleftrightarrow>
     shared_ok m \<and> finite (dom f) \<and> (\<forall>h. h \<noteq> KECCAK_EMPTY \<longrightarrow> code_count m h = code_refs f h)"

lemma code_inv_available:
  assumes inv: "code_inv m f" and f: "f addr = Some b" and ne: "ba_code_hash b \<noteq> KECCAK_EMPTY"
  shows "shared_get m (ba_code_hash b) \<noteq> None"
proof -
  have "addr \<in> {a. code_hash_of (f a) = ba_code_hash b}" by (simp add: f code_hash_of_def)
  moreover have "finite {a. code_hash_of (f a) = ba_code_hash b}"
    using inv ne by (intro finite_code_refs) (simp_all add: code_inv_def)
  ultimately have "code_refs f (ba_code_hash b) \<noteq> 0" unfolding code_refs_def by (metis card_0_eq emptyE)
  with inv ne show ?thesis by (simp add: code_inv_def shared_get_iff)
qed

section \<open>Commits that keep the counts\<close>

text \<open>
  What a change must satisfy, given the hash of the code that the account has before it: an
  account that is self-destructed had the code it is committed with, an empty account had none,
  and new code comes with its bytes and a touched account.
\<close>

definition code_change_ok :: "state_env \<Rightarrow> b256 \<Rightarrow> account \<Rightarrow> bool" where
  "code_change_ok env old account =
     (let h = ai_code_hash (ac_info account); status = ac_status account
      in if SelfDestructed \<in> status then Touched \<in> status \<and> h = old
         else if se_is_empty env (ac_info account) \<and> Created \<notin> status
         then old = KECCAK_EMPTY \<or> Touched \<notin> status
         else (Touched \<in> status \<or> h = old) \<and> (h = old \<or> h = KECCAK_EMPTY \<or> ai_code (ac_info account) \<noteq> None))"

lemma code_hash_of_simps [simp]:
  "code_hash_of None = KECCAK_EMPTY"
  "code_hash_of (Some b) = ba_code_hash b"
  by (simp_all add: code_hash_of_def)

lemma ba_code_hash_basic_of_info [simp]: "ba_code_hash (basic_of_info info root) = ai_code_hash info"
  by (simp add: basic_of_info_def)

lemma shared_ok_commit_code:
  "shared_ok (sx_contracts s) \<Longrightarrow> shared_ok (sx_contracts (commit_code env t s addr account))"
  by (simp add: commit_code_def Let_def remove_code_def insert_code_def shared_ok_insert shared_ok_remove
      split: option.split)

lemma commit_code_count:
  assumes ok: "code_change_ok env (code_hash_of (tries_account t addr)) account" and h: "h \<noteq> KECCAK_EMPTY"
  shows "code_count (sx_contracts (commit_code env t s addr account)) h =
    code_count (sx_contracts s) h
      + (if code_hash_of (fst (commit_effect env (tries_account t addr) (tries_account t addr, trie) account)) = h
         then 1 else 0)
      - (if code_hash_of (tries_account t addr) = h then 1 else 0)"
proof -
  have old: "(case tries_account t addr of Some a \<Rightarrow> ba_code_hash a | None \<Rightarrow> KECCAK_EMPTY)
      = code_hash_of (tries_account t addr)"
    by (simp add: code_hash_of_def)
  let ?h = "ai_code_hash (ac_info account)" and ?b = "tries_account t addr"
  consider (destroyed) "SelfDestructed \<in> ac_status account"
    | (empty) "SelfDestructed \<notin> ac_status account" "se_is_empty env (ac_info account)" "Created \<notin> ac_status account"
    | (changed) "SelfDestructed \<notin> ac_status account" "\<not> (se_is_empty env (ac_info account) \<and> Created \<notin> ac_status account)"
    by blast
  then show ?thesis
  proof cases
    case destroyed
    with ok have "Touched \<in> ac_status account" "?h = code_hash_of ?b" by (simp_all add: code_change_ok_def Let_def)
    with destroyed h show ?thesis
      by (cases ?b) (simp_all add: commit_code_def commit_effect_def code_remove_code)
  next
    case empty
    with ok have "code_hash_of ?b = KECCAK_EMPTY \<or> Touched \<notin> ac_status account"
      by (simp add: code_change_ok_def Let_def)
    with empty h show ?thesis
      by (cases ?b) (auto simp: commit_code_def commit_effect_def)
  next
    case changed
    with ok have ok': "Touched \<in> ac_status account \<or> ?h = code_hash_of ?b"
      "?h = code_hash_of ?b \<or> ?h = KECCAK_EMPTY \<or> ai_code (ac_info account) \<noteq> None"
      by (auto simp: code_change_ok_def Let_def)
    have new: "code_hash_of (fst (commit_effect env ?b (?b, trie) account)) = ?h"
      using changed ok'(1) by (auto simp: commit_effect_def Let_def)
    have "commit_code env t s addr account =
        (if code_hash_of ?b \<noteq> ?h
         then remove_code (case ai_code (ac_info account) of Some c \<Rightarrow> insert_code s ?h c | None \<Rightarrow> s) (code_hash_of ?b)
         else s)"
      unfolding commit_code_def old Let_def by (simp only: changed if_False)
    with ok'(2) h show ?thesis
      unfolding new
      by (cases "ai_code (ac_info account)"; cases "?h = code_hash_of ?b") (auto simp: code_remove_code)
  qed
qed

lemma mu_query_commit_account:
  "mu_query (commit_account env mu addr account) =
     (mu_query mu)(addr := fst (commit_effect env (mu_base mu addr) (mu_view mu addr) account))"
proof (rule ext)
  fix x
  from arg_cong [OF mu_view_commit_account [of env mu addr account x], of fst]
  show "mu_query (commit_account env mu addr account) x =
     ((mu_query mu)(addr := fst (commit_effect env (mu_base mu addr) (mu_view mu addr) account))) x"
    by (simp add: mu_view_def)
qed

lemma code_inv_commit_fold:
  assumes "code_inv (sx_contracts s) (mu_query mu)" and "mu_base mu = tries_account t"
    and "distinct (map fst changes)" and "\<forall>(addr, _) \<in> set changes. mu_query mu addr = tries_account t addr"
    and "\<forall>(addr, account) \<in> set changes. code_change_ok env (code_hash_of (tries_account t addr)) account"
  shows "code_inv (sx_contracts (foldl (\<lambda>s (addr, account). commit_code env t s addr account) s changes))
    (mu_query (foldl (\<lambda>mu (addr, account). commit_account env mu addr account) mu changes))"
  using assms
proof (induction changes arbitrary: s mu)
  case Nil
  then show ?case by simp
next
  case (Cons p changes)
  obtain addr account where p: "p = (addr, account)" by (cases p)
  let ?s = "commit_code env t s addr account" and ?mu = "commit_account env mu addr account"
  have fin: "finite (dom (mu_query mu))" and shared: "shared_ok (sx_contracts s)"
    and count: "\<And>h. h \<noteq> KECCAK_EMPTY \<Longrightarrow> code_count (sx_contracts s) h = code_refs (mu_query mu) h"
    using Cons.prems(1) by (auto simp: code_inv_def)
  have q: "mu_query mu addr = tries_account t addr" using Cons.prems(4) by (simp add: p)
  have ok: "code_change_ok env (code_hash_of (tries_account t addr)) account" using Cons.prems(5) by (simp add: p)
  have view: "mu_view mu addr = (tries_account t addr, map_of (mu_storage_tries mu) addr)"
    by (simp add: mu_view_def q)
  have "code_count (sx_contracts ?s) h = code_refs (mu_query ?mu) h" if h: "h \<noteq> KECCAK_EMPTY" for h
  proof -
    have pos: "0 < code_refs (mu_query mu) h" if "code_hash_of (tries_account t addr) = h"
    proof -
      have "addr \<in> {a. code_hash_of (mu_query mu a) = h}" using that by (simp add: q)
      then show ?thesis
        unfolding code_refs_def card_gt_0_iff using finite_code_refs [OF fin h] by blast
    qed
    have "code_refs (mu_query ?mu) h = code_refs (mu_query mu) h
        - (if code_hash_of (tries_account t addr) = h then 1 else 0)
        + (if code_hash_of (fst (commit_effect env (tries_account t addr)
             (tries_account t addr, map_of (mu_storage_tries mu) addr) account)) = h then 1 else 0)"
      unfolding mu_query_commit_account code_refs_update [OF fin h] q Cons.prems(2) view ..
    with commit_code_count [OF ok h, of s "map_of (mu_storage_tries mu) addr"] pos show ?thesis
      unfolding count [OF h] by (cases "code_hash_of (tries_account t addr) = h") simp_all
  qed
  then have inv: "code_inv (sx_contracts ?s) (mu_query ?mu)"
    using fin shared_ok_commit_code [OF shared]
    by (auto simp: code_inv_def mu_query_commit_account)
  have "code_inv (sx_contracts (foldl (\<lambda>s (addr, account). commit_code env t s addr account) ?s changes))
    (mu_query (foldl (\<lambda>mu (addr, account). commit_account env mu addr account) ?mu changes))"
  proof (rule Cons.IH [OF inv])
    show "\<forall>(a, _) \<in> set changes. mu_query ?mu a = tries_account t a"
      using Cons.prems(3,4) by (force simp: p mu_query_commit_account)
  qed (use Cons.prems in \<open>auto simp: p\<close>)
  then show ?case by (simp add: p)
qed

definition state_code_inv :: "state_trie \<Rightarrow> bool" where
  "state_code_inv s \<longleftrightarrow> code_inv (sx_contracts s) (tries_account (sx_tries s))"

lemma state_code_inv_commit:
  assumes "state_code_inv s" and "diff_ok changes"
    and "\<forall>(addr, account) \<in> set changes.
           code_change_ok env (code_hash_of (tries_account (sx_tries s) addr)) account"
  shows "state_code_inv (state_commit env s changes)"
proof -
  let ?t = "sx_tries s"
  have base: "mu_base (mutate ?t) = tries_account ?t" "mu_query (mutate ?t) = tries_account ?t"
    by (simp_all add: mutate_def tries_account_def fun_eq_iff)
  have "code_inv (sx_contracts (foldl (\<lambda>s (addr, account). commit_code env ?t s addr account) s changes))
    (mu_query (foldl (\<lambda>mu (addr, account). commit_account env mu addr account) (mutate ?t) changes))"
    by (rule code_inv_commit_fold) (use assms base in \<open>simp_all add: state_code_inv_def diff_ok_def\<close>)
  moreover have "tries_account (tries_commit env ?t changes) =
      mu_query (foldl (\<lambda>mu (addr, account). commit_account env mu addr account) (mutate ?t) changes)"
    by (simp add: tries_commit_def drop_mutation_def tries_account_def fun_eq_iff)
  ultimately show ?thesis
    unfolding state_code_inv_def sx_tries_commit by (simp add: state_commit_def Let_def)
qed

lemma state_code_inv_default: "state_code_inv (state_default env)"
  by (auto simp: state_code_inv_def code_inv_def state_default_def shared_insert_def shared_ok_def
      code_count_def code_refs_def tries_default_def tries_account_def)

text \<open>C30. A commit keeps the reference counts of contract code exact, and so keeps the code of every
  account available, if its changes are consistent with the accounts they change: an account that
  is self-destructed is committed with the code it had, an empty account had no code, and new code
  comes with its bytes.\<close>

theorem commit_keeps_code:
  assumes "state_code_inv s" and "diff_ok changes"
    and "\<forall>(addr, account) \<in> set changes.
           code_change_ok env (code_hash_of (tries_account (sx_tries s) addr)) account"
    and "state_basic (state_commit env s changes) addr = Some info" and "ai_code_hash info \<noteq> KECCAK_EMPTY"
  shows "state_code_inv (state_commit env s changes)
    \<and> (\<exists>code. state_code_by_hash (state_commit env s changes) (ai_code_hash info) = (Inr code :: unit state_error + bytecode))"
proof -
  have inv: "state_code_inv (state_commit env s changes)" by (rule state_code_inv_commit [OF assms(1-3)])
  from assms(4) obtain b where b: "tries_account (sx_tries (state_commit env s changes)) addr = Some b"
    and info: "info = info_of_basic b"
    by (auto simp: state_basic_def)
  have "shared_get (sx_contracts (state_commit env s changes)) (ba_code_hash b) \<noteq> None"
    using inv assms(5) b
    by (intro code_inv_available [where addr = addr and f = "tries_account (sx_tries (state_commit env s changes))"])
      (simp_all add: state_code_inv_def info info_of_basic_def)
  with inv show ?thesis
    by (auto simp: state_code_by_hash_def info info_of_basic_def)
qed

definition contract_info :: "b256 \<Rightarrow> bytecode \<Rightarrow> account_info" where
  "contract_info h code = \<lparr>ai_balance = 0, ai_nonce = 1, ai_code_hash = h, ai_code = Some code\<rparr>"

definition deployment :: "address \<Rightarrow> status_flag set \<Rightarrow> evm_state" where
  "deployment addr status =
     [(addr, \<lparr>ac_info = contract_info 99 [0x60, 0x00], ac_storage = [], ac_status = status\<rparr>)]"

definition deployed_state :: state_trie where
  "deployed_state = state_commit sample_state_env (state_default sample_state_env) (deployment 1 {Created, Touched})"

lemma deployed_basic: "state_basic deployed_state 1 = Some ((contract_info 99 [0x60, 0x00])\<lparr>ai_code := None\<rparr>)"
  unfolding deployed_state_def
  by (subst commit_basic)
    (simp_all add: deployment_def committed_info_def contract_info_def sample_state_env_def state_default_def
      tries_ok_default [of sample_state_env, unfolded sample_state_env_def])

theorem commit_keeps_code_witness:
  "\<exists>code. state_code_by_hash deployed_state 99 = (Inr code :: unit state_error + bytecode)"
  using commit_keeps_code [OF state_code_inv_default, of "deployment 1 {Created, Touched}" sample_state_env
      sample_state_env 1 "(contract_info 99 [0x60, 0x00])\<lparr>ai_code := None\<rparr>"] deployed_basic
  by (simp add: deployed_state_def deployment_def contract_info_def code_change_ok_def KECCAK_EMPTY_def
      state_default_def tries_default_def tries_account_def)

text \<open>C40. A contract is created and self-destructed in one commit, at an address without an account, and
  its code is that of an existing account. The commit removes a reference to the code that it never
  added: no account changes, but the count of the code is one less than the number of accounts that
  have it. If only one account has it, the code of that account can no longer be read.\<close>

theorem created_and_destroyed_contract_drops_shared_code:
  assumes "state_code_inv s" and "state_reachable env s"
    and "state_basic s a = Some info" and "ai_code_hash info \<noteq> KECCAK_EMPTY"
    and "state_basic s b = None"
    and "{Created, Touched, SelfDestructed} \<subseteq> ac_status account" and "ai_code_hash (ac_info account) = ai_code_hash info"
    and "diff_ok [(b, account)]"
  shows "(\<exists>code. state_code_by_hash s (ai_code_hash info) = (Inr code :: 'r state_error + bytecode))
    \<and> state_basic (state_commit env s [(b, account)]) = state_basic s
    \<and> code_count (sx_contracts (state_commit env s [(b, account)])) (ai_code_hash info) + 1 =
        code_refs (tries_account (sx_tries s)) (ai_code_hash info)
    \<and> ((\<forall>c info'. state_basic s c = Some info' \<and> ai_code_hash info' = ai_code_hash info \<longrightarrow> c = a) \<longrightarrow>
        state_code_by_hash (state_commit env s [(b, account)]) (ai_code_hash info) =
          (Inl (InvalidCodeHash (ai_code_hash info)) :: 'r state_error + bytecode))"
proof -
  let ?h = "ai_code_hash info" and ?f = "tries_account (sx_tries s)" and ?s = "state_commit env s [(b, account)]"
  from assms(1) have inv: "code_inv (sx_contracts s) ?f" by (simp add: state_code_inv_def)
  from assms(3) obtain acc where acc: "?f a = Some acc" "ba_code_hash acc = ?h"
    by (auto simp: state_basic_def info_of_basic_def)
  have get: "shared_get (sx_contracts s) ?h \<noteq> None"
    using code_inv_available [OF inv acc(1)] acc(2) assms(4) by simp
  have contracts: "sx_contracts ?s = shared_remove (sx_contracts s) ?h"
    using assms(4,6,7) by (simp add: state_commit_def commit_code_def remove_code_def Let_def)
  have count: "code_count (sx_contracts s) ?h = code_refs ?f ?h" "shared_ok (sx_contracts ?s)"
    using inv assms(4) by (simp_all add: code_inv_def contracts shared_ok_remove)
  have pos: "code_refs ?f ?h \<noteq> 0"
    using get inv count(1) shared_get_iff [of "sx_contracts s" ?h] by (auto simp: code_inv_def)
  have "state_basic ?s c = state_basic s c" for c
    using assms(5,6) by (subst commit_basic [OF assms(8) state_reachable_tries_ok [OF assms(2)]])
      (auto simp: committed_info_def)
  moreover have "code_count (sx_contracts ?s) ?h + 1 = code_refs ?f ?h"
    using pos count(1) by (simp add: contracts code_count_remove)
  moreover have "shared_get (sx_contracts ?s) ?h = None"
    if "\<forall>c info'. state_basic s c = Some info' \<and> ai_code_hash info' = ?h \<longrightarrow> c = a"
  proof -
    have "{c. code_hash_of (?f c) = ?h} = {a}"
      using that acc assms(4) by (force simp: code_hash_of_def state_basic_def info_of_basic_def split: option.splits)
    then show ?thesis using count by (simp add: shared_get_iff contracts code_count_remove code_refs_def)
  qed
  ultimately show ?thesis using get by (auto simp: state_code_by_hash_def)
qed

theorem created_and_destroyed_contract_drops_shared_code_witness:
  "state_code_by_hash (state_commit sample_state_env deployed_state (deployment 2 {Created, Touched, SelfDestructed})) 99 =
     (Inl (InvalidCodeHash 99) :: unit state_error + bytecode)"
proof -
  have inv: "state_code_inv deployed_state"
    unfolding deployed_state_def
    by (rule state_code_inv_commit [OF state_code_inv_default])
      (simp_all add: deployment_def contract_info_def code_change_ok_def KECCAK_EMPTY_def state_default_def
        tries_default_def tries_account_def)
  have reach: "state_reachable sample_state_env deployed_state"
    unfolding deployed_state_def by (rule state_reachable.step [OF state_reachable.default state_step.commit])
  have none: "state_basic deployed_state c = None" if "c \<noteq> 1" for c
    using that unfolding deployed_state_def
    by (subst commit_basic [OF _ state_reachable_tries_ok [OF state_reachable.default]])
      (simp_all add: deployment_def state_default_def state_basic_def tries_default_def tries_account_def)
  have only: "state_basic deployed_state c = Some info' \<Longrightarrow> c = 1" for c info'
    using none [of c] by auto
  from created_and_destroyed_contract_drops_shared_code [OF inv reach deployed_basic _ none [of 2],
      of "snd (hd (deployment 2 {Created, Touched, SelfDestructed}))"] only
  show ?thesis by (auto simp: deployment_def contract_info_def KECCAK_EMPTY_def diff_ok_def)
qed

end
