(* ===== verification/Receipts.thy ===== *)
theory Receipts
  imports Transactions Header_Types
begin

text \<open>
  Logs and receipts (\<^verbatim>\<open>crates/edr_receipt\<close>, \<^verbatim>\<open>crates/edr_chain_l1/src/receipt.rs\<close> and
  \<^verbatim>\<open>receipt/builder.rs\<close>): the log filter of \<^verbatim>\<open>eth_getLogs\<close>, the receipt of an executed transaction,
  and its place in a block. The result of an execution is the part of revm's
  \<open>ExecutionResult\<close> the code reads; setting the bits of a bloom filter is a parameter.
\<close>

section \<open>Logs\<close>

record execution_log =
  el_address :: address
  el_topics :: "b256 list"
  el_data :: "byte list"

record filter_log =
  fl_log :: execution_log
  fl_transaction_hash :: b256
  fl_block_hash :: b256
  fl_block_number :: u64
  fl_log_index :: u64
  fl_transaction_index :: u64
  fl_removed :: bool

definition matches_address_filter :: "address \<Rightarrow> address list \<Rightarrow> bool" where
  "matches_address_filter log_address address_filter \<longleftrightarrow>
     address_filter = [] \<or> log_address \<in> set address_filter"

definition matches_topics_filter :: "b256 list \<Rightarrow> b256 list option list \<Rightarrow> bool" where
  "matches_topics_filter log_topics topics_filter \<longleftrightarrow>
     (if length log_topics < length topics_filter then False
      else list_all
             (\<lambda>(normalized_topics, log_topic).
                case normalized_topics of None \<Rightarrow> True | Some ts \<Rightarrow> log_topic \<in> set ts)
             (zip topics_filter log_topics))"

text \<open>The two kinds of byte strings hashed into a bloom filter.\<close>

datatype bloom_input = RawAddress address | RawTopic b256

definition add_log_to_bloom :: "(bloom_input \<Rightarrow> bloom \<Rightarrow> bloom) \<Rightarrow> execution_log \<Rightarrow> bloom \<Rightarrow> bloom" where
  "add_log_to_bloom accrue log bloom =
     fold (\<lambda>topic b. accrue (RawTopic topic) b) (el_topics log) (accrue (RawAddress (el_address log)) bloom)"

definition logs_to_bloom :: "(bloom_input \<Rightarrow> bloom \<Rightarrow> bloom) \<Rightarrow> execution_log list \<Rightarrow> bloom" where
  "logs_to_bloom accrue logs = fold (add_log_to_bloom accrue) logs 0"

section \<open>Receipts\<close>

record execution_result =
  er_is_success :: bool
  er_logs :: "execution_log list"
  er_tx_gas_used :: u64
  er_total_gas_spent :: u64
  er_floor_gas :: u64
  er_created_address :: "address option"

datatype 'l execution_receipt =
    Legacy (rc_root: b256) (cumulative_gas_used: u64) (rc_bloom: bloom) (rc_logs: "'l list")
  | Eip658 (rc_status: bool) (cumulative_gas_used: u64) (rc_bloom: bloom) (rc_logs: "'l list")

text \<open>\<open>TypedEnvelope\<close>: the receipt with the type of its transaction.\<close>

type_synonym 'l typed_receipt = "8 word \<times> 'l execution_receipt"

definition build_receipt ::
  "(bloom_input \<Rightarrow> bloom \<Rightarrow> bloom) \<Rightarrow> transaction \<Rightarrow> execution_result \<Rightarrow> l1_hardfork \<Rightarrow> u64 \<Rightarrow> b256
     \<Rightarrow> execution_log typed_receipt" where
  "build_receipt accrue tx result hardfork cumulative state_root =
     (let logs = er_logs result;
          logs_bloom = logs_to_bloom accrue logs
      in (tx_type tx,
          if Byzantium \<le> hardfork then Eip658 (er_is_success result) cumulative logs_bloom logs
          else Legacy state_root cumulative logs_bloom logs))"

record 'l transaction_receipt =
  tr_inner :: "'l typed_receipt"
  tr_transaction_hash :: b256
  tr_transaction_index :: u64
  tr_from :: address
  tr_to :: "address option"
  tr_contract_address :: "address option"
  tr_gas_used :: u64
  tr_effective_gas_price :: "u128 option"

definition transaction_receipt_new ::
  "'l typed_receipt \<Rightarrow> transaction \<Rightarrow> execution_result \<Rightarrow> u64 \<Rightarrow> u128 \<Rightarrow> l1_hardfork
     \<Rightarrow> 'l transaction_receipt" where
  "transaction_receipt_new receipt tx result index block_base_fee hardfork =
     \<lparr>tr_inner = receipt,
      tr_transaction_hash = tx_hash tx,
      tr_transaction_index = index,
      tr_from = tx_caller tx,
      tr_to = tx_kind_to tx,
      tr_contract_address = (if er_is_success result then er_created_address result else None),
      tr_gas_used = er_tx_gas_used result,
      tr_effective_gas_price =
        (if LONDON \<le> into_evm_spec hardfork
         then Some (case tx_effective_gas_price tx block_base_fee of
                      Some p \<Rightarrow> p | None \<Rightarrow> tx_gas_price tx)
         else None)\<rparr>"

record block_receipt =
  br_inner :: "filter_log transaction_receipt"
  br_block_hash :: b256
  br_block_number :: u64

definition l1_block_receipt_new ::
  "filter_log transaction_receipt \<Rightarrow> evm_spec_id \<Rightarrow> b256 \<Rightarrow> u64 \<Rightarrow> block_receipt" where
  "l1_block_receipt_new inner evm_hardfork block_hash block_number =
     \<lparr>br_inner = (if evm_hardfork < LONDON then inner\<lparr>tr_effective_gas_price := None\<rparr> else inner),
      br_block_hash = block_hash,
      br_block_number = block_number\<rparr>"

text \<open>The hash a block's receipt is stored under, and its logs.\<close>

definition receipt_hash :: "block_receipt \<Rightarrow> b256" where
  "receipt_hash r = tr_transaction_hash (br_inner r)"

definition transaction_logs :: "block_receipt \<Rightarrow> filter_log list" where
  "transaction_logs r = rc_logs (snd (tr_inner (br_inner r)))"

section \<open>Placing the logs of a block's receipts\<close>

text \<open>
  \<open>map_logs\<close> with the closure that numbers the logs: the counter runs on through the receipts
  of the block.
\<close>

fun number_logs :: "b256 \<Rightarrow> u64 \<Rightarrow> b256 \<Rightarrow> u64 \<Rightarrow> u64 \<Rightarrow> execution_log list \<Rightarrow> filter_log list \<times> u64" where
  "number_logs block_hash block_number thash tx_index log_index [] = ([], log_index)"
| "number_logs block_hash block_number thash tx_index log_index (l # ls) =
     (let (fs, log_index') = number_logs block_hash block_number thash tx_index (log_index + 1) ls
      in (\<lparr>fl_log = l, fl_transaction_hash = thash, fl_block_hash = block_hash,
           fl_block_number = block_number, fl_log_index = log_index,
           fl_transaction_index = tx_index, fl_removed = False\<rparr> # fs, log_index'))"

fun with_logs :: "'l execution_receipt \<Rightarrow> 'm list \<Rightarrow> 'm execution_receipt" where
  "with_logs (Legacy root cum bloom _) logs = Legacy root cum bloom logs"
| "with_logs (Eip658 status cum bloom _) logs = Eip658 status cum bloom logs"

definition map_receipt_logs :: "'l transaction_receipt \<Rightarrow> 'm list \<Rightarrow> 'm transaction_receipt" where
  "map_receipt_logs r logs =
     \<lparr>tr_inner = (fst (tr_inner r), with_logs (snd (tr_inner r)) logs),
      tr_transaction_hash = tr_transaction_hash r,
      tr_transaction_index = tr_transaction_index r,
      tr_from = tr_from r, tr_to = tr_to r,
      tr_contract_address = tr_contract_address r,
      tr_gas_used = tr_gas_used r,
      tr_effective_gas_price = tr_effective_gas_price r\<rparr>"

fun map_transaction_receipt_logs ::
  "b256 \<Rightarrow> u64 \<Rightarrow> u64 \<Rightarrow> u64 \<Rightarrow> execution_log transaction_receipt list \<Rightarrow> filter_log transaction_receipt list" where
  "map_transaction_receipt_logs block_hash block_number tx_index log_index [] = []"
| "map_transaction_receipt_logs block_hash block_number tx_index log_index (r # rs) =
     (let (logs, log_index') =
            number_logs block_hash block_number (tr_transaction_hash r) tx_index log_index
              (rc_logs (snd (tr_inner r)))
      in map_receipt_logs r logs
           # map_transaction_receipt_logs block_hash block_number (tx_index + 1) log_index' rs)"

section \<open>Properties\<close>

text \<open>A log matches a topic filter exactly when it has a topic for every position of the
  filter, and each position is unconstrained or lists the log's topic there.\<close>

theorem matches_topics_filter_iff:
  "matches_topics_filter topics flt \<longleftrightarrow>
     length flt \<le> length topics
     \<and> \<not> (\<exists>i ts. i < length flt \<and> flt ! i = Some ts \<and> topics ! i \<notin> set ts)"
  by (auto simp: matches_topics_filter_def list_all_length split: option.splits)

definition receipt_logs :: "'l transaction_receipt \<Rightarrow> 'l list" where
  "receipt_logs r = rc_logs (snd (tr_inner r))"

definition block_logs :: "'l transaction_receipt list \<Rightarrow> 'l list" where
  "block_logs rs = concat (map receipt_logs rs)"

lemma receipt_logs_map [simp]: "receipt_logs (map_receipt_logs r logs) = logs"
  by (cases "snd (tr_inner r)") (simp_all add: receipt_logs_def map_receipt_logs_def)

lemma map_upt_add: "map f [0..<a + b] = map f [0..<a] @ map (\<lambda>i. f (a + i)) [0..<b]"
  by (rule nth_equalityI) (auto simp: nth_append)

lemma number_logs_spec:
  "number_logs bh bn th ti k ls = (fs, k') \<Longrightarrow>
     map fl_log fs = ls \<and> k' = k + of_nat (length ls)
     \<and> map fl_log_index fs = map (\<lambda>i. k + of_nat i) [0..<length ls]
     \<and> (\<forall>f \<in> set fs. fl_block_hash f = bh \<and> fl_block_number f = bn)"
proof (induction ls arbitrary: k fs k')
  case (Cons l ls)
  obtain fs' k2 where r: "number_logs bh bn th ti (k + 1) ls = (fs', k2)" by fastforce
  have up: "map (\<lambda>i. k + of_nat i) [0..<length (l # ls)] = k # map (\<lambda>i. (k + 1) + of_nat i) [0..<length ls]"
    unfolding list.size(4) add_0_right add_Suc_right map_upt_Suc by (simp add: add.assoc)
  have kk: "k + of_nat (length (l # ls)) = (k + 1) + of_nat (length ls)" by (simp add: add.assoc)
  from Cons.prems r have eq: "k' = k2" "fs = \<lparr>fl_log = l, fl_transaction_hash = th, fl_block_hash = bh,
      fl_block_number = bn, fl_log_index = k, fl_transaction_index = ti, fl_removed = False\<rparr> # fs'" by auto
  from Cons.IH [OF r] have ih: "map fl_log fs' = ls" "k2 = k + 1 + of_nat (length ls)"
    "map fl_log_index fs' = map (\<lambda>i. (k + 1) + of_nat i) [0..<length ls]"
    "\<forall>f \<in> set fs'. fl_block_hash f = bh \<and> fl_block_number f = bn" by blast+
  show ?case unfolding eq up kk ih(2) using ih(1,3,4) by simp
qed simp

lemma map_transaction_receipt_logs_spec:
  "map fl_log (block_logs (map_transaction_receipt_logs bh bn ti k rs)) = block_logs rs
   \<and> map fl_log_index (block_logs (map_transaction_receipt_logs bh bn ti k rs))
       = map (\<lambda>i. k + of_nat i) [0..<length (block_logs rs)]
   \<and> (\<forall>f \<in> set (block_logs (map_transaction_receipt_logs bh bn ti k rs)).
        fl_block_hash f = bh \<and> fl_block_number f = bn)"
proof (induction rs arbitrary: ti k)
  case Nil
  then show ?case by (simp add: block_logs_def)
next
  case (Cons r rs)
  obtain fs k' where n: "number_logs bh bn (tr_transaction_hash r) ti k (receipt_logs r) = (fs, k')"
    by fastforce
  note s = number_logs_spec [OF n]
  have l: "block_logs (map_transaction_receipt_logs bh bn ti k (r # rs)) =
      fs @ block_logs (map_transaction_receipt_logs bh bn (ti + 1) k' rs)"
    using n by (simp add: block_logs_def flip: receipt_logs_def)
  have b: "block_logs (r # rs) = receipt_logs r @ block_logs rs" by (simp add: block_logs_def)
  show ?case
    unfolding l b map_append length_append map_upt_add
    using s Cons.IH [of "ti + 1" k'] by (auto simp: add.assoc)
qed

text \<open>Placing the receipts of a block keeps every log and numbers the logs of the whole
  block consecutively from zero, across its transactions, with the block's hash and number.\<close>

theorem block_logs_numbered:
  "map fl_log (block_logs (map_transaction_receipt_logs bh bn 0 0 rs)) = block_logs rs
   \<and> map fl_log_index (block_logs (map_transaction_receipt_logs bh bn 0 0 rs))
       = map of_nat [0..<length (block_logs rs)]
   \<and> set (map fl_block_hash (block_logs (map_transaction_receipt_logs bh bn 0 0 rs))) \<subseteq> {bh}"
  using map_transaction_receipt_logs_spec [of bh bn 0 0 rs] by auto

end
