(* ===== verification/Block_Header.thy ===== *)
theory Block_Header
  imports Header_Types
begin

text \<open>
  Building block headers (\<^verbatim>\<open>crates/block/header/src/lib.rs\<close>): the header of the next block from
  its parent and the caller's overrides, the EIP-1559 base fee and the EIP-4844 blob fee of
  the next block, and the environment the EVM reads from a header; and the Ethash difficulty
  of blocks before the Merge (\<^verbatim>\<open>crates/edr_chain_l1/src/difficulty.rs\<close>).
\<close>

section \<open>Blob parameters\<close>

definition blob_params_for_hardfork ::
  "('w, 'bp, 'bx) header_env \<Rightarrow> evm_spec_id \<Rightarrow> u64 \<Rightarrow> 'bp scheduled_blob_params option \<Rightarrow> 'bp" where
  "blob_params_for_hardfork env evm_spec_id timestamp scheduled =
     (if OSAKA \<le> evm_spec_id
      then (case Option.bind scheduled (\<lambda>params. active_scheduled_params_at_timestamp params timestamp) of
              Some blob_param \<Rightarrow> blob_param
            | None \<Rightarrow> he_osaka env)
      else if PRAGUE \<le> evm_spec_id then he_prague env
      else he_cancun env)"

text \<open>\<open>try_into\<close> from \<open>u128\<close> to \<open>u64\<close>, with the \<open>expect\<close> that follows it.\<close>

definition u128_expect_u64 :: "u128 \<Rightarrow> u64 outcome" where
  "u128_expect_u64 n = (if unat n < 2 ^ 64 then Return (ucast n) else Panic)"

definition blob_excess_gas_and_price_for_evm_spec ::
  "('w, 'bp, 'bx) header_env \<Rightarrow> blob_gas \<Rightarrow> evm_spec_id \<Rightarrow> u64 \<Rightarrow> 'bp scheduled_blob_params option
     \<Rightarrow> 'bx outcome" where
  "blob_excess_gas_and_price_for_evm_spec env blob_gas evm_spec_id timestamp scheduled =
     (let blob_params = blob_params_for_hardfork env evm_spec_id timestamp scheduled
      in case u128_expect_u64 (he_update_fraction env blob_params) of
           Panic \<Rightarrow> Panic
         | Return fraction \<Rightarrow>
             Return (he_blob_excess_gas_and_price env (bg_excess_gas blob_gas) fraction))"

section \<open>The EVM environment\<close>

text \<open>
  What the EVM reads from a header (\<open>BlockEnvForHardfork\<close> through \<open>HeaderAndEvmSpec\<close>), one
  field per getter. Two getters can panic.
\<close>

record 'bx block_env =
  be_number :: u256
  be_beneficiary :: address
  be_timestamp :: u256
  be_gas_limit :: u64
  be_basefee :: "u64 outcome"
  be_difficulty :: u256
  be_prevrandao :: "b256 option"
  be_blob_excess_gas_and_price :: "'bx outcome option"
  be_slot_num :: u64

definition basefee_or_zero :: "u128 option \<Rightarrow> u64 outcome" where
  "basefee_or_zero base_fee = (case base_fee of None \<Rightarrow> Return 0 | Some f \<Rightarrow> u128_expect_u64 f)"

definition block_env_of_header ::
  "('w, 'bp, 'bx) header_env \<Rightarrow> block_header \<Rightarrow> l1_hardfork \<Rightarrow> 'bp scheduled_blob_params option
     \<Rightarrow> 'bx block_env" where
  "block_env_of_header env h hardfork scheduled =
     \<lparr>be_number = ucast (bh_number h),
      be_beneficiary = bh_beneficiary h,
      be_timestamp = ucast (bh_timestamp h),
      be_gas_limit = bh_gas_limit h,
      be_basefee = basefee_or_zero (bh_base_fee_per_gas h),
      be_difficulty = bh_difficulty h,
      be_prevrandao = (if MERGE \<le> into_evm_spec hardfork then Some (bh_mix_hash h) else None),
      be_blob_excess_gas_and_price =
        map_option (\<lambda>g. blob_excess_gas_and_price_for_evm_spec env g (into_evm_spec hardfork)
                          (bh_timestamp h) scheduled) (bh_blob_gas h),
      be_slot_num = (case bh_slot_number h of Some n \<Rightarrow> n | None \<Rightarrow> 0)\<rparr>"

definition block_env_of_partial ::
  "('w, 'bp, 'bx) header_env \<Rightarrow> partial_header \<Rightarrow> l1_hardfork \<Rightarrow> 'bp scheduled_blob_params option
     \<Rightarrow> 'bx block_env" where
  "block_env_of_partial env h hardfork scheduled =
     \<lparr>be_number = ucast (ph_number h),
      be_beneficiary = ph_beneficiary h,
      be_timestamp = ucast (ph_timestamp h),
      be_gas_limit = ph_gas_limit h,
      be_basefee = basefee_or_zero (ph_base_fee h),
      be_difficulty = ph_difficulty h,
      be_prevrandao = (if MERGE \<le> into_evm_spec hardfork then Some (ph_mix_hash h) else None),
      be_blob_excess_gas_and_price =
        map_option (\<lambda>g. blob_excess_gas_and_price_for_evm_spec env g (into_evm_spec hardfork)
                          (ph_timestamp h) scheduled) (ph_blob_gas h),
      be_slot_num = (case ph_slot_number h of Some n \<Rightarrow> n | None \<Rightarrow> 0)\<rparr>"

section \<open>Fees\<close>

text \<open>
  The EIP-1559 formula. A missing parameter set, a zero elasticity multiplier and a zero
  denominator panic.
\<close>

definition calculate_next_base_fee_per_gas ::
  "u64 \<Rightarrow> block_header \<Rightarrow> u128 \<Rightarrow> 'h::linorder base_fee_params \<Rightarrow> 'h \<Rightarrow> u128 outcome" where
  "calculate_next_base_fee_per_gas initial_base_fee parent gas_used base_fee_params hardfork =
     (case at_condition base_fee_params hardfork (bh_number parent + 1) of
        None \<Rightarrow> Panic
      | Some params \<Rightarrow>
          (let gas_limit = ucast (bh_gas_limit parent) :: u128;
               base_fee = (case bh_base_fee_per_gas parent of
                             Some f \<Rightarrow> f | None \<Rightarrow> ucast initial_base_fee)
           in if elasticity_multiplier params = 0 then Panic
              else
                let gas_target = gas_limit div elasticity_multiplier params;
                    denominator = gas_target * max_change_denominator params
                in case cmp gas_used gas_target of
                     Equal \<Rightarrow> Return base_fee
                   | Greater \<Rightarrow>
                       if denominator = 0 then Panic
                       else Return (base_fee + max 1 (base_fee * (gas_used - gas_target) div denominator))
                   | Less \<Rightarrow>
                       if denominator = 0 then Panic
                       else Return (saturating_sub base_fee
                              (base_fee * (gas_target - gas_used) div denominator))))"

definition calculate_next_base_fee_per_blob_gas ::
  "('w, 'bp, 'bx) header_env \<Rightarrow> block_header \<Rightarrow> l1_hardfork \<Rightarrow> 'bp scheduled_blob_params option \<Rightarrow> u128" where
  "calculate_next_base_fee_per_blob_gas env parent hardfork scheduled =
     (case bh_blob_gas parent of
        None \<Rightarrow> 0
      | Some g \<Rightarrow>
          (let blob_params =
                 blob_params_for_hardfork env (into_evm_spec hardfork) (bh_timestamp parent) scheduled
           in he_calc_blob_fee env blob_params (bg_excess_gas g)))"

section \<open>The header of the next block\<close>

definition overridden_block_number :: "block_header option \<Rightarrow> header_overrides \<Rightarrow> u64" where
  "overridden_block_number parent overrides =
     (case ho_number overrides of
        Some n \<Rightarrow> n
      | None \<Rightarrow> (case parent of Some p \<Rightarrow> bh_number p + 1 | None \<Rightarrow> 0))"

definition unwrap_or :: "'a option \<Rightarrow> 'a \<Rightarrow> 'a" where
  "unwrap_or a b = (case a of Some x \<Rightarrow> x | None \<Rightarrow> b)"

text \<open>The four closures of \<open>PartialHeader::new\<close> that compute more than a constant.\<close>

definition next_base_fee ::
  "('w, 'bp, 'bx) header_env \<Rightarrow> 'bp block_config \<Rightarrow> header_overrides \<Rightarrow> block_header option
     \<Rightarrow> u128 option outcome" where
  "next_base_fee env config overrides parent =
     (case ho_base_fee overrides of
        Some f \<Rightarrow> Return (Some f)
      | None \<Rightarrow>
          if LONDON \<le> into_evm_spec (bc_hardfork config)
          then (case parent of
                  Some p \<Rightarrow>
                    bind_outcome
                      (calculate_next_base_fee_per_gas (he_initial_base_fee env) p (ucast (bh_gas_used p))
                         (unwrap_or (ho_base_fee_params overrides) (bc_base_fee_params config))
                         (bc_hardfork config))
                      (\<lambda>f. Return (Some f))
                | None \<Rightarrow> Return (Some (ucast (he_initial_base_fee env))))
          else Return None)"

definition next_excess_gas ::
  "('w, 'bp, 'bx) header_env \<Rightarrow> 'bp block_config \<Rightarrow> u64 \<Rightarrow> block_header option \<Rightarrow> u64 outcome" where
  "next_excess_gas env config timestamp parent =
     (case Option.bind parent bh_blob_gas of
        None \<Rightarrow> Return 0
      | Some g \<Rightarrow>
          (let spec = into_evm_spec (bc_hardfork config);
               blob_params = blob_params_for_hardfork env spec timestamp (bc_scheduled_blob_params config);
               base_fee = (if OSAKA \<le> spec
                           then (case Option.bind parent bh_base_fee_per_gas of
                                   Some f \<Rightarrow> Return f | None \<Rightarrow> Panic)
                           else Return 0)
           in bind_outcome base_fee (\<lambda>f.
              bind_outcome (u128_expect_u64 f) (\<lambda>f64.
                Return (he_next_block_excess_blob_gas_osaka env blob_params
                          (bg_excess_gas g) (bg_gas_used g) f64)))))"

definition next_blob_gas ::
  "('w, 'bp, 'bx) header_env \<Rightarrow> 'bp block_config \<Rightarrow> header_overrides \<Rightarrow> u64 \<Rightarrow> block_header option
     \<Rightarrow> blob_gas option outcome" where
  "next_blob_gas env config overrides timestamp parent =
     (case ho_blob_gas overrides of
        Some g \<Rightarrow> Return (Some g)
      | None \<Rightarrow>
          if CANCUN \<le> into_evm_spec (bc_hardfork config)
          then bind_outcome (next_excess_gas env config timestamp parent) (\<lambda>excess.
                 Return (Some \<lparr>bg_gas_used = 0, bg_excess_gas = excess\<rparr>))
          else Return None)"

definition next_slot_number :: "l1_hardfork \<Rightarrow> header_overrides \<Rightarrow> block_header option \<Rightarrow> u64 option" where
  "next_slot_number hardfork overrides parent =
     (if AMSTERDAM \<le> into_evm_spec hardfork
      then Some (case ho_slot_number overrides of
                   Some n \<Rightarrow> n
                 | None \<Rightarrow> (case Option.bind parent bh_slot_number of Some n \<Rightarrow> n + 1 | None \<Rightarrow> 0))
      else None)"

text \<open>\<^verbatim>\<open>overrides.x.or_else(|| if spec >= since { Some(default) } else { None })\<close>.\<close>

definition since_fork :: "evm_spec_id \<Rightarrow> evm_spec_id \<Rightarrow> 'a option \<Rightarrow> 'a \<Rightarrow> 'a option" where
  "since_fork spec since overriding dflt =
     (case overriding of Some x \<Rightarrow> Some x | None \<Rightarrow> if since \<le> spec then Some dflt else None)"

definition EMPTY_REQUESTS_HASH :: b256 where
  "EMPTY_REQUESTS_HASH = 0xe3b0c44298fc1c149afbf4c8996fb92427ae41e4649b934ca495991b7852b855"

definition partial_header_new ::
  "('w, 'bp, 'bx) header_env \<Rightarrow> 'bp block_config \<Rightarrow> header_overrides \<Rightarrow> block_header option
     \<Rightarrow> block_header list \<Rightarrow> 'w list option \<Rightarrow> partial_header outcome" where
  "partial_header_new env config overrides parent ommers withdrawals =
     (let hardfork = bc_hardfork config;
          spec = into_evm_spec hardfork;
          timestamp = unwrap_or (ho_timestamp overrides) 0;
          number = overridden_block_number parent overrides;
          parent_hash = unwrap_or (ho_parent_hash overrides)
                          (case parent of Some p \<Rightarrow> he_header_hash env p | None \<Rightarrow> 0)
      in bind_outcome (next_base_fee env config overrides parent) (\<lambda>base_fee.
         bind_outcome (next_blob_gas env config overrides timestamp parent) (\<lambda>blob_gas.
         Return
           \<lparr>ph_parent_hash = parent_hash,
            ph_ommers_hash = he_ommers_hash env ommers,
            ph_beneficiary = unwrap_or (ho_beneficiary overrides) 0,
            ph_state_root = unwrap_or (ho_state_root overrides) KECCAK_NULL_RLP,
            ph_receipts_root = KECCAK_NULL_RLP,
            ph_logs_bloom = 0,
            ph_difficulty = unwrap_or (ho_difficulty overrides)
              (bc_default_difficulty_fn config hardfork parent number timestamp),
            ph_number = number,
            ph_gas_limit = unwrap_or (ho_gas_limit overrides) 1000000,
            ph_gas_used = 0,
            ph_timestamp = timestamp,
            ph_extra_data = unwrap_or (ho_extra_data overrides) [],
            ph_mix_hash = unwrap_or (ho_mix_hash overrides) 0,
            ph_nonce = unwrap_or (ho_nonce overrides) (if MERGE \<le> spec then 0 else 66),
            ph_base_fee = base_fee,
            ph_withdrawals_root = since_fork spec SHANGHAI (ho_withdrawals_root overrides)
              (case withdrawals of Some ws \<Rightarrow> he_withdrawals_root env ws | None \<Rightarrow> KECCAK_NULL_RLP),
            ph_blob_gas = blob_gas,
            ph_parent_beacon_block_root =
              since_fork spec CANCUN (ho_parent_beacon_block_root overrides) 0,
            ph_requests_hash =
              since_fork spec PRAGUE (ho_requests_hash overrides) EMPTY_REQUESTS_HASH,
            ph_block_access_list_hash =
              (if AMSTERDAM \<le> spec
               then Some (unwrap_or (ho_block_access_list_hash overrides) KECCAK_RLP_EMPTY_ARRAY)
               else None),
            ph_slot_number = next_slot_number hardfork overrides parent\<rparr>)))"

section \<open>Ethash difficulty\<close>

datatype pre_merge_hardfork =
    PreByzantium | PreConstantinople | PrePetersburg | PreIstanbul | PreMuirGlacier | PreBerlin
  | PreLondon | PreArrowGlacier | PreGrayGlacier

fun pre_merge_try_from :: "l1_hardfork \<Rightarrow> l1_hardfork + pre_merge_hardfork" where
  "pre_merge_try_from Byzantium = Inr PreByzantium"
| "pre_merge_try_from Constantinople = Inr PreConstantinople"
| "pre_merge_try_from Petersburg = Inr PrePetersburg"
| "pre_merge_try_from Istanbul = Inr PreIstanbul"
| "pre_merge_try_from MuirGlacier = Inr PreMuirGlacier"
| "pre_merge_try_from Berlin = Inr PreBerlin"
| "pre_merge_try_from London = Inr PreLondon"
| "pre_merge_try_from ArrowGlacier = Inr PreArrowGlacier"
| "pre_merge_try_from GrayGlacier = Inr PreGrayGlacier"
| "pre_merge_try_from hardfork = Inl hardfork"

fun bomb_delay :: "pre_merge_hardfork \<Rightarrow> u64" where
  "bomb_delay PreByzantium = 3000000"
| "bomb_delay PreConstantinople = 5000000"
| "bomb_delay PrePetersburg = 5000000"
| "bomb_delay PreIstanbul = 5000000"
| "bomb_delay PreMuirGlacier = 9000000"
| "bomb_delay PreBerlin = 9000000"
| "bomb_delay PreLondon = 9000000"
| "bomb_delay PreArrowGlacier = 10700000"
| "bomb_delay PreGrayGlacier = 11400000"

text \<open>The difficulty bomb: \<^verbatim>\<open>U256::from(2).pow(exp)\<close>, if the delay has passed.\<close>

definition difficulty_bomb :: "pre_merge_hardfork \<Rightarrow> u64 \<Rightarrow> u256" where
  "difficulty_bomb hardfork block_number =
     (case Option.bind (checked_sub block_number (bomb_delay hardfork))
             (\<lambda>num. checked_sub (num div 100000) 2) of
        Some e \<Rightarrow> 2 ^ unat e
      | None \<Rightarrow> 0)"

definition calculate_ethash_canonical_difficulty ::
  "pre_merge_hardfork \<Rightarrow> block_header \<Rightarrow> u64 \<Rightarrow> u64 \<Rightarrow> u64 \<Rightarrow> u256" where
  "calculate_ethash_canonical_difficulty hardfork parent block_number block_timestamp min_difficulty =
     (let offset = bh_difficulty parent div 2048;
          uncle_addend = (if bh_ommers_hash parent = KECCAK_RLP_EMPTY_ARRAY then 1 else 2) :: u64;
          a = (block_timestamp - bh_timestamp parent) div 9;
          difficulty =
            (case checked_sub a uncle_addend of
               Some a' \<Rightarrow> bh_difficulty parent - ucast (min a' 99) * offset
             | None \<Rightarrow> bh_difficulty parent + ucast (uncle_addend - a) * offset)
      in max (difficulty + difficulty_bomb hardfork block_number) (ucast min_difficulty))"

end
