(* ===== verification/Header_Facts.thy ===== *)
theory Header_Facts
  imports Block_Header
begin

text \<open>
  Properties of the header code: conversions between the two header types, the base fee
  against the formula of EIP-1559 over the natural numbers, the fields of the next header
  fork by fork, and the Ethash difficulty over the integers.
\<close>

section \<open>Conversions\<close>

text \<open>Completing a partial header and taking the partial header of a block are inverse, and
  the EVM reads the same environment from either.\<close>

theorem header_partial_roundtrip:
  "partial_from_header (header_new ph root) = ph
   \<and> header_new (partial_from_header h) (bh_transactions_root h) = h
   \<and> block_env_of_header env (header_new ph root) hardfork scheduled
       = block_env_of_partial env ph hardfork scheduled"
  by (simp add: partial_from_header_def header_new_def block_env_of_header_def block_env_of_partial_def)

section \<open>The base fee\<close>

text \<open>The formula of EIP-1559 over the natural numbers: base fee, gas used, target, denominator.\<close>

definition eip1559_next_base_fee :: "nat \<Rightarrow> nat \<Rightarrow> nat \<Rightarrow> nat \<Rightarrow> nat" where
  "eip1559_next_base_fee b used target d =
     (if used = target then b
      else if target < used then b + max 1 (b * (used - target) div (target * d))
      else b - b * (target - used) div (target * d))"

definition parent_base_fee :: "u64 \<Rightarrow> block_header \<Rightarrow> u128" where
  "parent_base_fee initial parent =
     (case bh_base_fee_per_gas parent of Some f \<Rightarrow> f | None \<Rightarrow> ucast initial)"

lemma unat_u64_less: "unat (w :: u64) < 2 ^ 64"
  using unsigned_less [of w] by simp

lemma mult_below_2_128:
  assumes "a < 2 ^ 64" "b < 2 ^ 64"
  shows "a * b < (2 :: nat) ^ 128"
proof -
  have "a * b \<le> a * 2 ^ 64" using assms(2) by simp
  also have "\<dots> < 2 ^ 64 * 2 ^ 64" using assms(1) by simp
  finally show ?thesis by (simp flip: power_add)
qed

lemma unat_mult_u128:
  "unat a < 2 ^ 64 \<Longrightarrow> unat b < 2 ^ 64 \<Longrightarrow> unat (a * b :: u128) = unat a * unat b"
  using mult_below_2_128 [of "unat a" "unat b"] by (simp add: unat_mult_no_overflow)

lemma base_fee_raise:
  fixes b g x :: u128
  assumes b: "unat b < 2 ^ 64" and g: "unat g < 2 ^ 64" and x: "0 < unat x"
  shows "unat (b + max 1 (b * g div x)) = unat b + max 1 (unat b * unat g div unat x)"
proof -
  have q: "unat (b * g div x) = unat b * unat g div unat x"
    using b g by (simp add: unat_div unat_mult_u128)
  have "unat b * unat g div unat x \<le> unat b * unat g" by simp
  also have "\<dots> \<le> (2 ^ 64 - 1) * (2 ^ 64 - 1)" using b g by (intro mult_le_mono) simp_all
  finally have "unat b * unat g div unat x \<le> (2 ^ 64 - 1) * (2 ^ 64 - 1)" .
  then have "unat b + max 1 (unat b * unat g div unat x) < 2 ^ 128" using b by simp
  moreover have "unat (max 1 (b * g div x)) = max 1 (unat b * unat g div unat x)"
    by (simp add: max_def word_le_nat_alt q)
  ultimately show ?thesis by (simp add: unat_add_no_overflow)
qed

lemma calculate_next_base_fee_refines:
  assumes params: "at_condition bfp hardfork (bh_number parent + 1) = Some params"
    and e: "0 < unat (elasticity_multiplier params)"
    and d: "0 < unat (max_change_denominator params)" "unat (max_change_denominator params) < 2 ^ 64"
    and used: "unat gas_used < 2 ^ 64"
    and b: "unat (parent_base_fee initial parent) < 2 ^ 64"
    and target: "target = unat (bh_gas_limit parent) div unat (elasticity_multiplier params)" "0 < target"
  shows "\<exists>f. calculate_next_base_fee_per_gas initial parent gas_used bfp hardfork = Return f
    \<and> unat f = eip1559_next_base_fee (unat (parent_base_fee initial parent)) (unat gas_used) target
        (unat (max_change_denominator params))"
proof -
  define t :: u128 where "t = ucast (bh_gas_limit parent) div elasticity_multiplier params"
  define bf where "bf = parent_base_fee initial parent"
  define den where "den = max_change_denominator params"
  have ut: "unat t = target" by (simp add: t_def unat_div unat_ucast_up target(1))
  have tl: "target < 2 ^ 64"
    unfolding target(1) by (rule order.strict_trans1 [OF div_le_dividend unat_u64_less])
  have td: "unat (t * den) = target * unat den"
    using tl d(2) by (simp add: ut den_def unat_mult_u128)
  then have tdp: "0 < unat (t * den)" using target(2) d(1) by (simp add: den_def)
  then have den0: "t * den \<noteq> 0" by (simp add: unat_gt_0)
  have e0: "elasticity_multiplier params \<noteq> 0" using e by (simp add: unat_gt_0)
  have calc: "calculate_next_base_fee_per_gas initial parent gas_used bfp hardfork =
      (case cmp gas_used t of Equal \<Rightarrow> Return bf
       | Greater \<Rightarrow> Return (bf + max 1 (bf * (gas_used - t) div (t * den)))
       | Less \<Rightarrow> Return (saturating_sub bf (bf * (t - gas_used) div (t * den))))"
    unfolding calculate_next_base_fee_per_gas_def params option.case Let_def
      parent_base_fee_def [symmetric] bf_def [symmetric] t_def [symmetric] den_def [symmetric]
    using e0 den0 by (simp split: ordering.split)
  have bl: "unat bf < 2 ^ 64" using b by (simp add: bf_def)
  consider "gas_used = t" | "t < gas_used" | "gas_used < t" by (rule linorder_cases) auto
  then show ?thesis
  proof cases
    case 1
    then have "calculate_next_base_fee_per_gas initial parent gas_used bfp hardfork = Return bf"
      unfolding calc by (simp add: cmp_def)
    with 1 show ?thesis by (simp add: bf_def eip1559_next_base_fee_def flip: ut)
  next
    case 2
    then have g: "unat (gas_used - t) = unat gas_used - target"
      by (simp add: unat_sub_le ut)
    have gl: "unat (gas_used - t) < 2 ^ 64" using used by (simp add: g)
    from 2 have "calculate_next_base_fee_per_gas initial parent gas_used bfp hardfork =
        Return (bf + max 1 (bf * (gas_used - t) div (t * den)))"
      unfolding calc by (auto simp: cmp_def)
    then show ?thesis
      using base_fee_raise [OF bl gl tdp] 2
      by (simp add: eip1559_next_base_fee_def g td word_less_nat_alt ut flip: bf_def den_def)
  next
    case 3
    then have g: "unat (t - gas_used) = target - unat gas_used"
      by (simp add: unat_sub_le ut)
    have gl: "unat (t - gas_used) < 2 ^ 64" using tl by (simp add: g)
    have q: "unat (bf * (t - gas_used) div (t * den)) = unat bf * (target - unat gas_used) div (target * unat den)"
      using bl gl by (simp add: unat_div unat_mult_u128 g td)
    from 3 have "calculate_next_base_fee_per_gas initial parent gas_used bfp hardfork =
        Return (saturating_sub bf (bf * (t - gas_used) div (t * den)))"
      unfolding calc by (auto simp: cmp_def)
    then show ?thesis
      using 3 by (simp add: eip1559_next_base_fee_def unat_saturating_sub q word_less_nat_alt ut
          flip: bf_def den_def)
  qed
qed

text \<open>C27. For a parent with a base fee, the next base fee is computed without overflow or panic, and is the
  one EIP-1559 prescribes over the natural numbers. The conditions are that base fee parameters apply to the
  next block, that the parent's base fee and the maximum change denominator fit in 64 bits, that
  neither the denominator nor the elasticity multiplier is zero, and that the
  multiplier is not above the gas limit of the parent, so that the gas target is not zero.\<close>

theorem calculate_next_base_fee_eip1559:
  assumes "at_condition bfp hardfork (bh_number parent + 1) = Some params"
    and "0 < unat (max_change_denominator params)" "unat (max_change_denominator params) < 2 ^ 64"
    and "bh_base_fee_per_gas parent = Some base_fee" and "unat base_fee < 2 ^ 64"
    and "0 < unat (elasticity_multiplier params)"
    and "unat (elasticity_multiplier params) \<le> unat (bh_gas_limit parent)"
  shows "\<exists>f. calculate_next_base_fee_per_gas initial parent (ucast (bh_gas_used parent)) bfp hardfork = Return f
    \<and> unat f = eip1559_next_base_fee (unat base_fee) (unat (bh_gas_used parent))
        (unat (bh_gas_limit parent) div unat (elasticity_multiplier params))
        (unat (max_change_denominator params))"
  using calculate_next_base_fee_refines [OF assms(1,6,2,3) _ _ refl, of "ucast (bh_gas_used parent)" initial]
    unat_u64_less [of "bh_gas_used parent"] assms(4-7)
  by (simp add: unat_ucast_up div_greater_zero_iff parent_base_fee_def)

text \<open>A header and the parameters of the L1 chain, for the evaluation of concrete cases.\<close>

definition sample_header :: block_header where
  "sample_header =
     \<lparr>bh_parent_hash = 0, bh_ommers_hash = KECCAK_RLP_EMPTY_ARRAY, bh_beneficiary = 0,
      bh_state_root = 0, bh_transactions_root = 0, bh_receipts_root = 0, bh_logs_bloom = 0,
      bh_difficulty = 1048576, bh_number = 7, bh_gas_limit = 30000000, bh_gas_used = 30000000,
      bh_timestamp = 1000, bh_extra_data = [], bh_mix_hash = 0, bh_nonce = 0,
      bh_base_fee_per_gas = Some 800, bh_withdrawals_root = None, bh_blob_gas = None,
      bh_parent_beacon_block_root = None, bh_requests_hash = None,
      bh_block_access_list_hash = None, bh_slot_number = None\<rparr>"

definition london_params :: constant_base_fee_params where
  "london_params = \<lparr>max_change_denominator = 8, elasticity_multiplier = 2\<rparr>"

theorem calculate_next_base_fee_eip1559_witness:
  "\<exists>f. calculate_next_base_fee_per_gas 1000000000 sample_header (ucast (bh_gas_used sample_header))
        (ConstantParams london_params) London = Return f \<and> unat f = 900"
  using calculate_next_base_fee_eip1559 [of "ConstantParams london_params" London sample_header london_params 800 1000000000]
  by (simp add: london_params_def sample_header_def eip1559_next_base_fee_def)

lemma eip1559_bounds:
  assumes "0 < t"
  shows "b - b div d \<le> eip1559_next_base_fee b used t d"
    and "used \<le> 2 * t \<Longrightarrow> eip1559_next_base_fee b used t d \<le> b + max 1 (b div d)"
proof -
  have cut: "b * g div (t * d) \<le> b div d" if "g \<le> t" for g
  proof -
    have "b * g div (t * d) \<le> b * t div (t * d)" using that by (intro div_le_mono) simp
    also have "\<dots> = b div d" using assms by simp
    finally show ?thesis .
  qed
  show "b - b div d \<le> eip1559_next_base_fee b used t d"
    using cut [of "t - used"] by (auto simp: eip1559_next_base_fee_def)
  show "eip1559_next_base_fee b used t d \<le> b + max 1 (b div d)" if "used \<le> 2 * t"
  proof -
    have "b * (used - t) div (t * d) \<le> b div d" using that by (intro cut) simp
    then show ?thesis by (auto simp: eip1559_next_base_fee_def le_max_iff_disj)
  qed
qed

text \<open>From one block to the next the base fee falls by at most the fraction one over the
  change denominator, and rises by at most that fraction (but at least one) when the parent
  used no more than twice its gas target.\<close>

theorem base_fee_change_bounded:
  assumes "at_condition bfp hardfork (bh_number parent + 1) = Some params"
    and "0 < unat (max_change_denominator params)" "unat (max_change_denominator params) < 2 ^ 64"
    and "unat (parent_base_fee initial parent) < 2 ^ 64"
    and "0 < unat (elasticity_multiplier params)"
    and "unat (elasticity_multiplier params) \<le> unat (bh_gas_limit parent)"
    and "unat (bh_gas_used parent) \<le> 2 * (unat (bh_gas_limit parent) div unat (elasticity_multiplier params))"
    and "calculate_next_base_fee_per_gas initial parent (ucast (bh_gas_used parent)) bfp hardfork = Return f"
  shows "unat (parent_base_fee initial parent)
      - unat (parent_base_fee initial parent) div unat (max_change_denominator params) \<le> unat f
    \<and> unat f \<le> unat (parent_base_fee initial parent)
      + max 1 (unat (parent_base_fee initial parent) div unat (max_change_denominator params))"
proof -
  have t: "0 < unat (bh_gas_limit parent) div unat (elasticity_multiplier params)"
    using assms(5,6) by (simp add: div_greater_zero_iff)
  have g: "unat (ucast (bh_gas_used parent) :: u128) < 2 ^ 64" using unat_u64_less by (simp add: unat_ucast_up)
  from calculate_next_base_fee_refines [OF assms(1,5,2,3) g assms(4) refl t] assms(8)
  have "unat f = eip1559_next_base_fee (unat (parent_base_fee initial parent)) (unat (bh_gas_used parent))
      (unat (bh_gas_limit parent) div unat (elasticity_multiplier params)) (unat (max_change_denominator params))"
    by (simp add: unat_ucast_up)
  with eip1559_bounds [OF t] assms(7) show ?thesis by simp
qed

theorem base_fee_change_bounded_witness:
  "700 \<le> unat (900 :: u128) \<and> unat (900 :: u128) \<le> 800 + max 1 (800 div 8)"
proof -
  have "calculate_next_base_fee_per_gas 1000000000 sample_header (ucast (bh_gas_used sample_header))
      (ConstantParams london_params) London = Return 900"
    by (simp add: calculate_next_base_fee_per_gas_def london_params_def sample_header_def cmp_def Let_def)
  then show ?thesis
    using base_fee_change_bounded [of "ConstantParams london_params" London sample_header london_params 1000000000 900]
    by (simp add: london_params_def sample_header_def parent_base_fee_def)
qed

text \<open>The calculation panics exactly when no parameters are configured for the next block,
  the elasticity multiplier is zero, or the parent missed its gas target and the product of
  target and denominator vanishes. A parent without a base fee is no reason to panic.\<close>

theorem calculate_next_base_fee_panics_iff:
  "calculate_next_base_fee_per_gas initial parent gas_used bfp hardfork = Panic \<longleftrightarrow>
     (case at_condition bfp hardfork (bh_number parent + 1) of
        None \<Rightarrow> True
      | Some params \<Rightarrow>
          elasticity_multiplier params = 0
          \<or> gas_used \<noteq> ucast (bh_gas_limit parent) div elasticity_multiplier params
            \<and> ucast (bh_gas_limit parent) div elasticity_multiplier params * max_change_denominator params = 0)"
  by (auto simp: calculate_next_base_fee_per_gas_def Let_def cmp_def split: option.split)

section \<open>The next header\<close>

lemma since_fork_None [simp]:
  "since_fork spec since ov d = None \<longleftrightarrow> ov = None \<and> \<not> since \<le> spec"
  by (auto simp: since_fork_def split: option.splits)

lemma next_base_fee_Some:
  "next_base_fee env config ov parent = Return r \<Longrightarrow>
     r \<noteq> None \<longleftrightarrow> LONDON \<le> into_evm_spec (bc_hardfork config) \<or> ho_base_fee ov \<noteq> None"
  by (cases "ho_base_fee ov"; cases parent) (auto simp: next_base_fee_def split: if_splits)

lemma next_blob_gas_Some:
  "next_blob_gas env config ov t parent = Return r \<Longrightarrow>
     r \<noteq> None \<longleftrightarrow> CANCUN \<le> into_evm_spec (bc_hardfork config) \<or> ho_blob_gas ov \<noteq> None"
  by (cases "ho_blob_gas ov") (auto simp: next_blob_gas_def split: if_splits)

lemma partial_header_new_Return:
  "partial_header_new env config ov parent oms ws = Return ph \<Longrightarrow>
     next_base_fee env config ov parent = Return (ph_base_fee ph)
     \<and> next_blob_gas env config ov (unwrap_or (ho_timestamp ov) 0) parent = Return (ph_blob_gas ph)"
  by (auto simp: partial_header_new_def Let_def)

text \<open>A new header carries exactly the fields of its hardfork, or those the caller overrides;
  the block access list hash and the slot number exist from Amsterdam on only, even when
  overridden. It starts without gas used, and without an override its number follows the
  parent's.\<close>

theorem next_header_fields:
  assumes "partial_header_new env config ov parent oms ws = Return ph"
    and "spec = into_evm_spec (bc_hardfork config)"
  shows "(ph_base_fee ph \<noteq> None \<longleftrightarrow> LONDON \<le> spec \<or> ho_base_fee ov \<noteq> None)
    \<and> (ph_withdrawals_root ph \<noteq> None \<longleftrightarrow> SHANGHAI \<le> spec \<or> ho_withdrawals_root ov \<noteq> None)
    \<and> (ph_blob_gas ph \<noteq> None \<longleftrightarrow> CANCUN \<le> spec \<or> ho_blob_gas ov \<noteq> None)
    \<and> (ph_requests_hash ph \<noteq> None \<longleftrightarrow> PRAGUE \<le> spec \<or> ho_requests_hash ov \<noteq> None)
    \<and> (ph_block_access_list_hash ph \<noteq> None \<longleftrightarrow> AMSTERDAM \<le> spec)
    \<and> (ph_slot_number ph \<noteq> None \<longleftrightarrow> AMSTERDAM \<le> spec)
    \<and> ph_gas_used ph = 0
    \<and> (\<forall>p. parent = Some p \<and> ho_number ov = None \<longrightarrow> ph_number ph = bh_number p + 1)"
proof -
  note r = partial_header_new_Return [OF assms(1)]
  have "ph_withdrawals_root ph = since_fork spec SHANGHAI (ho_withdrawals_root ov)
      (case ws of Some ws \<Rightarrow> he_withdrawals_root env ws | None \<Rightarrow> KECCAK_NULL_RLP)"
    "ph_requests_hash ph = since_fork spec PRAGUE (ho_requests_hash ov) EMPTY_REQUESTS_HASH"
    "ph_block_access_list_hash ph = (if AMSTERDAM \<le> spec
       then Some (unwrap_or (ho_block_access_list_hash ov) KECCAK_RLP_EMPTY_ARRAY) else None)"
    "ph_slot_number ph = next_slot_number (bc_hardfork config) ov parent"
    "ph_gas_used ph = 0" "ph_number ph = overridden_block_number parent ov"
    using assms by (auto simp: partial_header_new_def Let_def)
  with next_base_fee_Some [of env config ov parent] next_blob_gas_Some [of env config ov _ parent] r assms(2)
  show ?thesis by (auto simp: next_slot_number_def overridden_block_number_def)
qed

definition sample_env :: "(unit, nat, u64) header_env" where
  "sample_env =
     \<lparr>he_header_hash = (\<lambda>h. ucast (bh_number h)), he_ommers_hash = (\<lambda>_. KECCAK_RLP_EMPTY_ARRAY),
      he_withdrawals_root = (\<lambda>_. KECCAK_NULL_RLP), he_initial_base_fee = 1000000000,
      he_cancun = 1, he_prague = 2, he_osaka = 3, he_update_fraction = (\<lambda>_. 3338477),
      he_max_blob_gas_per_block = (\<lambda>bp. 393216 * of_nat (bp + 1)),
      he_next_block_excess_blob_gas_osaka = (\<lambda>_ e g _. saturating_sub (e + g) 393216),
      he_calc_blob_fee = (\<lambda>_ _. 1), he_blob_excess_gas_and_price = (\<lambda>e _. e)\<rparr>"

definition sample_config :: "l1_hardfork \<Rightarrow> nat block_config" where
  "sample_config hardfork =
     \<lparr>bc_base_fee_params = ConstantParams london_params, bc_default_difficulty_fn = (\<lambda>_ _ _ _. 0),
      bc_hardfork = hardfork, bc_scheduled_blob_params = None\<rparr>"

lemma next_excess_gas_Return:
  assumes "\<And>p g. parent = Some p \<Longrightarrow> bh_blob_gas p = Some g \<Longrightarrow>
    OSAKA \<le> into_evm_spec (bc_hardfork config) \<Longrightarrow>
    \<exists>f. bh_base_fee_per_gas p = Some f \<and> unat f < 2 ^ 64"
  shows "\<exists>n. next_excess_gas env config t parent = Return n"
proof (cases "Option.bind parent bh_blob_gas")
  case None
  then show ?thesis by (simp add: next_excess_gas_def)
next
  case (Some g)
  then obtain p where p: "parent = Some p" "bh_blob_gas p = Some g" by (auto simp: bind_eq_Some_conv)
  show ?thesis
  proof (cases "OSAKA \<le> into_evm_spec (bc_hardfork config)")
    case True
    with assms [OF p True] p show ?thesis
      by (auto simp: next_excess_gas_def u128_expect_u64_def Let_def simp del: bind_outcome_Return)
  next
    case False
    with p show ?thesis by (simp add: next_excess_gas_def u128_expect_u64_def Let_def)
  qed
qed

lemma partial_header_new_returns:
  assumes "ho_base_fee_params ov = None" and "bc_base_fee_params config = ConstantParams params"
    and "elasticity_multiplier params \<noteq> 0"
    and "ucast (bh_gas_limit p) div elasticity_multiplier params * max_change_denominator params \<noteq> 0"
    and "OSAKA \<le> into_evm_spec (bc_hardfork config) \<Longrightarrow>
      \<exists>f. bh_base_fee_per_gas p = Some f \<and> unat f < 2 ^ 64"
  shows "\<exists>ph. partial_header_new env config ov (Some p) oms ws = Return ph"
proof -
  have "calculate_next_base_fee_per_gas (he_initial_base_fee env) p (ucast (bh_gas_used p))
      (bc_base_fee_params config) (bc_hardfork config) \<noteq> Panic"
    using assms(2,3,4) by (simp add: calculate_next_base_fee_per_gas_def Let_def split: ordering.split)
  then have "\<exists>f. next_base_fee env config ov (Some p) = Return f"
    using assms(1)
    by (cases "calculate_next_base_fee_per_gas (he_initial_base_fee env) p (ucast (bh_gas_used p))
        (bc_base_fee_params config) (bc_hardfork config)"; cases "ho_base_fee ov")
      (auto simp: next_base_fee_def unwrap_or_def)
  moreover obtain n where "next_excess_gas env config (unwrap_or (ho_timestamp ov) 0) (Some p) = Return n"
    using next_excess_gas_Return [of "Some p" config] assms(5) by blast
  ultimately show ?thesis
    by (simp add: partial_header_new_def next_blob_gas_def Let_def split: option.split)
qed

text \<open>Building the next header does not panic when the chain's base fee parameters are
  usable for the parent and, from Osaka on, the parent's base fee is set and fits in 64 bits.\<close>

theorem partial_header_new_total:
  assumes "ho_base_fee_params ov = None" and "bc_base_fee_params config = ConstantParams params"
    and "elasticity_multiplier params \<noteq> 0"
    and "ucast (bh_gas_limit p) div elasticity_multiplier params * max_change_denominator params \<noteq> 0"
    and "OSAKA \<le> into_evm_spec (bc_hardfork config) \<Longrightarrow>
      \<exists>f. bh_base_fee_per_gas p = Some f \<and> unat f < 2 ^ 64"
  shows "\<exists>ph. partial_header_new env config ov (Some p) oms ws = Return ph"
  using assms by (rule partial_header_new_returns)

lemmas header_eval =
  partial_header_new_def next_base_fee_def next_blob_gas_def next_excess_gas_def next_slot_number_def
  overridden_block_number_def since_fork_def unwrap_or_def calculate_next_base_fee_per_gas_def
  cmp_def sample_config_def sample_env_def no_overrides_def london_params_def sample_header_def

theorem next_header_fields_witness:
  "\<exists>ph. partial_header_new sample_env (sample_config London) no_overrides (Some sample_header) [] None = Return ph
    \<and> ph_base_fee ph = Some 900 \<and> ph_number ph = 8 \<and> ph_withdrawals_root ph = None \<and> ph_slot_number ph = None"
proof -
  obtain ph where ph: "partial_header_new sample_env (sample_config London) no_overrides (Some sample_header) [] None
      = Return ph" and fee: "ph_base_fee ph = Some 900"
    by (simp add: header_eval spec_le_simps Let_def)
  from next_header_fields [OF ph refl] have "ph_number ph = 8" "ph_withdrawals_root ph = None"
    "ph_slot_number ph = None"
    by (simp_all add: sample_config_def no_overrides_def sample_header_def spec_le_simps)
  with ph fee show ?thesis by blast
qed

theorem partial_header_new_total_witness:
  "\<exists>ph. partial_header_new sample_env (sample_config Osaka) no_overrides (Some sample_header) [] (Some []) = Return ph"
  by (rule partial_header_new_total [where params = london_params])
    (simp_all add: no_overrides_def sample_config_def london_params_def sample_header_def)

section \<open>Ethash difficulty\<close>

text \<open>The difficulty as an integer: the adjustment is at most two and at least minus 99 steps.\<close>

definition ethash_int :: "int \<Rightarrow> bool \<Rightarrow> int \<Rightarrow> int \<Rightarrow> int \<Rightarrow> int" where
  "ethash_int parent_difficulty has_no_ommers elapsed bomb min_difficulty =
     max (parent_difficulty
            + (parent_difficulty div 2048)
              * max ((if has_no_ommers then 1 else 2) - elapsed div 9) (- 99)
            + bomb)
         min_difficulty"

text \<open>The delays of the difficulty bomb that the EIPs 649, 1234, 2384, 3554, 4345 and 5133 give the hard
  forks, and the bomb.\<close>

fun eip_bomb_delay :: "pre_merge_hardfork \<Rightarrow> nat" where
  "eip_bomb_delay PreByzantium = 3000000"
| "eip_bomb_delay PreConstantinople = 5000000"
| "eip_bomb_delay PrePetersburg = 5000000"
| "eip_bomb_delay PreIstanbul = 5000000"
| "eip_bomb_delay PreMuirGlacier = 9000000"
| "eip_bomb_delay PreBerlin = 9000000"
| "eip_bomb_delay PreLondon = 9700000"
| "eip_bomb_delay PreArrowGlacier = 10700000"
| "eip_bomb_delay PreGrayGlacier = 11400000"

definition ethash_bomb :: "nat \<Rightarrow> nat \<Rightarrow> nat" where
  "ethash_bomb delay number =
     (let period = (number - delay) div 100000 in if 2 \<le> period then 2 ^ (period - 2) else 0)"

lemma unat_bomb_delay: "unat (bomb_delay h) = eip_bomb_delay (if h = PreLondon then PreMuirGlacier else h)"
  by (cases h) simp_all

lemma unat_pow2_u256: "n < 256 \<Longrightarrow> unat (2 ^ n :: u256) = 2 ^ n"
proof (induction n)
  case (Suc n)
  then have "(2 :: nat) ^ Suc n < 2 ^ 256" by (intro power_strict_increasing) auto
  then show ?case using Suc by (simp add: unat_mult_no_overflow)
qed simp

lemma difficulty_bomb_nat:
  assumes "unat n < 20000000"
  shows "unat (difficulty_bomb h n) = ethash_bomb (unat (bomb_delay h)) (unat n)" and "unat (difficulty_bomb h n) < 2 ^ 200"
proof -
  define k where "k = (unat n - unat (bomb_delay h)) div 100000"
  have small: "k - 2 < 200" using assms by (simp add: k_def less_mult_imp_div_less less_imp_diff_less)
  have b: "unat (difficulty_bomb h n) = ethash_bomb (unat (bomb_delay h)) (unat n)"
  proof (cases "bomb_delay h \<le> n")
    case False
    then show ?thesis
      by (simp add: difficulty_bomb_def ethash_bomb_def checked_sub_def word_le_nat_alt Let_def)
  next
    case True
    then have u: "unat ((n - bomb_delay h) div 100000) = k" by (simp add: k_def unat_div unat_sub_le)
    then have le: "2 \<le> (n - bomb_delay h) div 100000 \<longleftrightarrow> 2 \<le> k" by (simp add: word_le_nat_alt)
    then have "2 \<le> k \<Longrightarrow> unat ((n - bomb_delay h) div 100000 - 2) = k - 2"
      using u by (simp add: unat_sub_le)
    with True le small show ?thesis
      by (simp add: difficulty_bomb_def ethash_bomb_def checked_sub_def word_le_nat_alt Let_def
          unat_pow2_u256 flip: k_def)
  qed
  then show "unat (difficulty_bomb h n) = ethash_bomb (unat (bomb_delay h)) (unat n)" .
  show "unat (difficulty_bomb h n) < 2 ^ 200"
  proof -
    have "(2 :: nat) ^ (k - 2) < 2 ^ 200" using small by (intro power_strict_increasing) auto
    then show ?thesis by (simp add: b ethash_bomb_def Let_def flip: k_def)
  qed
qed

lemma max_int_diff: "U \<le> A \<Longrightarrow> max (int U - int A) (- 99) = - int (min (A - U) 99)"
  by auto

lemma max_int_diff_pos: "A < U \<Longrightarrow> max (int U - int A) (- 99) = int (U - A)"
  by auto

lemma ethash_adjust:
  fixes d :: u256 and a u :: u64
  assumes d: "unat d < 2 ^ 200" and u: "unat u \<le> 2"
  shows "int (unat (case checked_sub a u of
       Some a' \<Rightarrow> d - ucast (min a' 99) * (d div 2048)
     | None \<Rightarrow> d + ucast (u - a) * (d div 2048)))
     = int (unat d) + int (unat d) div 2048 * max (int (unat u) - int (unat a)) (- 99)" (is "int (unat ?x) = ?y")
    and "unat (case checked_sub a u of
       Some a' \<Rightarrow> d - ucast (min a' 99) * (d div 2048)
     | None \<Rightarrow> d + ucast (u - a) * (d div 2048)) < 2 ^ 201"
proof -
  define off where "off = unat d div 2048"
  have uo: "unat (d div 2048) = off" by (simp add: off_def unat_div)
  have le: "2048 * off \<le> unat d" by (simp add: off_def)
  have mul: "unat (ucast w * (d div 2048) :: u256) = unat w * off" if "unat w \<le> 99" for w :: u64
  proof -
    have "unat w * off \<le> 99 * off" using that by simp
    also have "\<dots> < 2 ^ 256" using le d by simp
    finally show ?thesis by (simp add: unat_mult_no_overflow unat_ucast_up uo)
  qed
  have "int (unat ?x) = ?y \<and> unat ?x < 2 ^ 201"
  proof (cases "u \<le> a")
    case True
    define m where "m = min (unat a - unat u) 99"
    have m: "unat (min (a - u) 99) = m"
      using True by (simp add: m_def min_def word_le_nat_alt unat_sub_le)
    then have ml: "unat (ucast (min (a - u) 99) * (d div 2048) :: u256) = m * off"
      by (simp add: mul m_def)
    have "m * off \<le> 99 * off" by (simp add: m_def)
    then have mo: "m * off \<le> unat d" using le by linarith
    have x: "unat ?x = unat d - m * off"
      using True mo by (simp add: checked_sub_def ml word_le_nat_alt unat_sub_le)
    have "max (int (unat u) - int (unat a)) (- 99) = - int m"
      using True unfolding m_def word_le_nat_alt by (rule max_int_diff)
    then have "?y = int (unat d) - int off * int m" by (simp add: off_def zdiv_int)
    with x mo d show ?thesis by (simp add: of_nat_diff)
  next
    case False
    then have lt: "unat a < unat u" by (simp add: word_le_nat_alt)
    have ml: "unat (ucast (u - a) * (d div 2048) :: u256) = (unat u - unat a) * off"
      using False u by (subst mul) (simp_all add: unat_sub_le)
    have "(unat u - unat a) * off \<le> 2 * off" using u by (intro mult_le_mono1) simp
    then have "(unat u - unat a) * off \<le> unat d" using le by linarith
    then have s: "unat d + (unat u - unat a) * off < 2 ^ 201" using d by simp
    then have x: "unat ?x = unat d + (unat u - unat a) * off"
      using False by (simp add: checked_sub_def unat_add_no_overflow ml)
    have "max (int (unat u) - int (unat a)) (- 99) = int (unat u - unat a)"
      using lt by (rule max_int_diff_pos)
    with x s show ?thesis by (simp add: off_def zdiv_int)
  qed
  then show "int (unat ?x) = ?y" "unat ?x < 2 ^ 201" by auto
qed

text \<open>C33. The difficulty is the one Ethash prescribes over the integers, without wrap-around, with the
  delay of the difficulty bomb that the EIPs give the hard fork; only for London the code takes
  the delay of Muir Glacier (EIP-2384) instead of that of EIP-3554. This holds for blocks with numbers
  below twenty million and timestamps that do not precede the parent's, and for
  parents with a difficulty below \<open>2^200\<close>.\<close>

theorem ethash_difficulty_exact:
  assumes "unat (bh_difficulty parent) < 2 ^ 200" and "unat n < 20000000"
    and "bh_timestamp parent \<le> t"
  shows "int (unat (calculate_ethash_canonical_difficulty h parent n t min_difficulty)) =
    ethash_int (int (unat (bh_difficulty parent))) (bh_ommers_hash parent = KECCAK_RLP_EMPTY_ARRAY)
      (int (unat t) - int (unat (bh_timestamp parent)))
      (int (ethash_bomb (eip_bomb_delay (if h = PreLondon then PreMuirGlacier else h)) (unat n)))
      (int (unat min_difficulty))"
proof -
  define u :: u64 where "u = (if bh_ommers_hash parent = KECCAK_RLP_EMPTY_ARRAY then 1 else 2)"
  define a where "a = (t - bh_timestamp parent) div 9"
  define x where "x = (case checked_sub a u of
       Some a' \<Rightarrow> bh_difficulty parent - ucast (min a' 99) * (bh_difficulty parent div 2048)
     | None \<Rightarrow> bh_difficulty parent + ucast (u - a) * (bh_difficulty parent div 2048))"
  have u: "unat u \<le> 2" by (simp add: u_def)
  note adj = ethash_adjust [OF assms(1) u, of a, folded x_def]
  have ua: "int (unat a) = (int (unat t) - int (unat (bh_timestamp parent))) div 9"
    using assms(3) by (simp add: a_def unat_div unat_sub_le zdiv_int word_le_nat_alt of_nat_diff)
  have sum: "unat (x + difficulty_bomb h n) = unat x + ethash_bomb (unat (bomb_delay h)) (unat n)"
    using adj(2) difficulty_bomb_nat [OF assms(2), of h] by (simp add: unat_add_no_overflow)
  have eq: "calculate_ethash_canonical_difficulty h parent n t min_difficulty =
      max (x + difficulty_bomb h n) (ucast min_difficulty)"
    unfolding calculate_ethash_canonical_difficulty_def Let_def u_def [symmetric] a_def [symmetric] x_def ..
  have mx: "int (unat (max v w)) = max (int (unat v)) (int (unat w))" for v w :: u256
    by (simp add: max_def word_le_def)
  have um: "unat (ucast min_difficulty :: u256) = unat min_difficulty" by (simp add: unat_ucast_up)
  have uu: "int (unat u) = (if bh_ommers_hash parent = KECCAK_RLP_EMPTY_ARRAY then 1 else 2)"
    by (simp add: u_def)
  show ?thesis unfolding eq mx sum of_nat_add adj(1) ua um uu ethash_int_def unat_bomb_delay ..
qed

theorem ethash_difficulty_exact_witness:
  "int (unat (calculate_ethash_canonical_difficulty PreByzantium sample_header 3200000 1012 131072))
     = 1048577"
  using ethash_difficulty_exact [of sample_header 3200000 1012 PreByzantium 131072]
  by (simp add: sample_header_def ethash_int_def ethash_bomb_def Let_def)

end
