(* ===== verification/Local_Block.thy ===== *)
theory Local_Block
  imports Receipts Header_Facts State_Api
begin

text \<open>
  Locally built blocks (\<^verbatim>\<open>crates/block/local/src/lib.rs\<close>), genesis options
  (\<^verbatim>\<open>crates/block/api/src/genesis.rs\<close>) and the validity check of the next block of a chain
  (\<^verbatim>\<open>crates/block/api/src/lib.rs\<close>). The root of a transactions trie is a parameter.
\<close>

section \<open>The model\<close>

record 'w local_block =
  lb_header :: block_header
  lb_transactions :: "transaction list"
  lb_transaction_receipts :: "block_receipt list"
  lb_ommers :: "block_header list"
  lb_ommer_hashes :: "b256 list"
  lb_withdrawals :: "'w list option"
  lb_hash :: b256

definition local_block_new ::
  "('w, 'bp, 'bx) header_env \<Rightarrow> (transaction list \<Rightarrow> b256) \<Rightarrow> l1_hardfork \<Rightarrow> partial_header
     \<Rightarrow> transaction list \<Rightarrow> execution_log transaction_receipt list \<Rightarrow> block_header list
     \<Rightarrow> 'w list option \<Rightarrow> 'w local_block" where
  "local_block_new env transactions_root hardfork ph txs receipts ommers withdrawals =
     (let header = header_new ph (transactions_root txs);
          hash = he_header_hash env header
      in \<lparr>lb_header = header,
          lb_transactions = txs,
          lb_transaction_receipts =
            map (\<lambda>(receipt, tx). l1_block_receipt_new receipt (into_evm_spec hardfork) hash (bh_number header))
              (zip (map_transaction_receipt_logs hash (bh_number header) 0 0 receipts) txs),
          lb_ommers = ommers,
          lb_ommer_hashes = map (he_header_hash env) ommers,
          lb_withdrawals = withdrawals,
          lb_hash = hash\<rparr>)"

definition local_block_empty ::
  "('w, 'bp, 'bx) header_env \<Rightarrow> l1_hardfork \<Rightarrow> partial_header \<Rightarrow> 'w local_block" where
  "local_block_empty env hardfork ph =
     (let header = header_new ph KECCAK_EMPTY
      in \<lparr>lb_header = header,
          lb_transactions = [],
          lb_transaction_receipts = [],
          lb_ommers = [],
          lb_ommer_hashes = [],
          lb_withdrawals = (if SHANGHAI \<le> into_evm_spec hardfork then Some [] else None),
          lb_hash = he_header_hash env header\<rparr>)"

record genesis_block_options =
  go_extra_data :: "byte list option"
  go_gas_limit :: "u64 option"
  go_timestamp :: "u64 option"
  go_mix_hash :: "b256 option"
  go_base_fee :: "u128 option"
  go_base_fee_params :: "l1_hardfork base_fee_params option"
  go_blob_gas :: "blob_gas option"
  go_withdrawals_root :: "b256 option"

definition overrides_from_genesis :: "genesis_block_options \<Rightarrow> header_overrides" where
  "overrides_from_genesis opts =
     no_overrides\<lparr>ho_extra_data := go_extra_data opts, ho_gas_limit := go_gas_limit opts,
       ho_timestamp := go_timestamp opts, ho_mix_hash := go_mix_hash opts,
       ho_base_fee := go_base_fee opts, ho_base_fee_params := go_base_fee_params opts,
       ho_blob_gas := go_blob_gas opts, ho_withdrawals_root := go_withdrawals_root opts\<rparr>"

datatype local_block_creation_error = MissingPrevrandao

text \<open>The state root and the current time are arguments.\<close>

definition with_genesis_state ::
  "('w, 'bp, 'bx) header_env \<Rightarrow> b256 \<Rightarrow> u64 \<Rightarrow> 'bp block_config \<Rightarrow> genesis_block_options
     \<Rightarrow> (local_block_creation_error + 'w local_block) outcome" where
  "with_genesis_state env state_root now config options =
     (let spec = into_evm_spec (bc_hardfork config)
      in if MERGE \<le> spec \<and> go_mix_hash options = None then Return (Inl MissingPrevrandao)
         else
           (let overrides = overrides_from_genesis options;
                overrides = overrides\<lparr>ho_state_root := Some state_root\<rparr>;
                overrides = (if ho_timestamp overrides = None then overrides\<lparr>ho_timestamp := Some now\<rparr>
                             else overrides);
                withdrawals = (if SHANGHAI \<le> spec then Some [] else None)
            in bind_outcome (partial_header_new env config overrides None [] withdrawals) (\<lambda>ph.
                 Return (Inr (local_block_empty env (bc_hardfork config) ph)))))"

datatype block_validity_error =
    InvalidBlockNumber u64 u64
  | InvalidParentHash b256 b256
  | MissingWithdrawals

definition validate_next_block ::
  "l1_hardfork \<Rightarrow> 'w local_block \<Rightarrow> 'w local_block \<Rightarrow> block_validity_error + unit" where
  "validate_next_block hardfork last_block next_block =
     (let last_header = lb_header last_block;
          next_header = lb_header next_block;
          next_block_number = bh_number last_header + 1
      in if bh_number next_header \<noteq> next_block_number
         then Inl (InvalidBlockNumber (bh_number next_header) next_block_number)
         else if bh_parent_hash next_header \<noteq> lb_hash last_block
         then Inl (InvalidParentHash (bh_parent_hash next_header) (lb_hash last_block))
         else if SHANGHAI \<le> into_evm_spec hardfork \<and> bh_withdrawals_root next_header = None
         then Inl MissingWithdrawals
         else Inr ())"

section \<open>Properties\<close>

text \<open>A block built on the header the chain prescribes for its parent, with the parent's
  hash, passes the validity check of the next block, whatever transactions it holds and
  whatever the builder fills in besides its number, parent and withdrawals root.\<close>

theorem built_block_is_valid_next:
  assumes "partial_header_new env config ov (Some (lb_header parent)) ommers ws = Return ph"
    and "ho_number ov = None" and "ho_parent_hash ov = Some (lb_hash parent)"
    and "ph_number ph' = ph_number ph" "ph_parent_hash ph' = ph_parent_hash ph"
      "ph_withdrawals_root ph' = ph_withdrawals_root ph"
  shows "validate_next_block (bc_hardfork config) parent
    (local_block_new env root (bc_hardfork config) ph' txs receipts ommers' ws') = Inr ()"
proof -
  have "ph_number ph = bh_number (lb_header parent) + 1" "ph_parent_hash ph = lb_hash parent"
    "ph_withdrawals_root ph = since_fork (into_evm_spec (bc_hardfork config)) SHANGHAI (ho_withdrawals_root ov)
      (case ws of Some ws \<Rightarrow> he_withdrawals_root env ws | None \<Rightarrow> KECCAK_NULL_RLP)"
    using assms(1,2,3) by (auto simp: partial_header_new_def overridden_block_number_def unwrap_or_def Let_def)
  with assms(4,5,6) show ?thesis
    by (simp add: validate_next_block_def local_block_new_def header_new_def Let_def)
qed

definition sample_block :: "unit local_block" where
  "sample_block =
     \<lparr>lb_header = sample_header, lb_transactions = [], lb_transaction_receipts = [], lb_ommers = [],
      lb_ommer_hashes = [], lb_withdrawals = None, lb_hash = 7\<rparr>"

theorem built_block_is_valid_next_witness:
  "\<exists>ph. validate_next_block London sample_block
     (local_block_new sample_env (\<lambda>_. 0) London ph [] [] [] None) = Inr ()"
proof -
  have "\<exists>ph. partial_header_new sample_env (sample_config London) (no_overrides\<lparr>ho_parent_hash := Some 7\<rparr>)
      (Some (lb_header sample_block)) [] None = Return ph"
    by (rule partial_header_new_returns [where params = london_params])
      (simp_all add: no_overrides_def sample_config_def london_params_def sample_header_def
        sample_block_def spec_le_simps)
  then obtain ph where "partial_header_new sample_env (sample_config London)
      (no_overrides\<lparr>ho_parent_hash := Some 7\<rparr>) (Some (lb_header sample_block)) [] None = Return ph" by blast
  from built_block_is_valid_next [OF this, of ph "\<lambda>_. 0" "[]" "[]" "[]" None] show ?thesis
    by (auto simp: no_overrides_def sample_block_def sample_config_def)
qed

text \<open>Empty blocks, and so the genesis block and every reserved block, carry the hash of the
  empty string as their transactions root, not the root of an empty trie.\<close>

theorem empty_block_transactions_root:
  "bh_transactions_root (lb_header (local_block_empty env hardfork ph)) = KECCAK_EMPTY
   \<and> KECCAK_EMPTY \<noteq> KECCAK_NULL_RLP"
  by (simp add: local_block_empty_def header_new_def KECCAK_EMPTY_def KECCAK_NULL_RLP_def Let_def)

text \<open>Creating a genesis block fails exactly when, from the Merge on, no mix hash is given;
  otherwise the block has number zero, and the given state root.\<close>

theorem genesis_block_spec:
  assumes "with_genesis_state env state_root now config options = Return r"
  shows "case r of
      Inl e \<Rightarrow> MERGE \<le> into_evm_spec (bc_hardfork config) \<and> go_mix_hash options = None
    | Inr b \<Rightarrow> bh_number (lb_header b) = 0 \<and> bh_state_root (lb_header b) = state_root
        \<and> lb_transactions b = [] \<and> lb_hash b = he_header_hash env (lb_header b)"
  using assms
  by (auto simp: with_genesis_state_def local_block_empty_def header_new_def partial_header_new_def
      overridden_block_number_def overrides_from_genesis_def no_overrides_def unwrap_or_def Let_def
      split: if_splits)

theorem genesis_block_spec_witness:
  "\<exists>b. with_genesis_state sample_env 5 99 (sample_config London)
      \<lparr>go_extra_data = None, go_gas_limit = None, go_timestamp = None, go_mix_hash = None,
       go_base_fee = None, go_base_fee_params = None, go_blob_gas = None, go_withdrawals_root = None\<rparr>
      = Return (Inr b) \<and> bh_number (lb_header b) = 0 \<and> bh_state_root (lb_header b) = 5"
proof -
  let ?o = "\<lparr>go_extra_data = None, go_gas_limit = None, go_timestamp = None, go_mix_hash = None,
       go_base_fee = None, go_base_fee_params = None, go_blob_gas = None, go_withdrawals_root = None\<rparr>"
  obtain b where b: "with_genesis_state sample_env 5 99 (sample_config London) ?o = Return (Inr b)"
    by (simp add: with_genesis_state_def header_eval overrides_from_genesis_def spec_le_simps Let_def)
  from genesis_block_spec [OF b] b show ?thesis by simp
qed

end
