(* ===== verification/Sparse_Storage.thy ===== *)
theory Sparse_Storage
  imports Local_Block
begin

text \<open>
  The sparse block storage (\<^verbatim>\<open>crates/block/storage/src/sparse.rs\<close>): blocks of a chain, not
  necessarily adjacent, indexed by hash, number and transaction. \<open>number_to_block\<close>, the only
  map that is iterated, is an association list; the result does not depend on its order. The
  interface \<open>block_store\<close> states what an index of blocks promises its clients; it is
  interpreted here and for the contiguous storage.
\<close>

section \<open>The model\<close>

record 'w sparse_storage =
  ss_hash_to_block :: "b256 \<rightharpoonup> 'w local_block"
  ss_hash_to_total_difficulty :: "b256 \<rightharpoonup> u256"
  ss_number_to_block :: "(u64 \<times> 'w local_block) list"
  ss_transaction_hash_to_block :: "b256 \<rightharpoonup> 'w local_block"
  ss_transaction_hash_to_receipt :: "b256 \<rightharpoonup> block_receipt"

definition sparse_default :: "'w sparse_storage" where
  "sparse_default =
     \<lparr>ss_hash_to_block = Map.empty, ss_hash_to_total_difficulty = Map.empty, ss_number_to_block = [],
      ss_transaction_hash_to_block = Map.empty, ss_transaction_hash_to_receipt = Map.empty\<rparr>"

abbreviation block_number :: "'w local_block \<Rightarrow> u64" where
  "block_number b \<equiv> bh_number (lb_header b)"

definition tx_hashes :: "'w local_block \<Rightarrow> b256 list" where
  "tx_hashes b = map tx_hash (lb_transactions b)"

text \<open>\<open>extend\<close> with one pair per transaction of the block.\<close>

definition index_transactions :: "'w local_block \<Rightarrow> (b256 \<rightharpoonup> 'w local_block) \<Rightarrow> (b256 \<rightharpoonup> 'w local_block)" where
  "index_transactions b m = foldl (\<lambda>m h. m(h \<mapsto> b)) m (tx_hashes b)"

definition sparse_with_block :: "'w local_block \<Rightarrow> u256 \<Rightarrow> 'w sparse_storage" where
  "sparse_with_block b total_difficulty =
     \<lparr>ss_hash_to_block = Map.empty(lb_hash b \<mapsto> b),
      ss_hash_to_total_difficulty = Map.empty(lb_hash b \<mapsto> total_difficulty),
      ss_number_to_block = [(block_number b, b)],
      ss_transaction_hash_to_block = index_transactions b Map.empty,
      ss_transaction_hash_to_receipt = Map.empty\<rparr>"

datatype insert_block_error = DuplicateBlock b256 u64 | DuplicateTransaction b256
datatype insert_receipt_error = DuplicateReceipt b256

definition sparse_insert_block ::
  "'w sparse_storage \<Rightarrow> 'w local_block \<Rightarrow> u256
     \<Rightarrow> (insert_block_error + 'w local_block) \<times> 'w sparse_storage" where
  "sparse_insert_block s b total_difficulty =
     (if ss_hash_to_block s (lb_hash b) \<noteq> None
         \<or> ss_hash_to_total_difficulty s (lb_hash b) \<noteq> None
         \<or> map_of (ss_number_to_block s) (block_number b) \<noteq> None
      then (Inl (DuplicateBlock (lb_hash b) (block_number b)), s)
      else
        case find (\<lambda>h. ss_transaction_hash_to_block s h \<noteq> None) (tx_hashes b) of
          Some h \<Rightarrow> (Inl (DuplicateTransaction h), s)
        | None \<Rightarrow>
            (Inr b,
             s\<lparr>ss_transaction_hash_to_block := index_transactions b (ss_transaction_hash_to_block s),
               ss_hash_to_block := (ss_hash_to_block s)(lb_hash b \<mapsto> b),
               ss_hash_to_total_difficulty :=
                 (ss_hash_to_total_difficulty s)(lb_hash b \<mapsto> total_difficulty),
               ss_number_to_block := (block_number b, b) # ss_number_to_block s\<rparr>))"

text \<open>One removed block of \<open>revert_to_block\<close>.\<close>

definition sparse_remove_block :: "'w local_block \<Rightarrow> 'w sparse_storage \<Rightarrow> 'w sparse_storage" where
  "sparse_remove_block b s =
     s\<lparr>ss_hash_to_block := (ss_hash_to_block s)(lb_hash b := None),
       ss_hash_to_total_difficulty := (ss_hash_to_total_difficulty s)(lb_hash b := None),
       ss_transaction_hash_to_block :=
         foldl (\<lambda>m h. m(h := None)) (ss_transaction_hash_to_block s) (tx_hashes b),
       ss_transaction_hash_to_receipt :=
         foldl (\<lambda>m h. m(h := None)) (ss_transaction_hash_to_receipt s) (tx_hashes b)\<rparr>"

definition sparse_revert_to_block :: "'w sparse_storage \<Rightarrow> u64 \<Rightarrow> 'w sparse_storage" where
  "sparse_revert_to_block s n =
     (let removed = filter (\<lambda>(k, _). n < k) (ss_number_to_block s);
          s = s\<lparr>ss_number_to_block := filter (\<lambda>(k, _). \<not> n < k) (ss_number_to_block s)\<rparr>
      in foldl (\<lambda>s (_, b). sparse_remove_block b s) s removed)"

definition sparse_block_by_hash :: "'w sparse_storage \<Rightarrow> b256 \<Rightarrow> 'w local_block option" where
  "sparse_block_by_hash s h = ss_hash_to_block s h"

definition sparse_block_by_number :: "'w sparse_storage \<Rightarrow> u64 \<Rightarrow> 'w local_block option" where
  "sparse_block_by_number s n = map_of (ss_number_to_block s) n"

definition sparse_block_by_transaction_hash :: "'w sparse_storage \<Rightarrow> b256 \<Rightarrow> 'w local_block option" where
  "sparse_block_by_transaction_hash s h = ss_transaction_hash_to_block s h"

definition sparse_contains_block_number :: "'w sparse_storage \<Rightarrow> u64 \<Rightarrow> bool" where
  "sparse_contains_block_number s n \<longleftrightarrow> map_of (ss_number_to_block s) n \<noteq> None"

definition sparse_receipt_by_transaction_hash :: "'w sparse_storage \<Rightarrow> b256 \<Rightarrow> block_receipt option" where
  "sparse_receipt_by_transaction_hash s h = ss_transaction_hash_to_receipt s h"

definition sparse_total_difficulty_by_hash :: "'w sparse_storage \<Rightarrow> b256 \<Rightarrow> u256 option" where
  "sparse_total_difficulty_by_hash s h = ss_hash_to_total_difficulty s h"

definition sparse_insert_receipt ::
  "'w sparse_storage \<Rightarrow> block_receipt \<Rightarrow> (insert_receipt_error + block_receipt) \<times> 'w sparse_storage" where
  "sparse_insert_receipt s r =
     (if ss_transaction_hash_to_receipt s (receipt_hash r) \<noteq> None
      then (Inl (DuplicateReceipt (receipt_hash r)), s)
      else (Inr r, s\<lparr>ss_transaction_hash_to_receipt :=
                       (ss_transaction_hash_to_receipt s)(receipt_hash r \<mapsto> r)\<rparr>))"

definition sparse_insert_receipts ::
  "'w sparse_storage \<Rightarrow> block_receipt list \<Rightarrow> (insert_receipt_error + unit) \<times> 'w sparse_storage" where
  "sparse_insert_receipts s receipts =
     (case find (\<lambda>r. ss_transaction_hash_to_receipt s (receipt_hash r) \<noteq> None) receipts of
        Some r \<Rightarrow> (Inl (DuplicateReceipt (receipt_hash r)), s)
      | None \<Rightarrow>
          (Inr (), s\<lparr>ss_transaction_hash_to_receipt :=
             foldl (\<lambda>m r. m(receipt_hash r \<mapsto> r)) (ss_transaction_hash_to_receipt s) receipts\<rparr>))"

text \<open>\<open>logs\<close>: the inclusive range of block numbers is empty when it is reversed.\<close>

definition block_number_range :: "u64 \<Rightarrow> u64 \<Rightarrow> u64 list" where
  "block_number_range from_block to_block =
     map of_nat [unat from_block..<Suc (unat to_block)]"

definition matching_logs :: "address list \<Rightarrow> b256 list option list \<Rightarrow> block_receipt list \<Rightarrow> filter_log list" where
  "matching_logs addresses topics_filter receipts =
     concat (map (\<lambda>r. filter (\<lambda>l. matches_address_filter (el_address (fl_log l)) addresses
                                  \<and> matches_topics_filter (el_topics (fl_log l)) topics_filter)
                        (transaction_logs r)) receipts)"

definition sparse_logs ::
  "'w sparse_storage \<Rightarrow> u64 \<Rightarrow> u64 \<Rightarrow> address list \<Rightarrow> b256 list option list \<Rightarrow> filter_log list" where
  "sparse_logs s from_block to_block addresses topics_filter =
     concat (map (\<lambda>n. case sparse_block_by_number s n of
                        Some b \<Rightarrow> matching_logs addresses topics_filter (lb_transaction_receipts b)
                      | None \<Rightarrow> [])
                (block_number_range from_block to_block))"

section \<open>The block store interface\<close>

lemma option_eqI: "(\<And>b. x = Some b \<longleftrightarrow> y = Some b) \<Longrightarrow> x = y"
  by (cases x; cases y) auto

text \<open>
  An index of blocks: finding blocks by hash and by transaction, and inserting blocks with an
  unused hash and unused transactions.
\<close>

locale block_store =
  fixes inv :: "'s \<Rightarrow> bool"
    and blocks :: "'s \<Rightarrow> 'b set"
    and hash_of :: "'b \<Rightarrow> b256"
    and txs_of :: "'b \<Rightarrow> b256 list"
    and by_hash :: "'s \<Rightarrow> b256 \<Rightarrow> 'b option"
    and by_tx :: "'s \<Rightarrow> b256 \<Rightarrow> 'b option"
    and insert_block :: "'s \<Rightarrow> 'b \<Rightarrow> u256 \<Rightarrow> (insert_block_error + 'b) \<times> 's"
  assumes by_hash_iff: "inv s \<Longrightarrow> by_hash s h = Some b \<longleftrightarrow> b \<in> blocks s \<and> hash_of b = h"
    and by_tx_iff: "inv s \<Longrightarrow> by_tx s h = Some b \<longleftrightarrow> b \<in> blocks s \<and> h \<in> set (txs_of b)"
    and insert_ok: "inv s \<Longrightarrow> insert_block s b d = (Inr b', s') \<Longrightarrow>
      b' = b \<and> inv s' \<and> blocks s' = insert b (blocks s)"
    and insert_err: "insert_block s b d = (Inl e, s') \<Longrightarrow> s' = s"
    and insert_known: "inv s \<Longrightarrow> b \<in> blocks s \<Longrightarrow> \<exists>e. insert_block s b d = (Inl e, s)"
begin

lemma find_inserted:
  assumes "inv s" and "insert_block s b d = (Inr b', s')"
  shows "by_hash s' (hash_of b) = Some b" and "h \<in> set (txs_of b) \<Longrightarrow> by_tx s' h = Some b"
  using assms insert_ok [OF assms] by (auto simp: by_hash_iff by_tx_iff)

lemma find_others:
  assumes "inv s" and "insert_block s b d = (Inr b', s')" and "by_hash s h = Some c"
  shows "by_hash s' h = Some c"
  using assms insert_ok [OF assms(1,2)] by (auto simp: by_hash_iff)

lemma find_only:
  assumes "inv s" and "insert_block s b d = (Inr b', s')" and "h \<noteq> hash_of b"
  shows "by_hash s' h = by_hash s h"
  using assms insert_ok [OF assms(1,2)] by (intro option_eqI) (auto simp: by_hash_iff)

lemma insert_twice:
  assumes "inv s" and "insert_block s b d = (Inr b', s')"
  shows "\<exists>e. insert_block s' b d' = (Inl e, s')"
  using insert_ok [OF assms] insert_known [of s' b d'] by blast

end

section \<open>The invariant of the sparse storage\<close>

definition sparse_blocks :: "'w sparse_storage \<Rightarrow> 'w local_block set" where
  "sparse_blocks s = snd ` set (ss_number_to_block s)"

definition sparse_inv :: "'w sparse_storage \<Rightarrow> bool" where
  "sparse_inv s \<longleftrightarrow>
     distinct (map fst (ss_number_to_block s))
     \<and> (\<forall>(n, b) \<in> set (ss_number_to_block s). block_number b = n)
     \<and> (\<forall>h b. ss_hash_to_block s h = Some b \<longleftrightarrow> b \<in> sparse_blocks s \<and> lb_hash b = h)
     \<and> dom (ss_hash_to_total_difficulty s) = dom (ss_hash_to_block s)
     \<and> (\<forall>h b. ss_transaction_hash_to_block s h = Some b \<longleftrightarrow> b \<in> sparse_blocks s \<and> h \<in> set (tx_hashes b))"

lemma sparse_invD:
  assumes "sparse_inv s"
  shows "distinct (map fst (ss_number_to_block s))"
    and "(n, b) \<in> set (ss_number_to_block s) \<Longrightarrow> block_number b = n"
    and "ss_hash_to_block s h = Some b \<longleftrightarrow> b \<in> sparse_blocks s \<and> lb_hash b = h"
    and "dom (ss_hash_to_total_difficulty s) = dom (ss_hash_to_block s)"
    and "ss_transaction_hash_to_block s h = Some b \<longleftrightarrow> b \<in> sparse_blocks s \<and> h \<in> set (tx_hashes b)"
  using assms unfolding sparse_inv_def by blast+

lemma sparse_by_number_iff:
  assumes "sparse_inv s"
  shows "sparse_block_by_number s n = Some b \<longleftrightarrow> b \<in> sparse_blocks s \<and> block_number b = n"
proof -
  have "map_of (ss_number_to_block s) n = Some b \<longleftrightarrow> (n, b) \<in> set (ss_number_to_block s)"
    using sparse_invD(1) [OF assms] by (rule map_of_eq_Some_iff)
  also have "\<dots> \<longleftrightarrow> b \<in> sparse_blocks s \<and> block_number b = n"
    using sparse_invD(2) [OF assms] by (force simp: sparse_blocks_def)
  finally show ?thesis by (simp add: sparse_block_by_number_def)
qed

lemma index_transactions_apply:
  "index_transactions b m h = (if h \<in> set (tx_hashes b) then Some b else m h)"
proof -
  have "foldl (\<lambda>m h. m(h \<mapsto> b)) m hs h = (if h \<in> set hs then Some b else m h)" for hs
    by (induction hs arbitrary: m) auto
  then show ?thesis by (simp add: index_transactions_def)
qed

lemma foldl_remove_apply: "foldl (\<lambda>m h. m(h := None)) m hs h = (if h \<in> set hs then None else m h)"
  by (induction hs arbitrary: m) auto

lemma sparse_inv_default: "sparse_inv sparse_default"
  by (simp add: sparse_inv_def sparse_default_def sparse_blocks_def)

lemma sparse_inv_with_block: "sparse_inv (sparse_with_block b d)"
  by (simp add: sparse_inv_def sparse_with_block_def sparse_blocks_def index_transactions_apply) auto

lemma sparse_insert_ok:
  assumes inv: "sparse_inv s" and ins: "sparse_insert_block s b d = (Inr b', s')"
  shows "b' = b" and "sparse_inv s'" and "sparse_blocks s' = insert b (sparse_blocks s)"
    and "block_number b \<notin> block_number ` sparse_blocks s"
proof -
  note I = sparse_invD [OF inv]
  from ins have fresh: "ss_hash_to_block s (lb_hash b) = None"
    "map_of (ss_number_to_block s) (block_number b) = None"
    and txs: "find (\<lambda>h. ss_transaction_hash_to_block s h \<noteq> None) (tx_hashes b) = None"
    and b': "b' = b" and s': "s' = s\<lparr>
      ss_transaction_hash_to_block := index_transactions b (ss_transaction_hash_to_block s),
      ss_hash_to_block := (ss_hash_to_block s)(lb_hash b \<mapsto> b),
      ss_hash_to_total_difficulty := (ss_hash_to_total_difficulty s)(lb_hash b \<mapsto> d),
      ss_number_to_block := (block_number b, b) # ss_number_to_block s\<rparr>"
    by (auto simp: sparse_insert_block_def split: if_splits option.splits)
  have blocks: "sparse_blocks s' = insert b (sparse_blocks s)" by (simp add: s' sparse_blocks_def)
  have nh: "lb_hash c \<noteq> lb_hash b" if "c \<in> sparse_blocks s" for c
    using that fresh(1) I(3) [of "lb_hash c" c] by auto
  have nt: "ss_transaction_hash_to_block s h = None" if "h \<in> set (tx_hashes b)" for h
    using txs that by (auto simp: find_None_iff)
  then have ntb: "h \<notin> set (tx_hashes c)" if "h \<in> set (tx_hashes b)" "c \<in> sparse_blocks s" for h c
    using that I(5) [of h c] by auto
  have keys: "block_number b \<notin> fst ` set (ss_number_to_block s)"
    using fresh(2) by (simp add: map_of_eq_None_iff)
  have "ss_hash_to_block s' h = Some c \<longleftrightarrow> c \<in> sparse_blocks s' \<and> lb_hash c = h" for h c
    using I(3) [of h c] nh by (auto simp: s' blocks [unfolded s'])
  moreover have "ss_transaction_hash_to_block s' h = Some c \<longleftrightarrow> c \<in> sparse_blocks s' \<and> h \<in> set (tx_hashes c)" for h c
    using I(5) [of h c] ntb by (auto simp: s' blocks [unfolded s'] index_transactions_apply)
  moreover have "distinct (map fst (ss_number_to_block s'))"
    "\<forall>(n, b) \<in> set (ss_number_to_block s'). block_number b = n"
    using I(1,2) keys by (auto simp: s')
  moreover have "dom (ss_hash_to_total_difficulty s') = dom (ss_hash_to_block s')"
    using I(4) by (simp add: s')
  ultimately show "sparse_inv s'" unfolding sparse_inv_def by blast
  show "block_number b \<notin> block_number ` sparse_blocks s"
    using keys I(2) by (force simp: sparse_blocks_def)
  show "b' = b" "sparse_blocks s' = insert b (sparse_blocks s)" using b' blocks by auto
qed

lemma sparse_insert_err: "sparse_insert_block s b d = (Inl e, s') \<Longrightarrow> s' = s"
  by (auto simp: sparse_insert_block_def split: if_splits option.splits)

interpretation sparse: block_store sparse_inv sparse_blocks lb_hash tx_hashes
    sparse_block_by_hash sparse_block_by_transaction_hash sparse_insert_block
proof (unfold_locales, goal_cases)
  case (1 s h b)
  then show ?case by (simp add: sparse_block_by_hash_def sparse_invD(3))
next
  case (2 s h b)
  then show ?case by (simp add: sparse_block_by_transaction_hash_def sparse_invD(5))
next
  case (3 s b d b' s')
  then show ?case using sparse_insert_ok by blast
next
  case (4 s b d e s')
  then show ?case by (rule sparse_insert_err)
next
  case (5 s b d)
  then have "ss_hash_to_block s (lb_hash b) = Some b" by (simp add: sparse_invD(3))
  then show ?case by (simp add: sparse_insert_block_def)
qed

section \<open>Reverting\<close>

lemma foldl_sparse_remove:
  "ss_number_to_block (foldl (\<lambda>s (_, b). sparse_remove_block b s) s rs) = ss_number_to_block s"
  "ss_hash_to_block (foldl (\<lambda>s (_, b). sparse_remove_block b s) s rs) h =
     (if h \<in> lb_hash ` snd ` set rs then None else ss_hash_to_block s h)"
  "ss_hash_to_total_difficulty (foldl (\<lambda>s (_, b). sparse_remove_block b s) s rs) h =
     (if h \<in> lb_hash ` snd ` set rs then None else ss_hash_to_total_difficulty s h)"
  "ss_transaction_hash_to_block (foldl (\<lambda>s (_, b). sparse_remove_block b s) s rs) h =
     (if \<exists>b \<in> snd ` set rs. h \<in> set (tx_hashes b) then None else ss_transaction_hash_to_block s h)"
  "ss_transaction_hash_to_receipt (foldl (\<lambda>s (_, b). sparse_remove_block b s) s rs) h =
     (if \<exists>b \<in> snd ` set rs. h \<in> set (tx_hashes b) then None else ss_transaction_hash_to_receipt s h)"
  by (induction rs arbitrary: s) (auto simp: sparse_remove_block_def foldl_remove_apply)

lemma sparse_revert_blocks:
  assumes "sparse_inv s"
  shows "sparse_blocks (sparse_revert_to_block s n) = {b \<in> sparse_blocks s. block_number b \<le> n}"
  using sparse_invD(2) [OF assms]
  by (force simp: sparse_blocks_def sparse_revert_to_block_def Let_def foldl_sparse_remove not_less)

lemma sparse_revert_inv:
  assumes inv: "sparse_inv s"
  shows "sparse_inv (sparse_revert_to_block s n)"
proof -
  note I = sparse_invD [OF inv]
  define rs where "rs = filter (\<lambda>(k, _). n < k) (ss_number_to_block s)"
  define s1 where "s1 = s\<lparr>ss_number_to_block := filter (\<lambda>(k, _). \<not> n < k) (ss_number_to_block s)\<rparr>"
  have eq: "sparse_revert_to_block s n = foldl (\<lambda>s (_, b). sparse_remove_block b s) s1 rs"
    by (simp add: sparse_revert_to_block_def rs_def s1_def Let_def)
  note F = foldl_sparse_remove [of s1 rs, folded eq]
  have gone: "b \<in> snd ` set rs \<longleftrightarrow> b \<in> sparse_blocks s \<and> n < block_number b" for b
    using I(2) by (force simp: rs_def sparse_blocks_def)
  have left: "b \<in> sparse_blocks (sparse_revert_to_block s n) \<longleftrightarrow> b \<in> sparse_blocks s \<and> \<not> n < block_number b" for b
    unfolding sparse_revert_blocks [OF inv] by auto
  have "ss_hash_to_block (sparse_revert_to_block s n) h = Some b \<longleftrightarrow>
      b \<in> sparse_blocks (sparse_revert_to_block s n) \<and> lb_hash b = h" for h b
  proof -
    have "h \<in> lb_hash ` snd ` set rs \<longleftrightarrow> n < block_number b" if "b \<in> sparse_blocks s" "lb_hash b = h"
      using that gone I(3) by (metis (no_types, lifting) image_iff option.inject)
    then show ?thesis unfolding F left using I(3) [of h b] by (auto simp: s1_def)
  qed
  moreover have "ss_transaction_hash_to_block (sparse_revert_to_block s n) h = Some b \<longleftrightarrow>
      b \<in> sparse_blocks (sparse_revert_to_block s n) \<and> h \<in> set (tx_hashes b)" for h b
  proof -
    have "(\<exists>c \<in> snd ` set rs. h \<in> set (tx_hashes c)) \<longleftrightarrow> n < block_number b"
      if "b \<in> sparse_blocks s" "h \<in> set (tx_hashes b)"
      using that gone I(5) by (metis option.inject)
    then show ?thesis unfolding F left using I(5) [of h b] by (auto simp: s1_def)
  qed
  moreover have "distinct (map fst (ss_number_to_block (sparse_revert_to_block s n)))"
    "\<forall>(k, b) \<in> set (ss_number_to_block (sparse_revert_to_block s n)). block_number b = k"
    unfolding F using I(1,2) by (auto simp: s1_def distinct_map_filter)
  moreover have "dom (ss_hash_to_total_difficulty (sparse_revert_to_block s n))
      = dom (ss_hash_to_block (sparse_revert_to_block s n))"
    using I(4) by (auto simp: F s1_def dom_def set_eq_iff split: if_splits)
  ultimately show ?thesis unfolding sparse_inv_def by blast
qed

section \<open>Properties\<close>

text \<open>Inserting a block either fails and changes nothing, or makes it retrievable by its
  number, its hash and each of its transactions, and leaves the blocks under all other hashes
  as they were. It keeps the indices consistent, and inserting the block again fails.\<close>

theorem sparse_insert_lookup:
  assumes "sparse_inv s" and "sparse_insert_block s b d = (r, s')"
  shows "sparse_inv s' \<and> (case r of
      Inl e \<Rightarrow> s' = s
    | Inr b' \<Rightarrow> sparse_block_by_number s' (block_number b) = Some b
        \<and> sparse_block_by_hash s' (lb_hash b) = Some b
        \<and> (\<forall>h. h \<in> set (tx_hashes b) \<longrightarrow> sparse_block_by_transaction_hash s' h = Some b)
        \<and> (\<forall>h. h \<noteq> lb_hash b \<longrightarrow> sparse_block_by_hash s' h = sparse_block_by_hash s h)
        \<and> (\<exists>e. sparse_insert_block s' b d = (Inl e, s')))"
proof (cases r)
  case (Inl e)
  with assms(2) have "s' = s" using sparse_insert_err [of s b d e s'] by simp
  with Inl assms(1) show ?thesis by simp
next
  case (Inr b')
  with assms(2) have ins: "sparse_insert_block s b d = (Inr b', s')" by simp
  note ok = sparse_insert_ok [OF assms(1) ins]
  from ok have "sparse_block_by_number s' (block_number b) = Some b"
    by (simp add: sparse_by_number_iff)
  with Inr ok(2) sparse.find_inserted [OF assms(1) ins] sparse.find_only [OF assms(1) ins]
    sparse.insert_twice [OF assms(1) ins] show ?thesis by auto
qed

theorem sparse_insert_lookup_witness:
  "sparse_block_by_number (snd (sparse_insert_block sparse_default sample_block 5)) 7 = Some sample_block"
  using sparse_insert_lookup [OF sparse_inv_default, of sample_block 5
      "fst (sparse_insert_block sparse_default sample_block 5)"
      "snd (sparse_insert_block sparse_default sample_block 5)"]
  by (simp add: sparse_insert_block_def sparse_default_def tx_hashes_def sample_block_def sample_header_def)

text \<open>Reverting to a block number removes exactly the later blocks from every index, with
  their transactions and receipts, and nothing else.\<close>

theorem sparse_revert_exact:
  assumes "sparse_inv s" and "s' = sparse_revert_to_block s n"
  shows "sparse_inv s'
    \<and> (\<forall>k. sparse_block_by_number s' k = (if k \<le> n then sparse_block_by_number s k else None))
    \<and> (\<forall>h b. sparse_block_by_hash s' h = Some b \<longleftrightarrow> sparse_block_by_hash s h = Some b \<and> block_number b \<le> n)
    \<and> (\<forall>h b. sparse_block_by_transaction_hash s' h = Some b \<longleftrightarrow>
         sparse_block_by_transaction_hash s h = Some b \<and> block_number b \<le> n)
    \<and> (\<forall>h b. sparse_block_by_transaction_hash s h = Some b \<and> n < block_number b \<longrightarrow>
         sparse_receipt_by_transaction_hash s' h = None)"
proof -
  have inv: "sparse_inv s'" using assms sparse_revert_inv by blast
  have blocks: "sparse_blocks s' = {b \<in> sparse_blocks s. block_number b \<le> n}"
    using assms sparse_revert_blocks by blast
  have num: "sparse_block_by_number s' k = (if k \<le> n then sparse_block_by_number s k else None)" for k
    using assms(1) inv blocks by (intro option_eqI) (auto simp: sparse_by_number_iff)
  have rc: "sparse_receipt_by_transaction_hash s' h = None"
    if "sparse_block_by_transaction_hash s h = Some b" "n < block_number b" for h b
  proof -
    from that(1) have b: "b \<in> sparse_blocks s" "h \<in> set (tx_hashes b)"
      using sparse.by_tx_iff [OF assms(1)] by auto
    with sparse_invD(2) [OF assms(1)] that(2)
    have "b \<in> snd ` set (filter (\<lambda>(k, _). n < k) (ss_number_to_block s))"
      by (force simp: sparse_blocks_def)
    with b(2) show ?thesis
      by (auto simp: assms(2) sparse_receipt_by_transaction_hash_def sparse_revert_to_block_def Let_def
          foldl_sparse_remove)
  qed
  from inv num rc assms(1) blocks show ?thesis
    by (auto simp: sparse.by_hash_iff sparse.by_tx_iff)
qed

theorem sparse_revert_exact_witness:
  "sparse_block_by_number (sparse_revert_to_block (sparse_with_block sample_block 5) 3) 7 = None
   \<and> sparse_block_by_number (sparse_revert_to_block (sparse_with_block sample_block 5) 9) 7 = Some sample_block"
proof -
  have "sparse_block_by_number (sparse_with_block sample_block 5) 7 = Some sample_block"
    by (simp add: sparse_block_by_number_def sparse_with_block_def sample_block_def sample_header_def)
  then show ?thesis
    using sparse_revert_exact [OF sparse_inv_with_block refl, of sample_block 5 3]
      sparse_revert_exact [OF sparse_inv_with_block refl, of sample_block 5 9] by simp
qed

text \<open>A log query returns exactly the logs of the stored blocks in the range whose address
  and topics match.\<close>

theorem sparse_logs_exact:
  assumes "sparse_inv s"
  shows "l \<in> set (sparse_logs s from_block to_block addresses topics_filter) \<longleftrightarrow>
    (\<exists>b r. b \<in> sparse_blocks s \<and> from_block \<le> block_number b \<and> block_number b \<le> to_block
       \<and> r \<in> set (lb_transaction_receipts b) \<and> l \<in> set (transaction_logs r)
       \<and> matches_address_filter (el_address (fl_log l)) addresses
       \<and> matches_topics_filter (el_topics (fl_log l)) topics_filter)"
proof -
  have rng: "n \<in> set (block_number_range from_block to_block) \<longleftrightarrow> from_block \<le> n \<and> n \<le> to_block" for n
  proof -
    have "n \<in> of_nat ` {unat from_block..<Suc (unat to_block)} \<longleftrightarrow> unat from_block \<le> unat n \<and> unat n \<le> unat to_block"
    proof
      assume "n \<in> of_nat ` {unat from_block..<Suc (unat to_block)}"
      then obtain k where k: "n = of_nat k" "unat from_block \<le> k" "k \<le> unat to_block" by auto
      then have "k < 2 ^ 64" using unat_u64_less [of to_block] by linarith
      then have "unat n = k" unfolding k(1) by (simp add: unat_of_nat take_bit_nat_eq_self)
      with k show "unat from_block \<le> unat n \<and> unat n \<le> unat to_block" by simp
    next
      assume "unat from_block \<le> unat n \<and> unat n \<le> unat to_block"
      then show "n \<in> of_nat ` {unat from_block..<Suc (unat to_block)}"
        by (intro image_eqI [of _ _ "unat n"]) simp_all
    qed
    then show ?thesis by (simp only: block_number_range_def set_map set_upt word_le_nat_alt)
  qed
  define ok where "ok r \<longleftrightarrow> l \<in> set (transaction_logs r)
    \<and> matches_address_filter (el_address (fl_log l)) addresses
    \<and> matches_topics_filter (el_topics (fl_log l)) topics_filter" for r
  have m: "l \<in> set (matching_logs addresses topics_filter rs) \<longleftrightarrow> (\<exists>r \<in> set rs. ok r)" for rs
    by (auto simp: matching_logs_def ok_def)
  have "l \<in> set (case x of Some b \<Rightarrow> matching_logs addresses topics_filter (lb_transaction_receipts b)
        | None \<Rightarrow> []) \<longleftrightarrow> (\<exists>b. x = Some b \<and> (\<exists>r \<in> set (lb_transaction_receipts b). ok r))"
    for x :: "'a local_block option" by (cases x) (simp_all add: m)
  then have "l \<in> set (sparse_logs s from_block to_block addresses topics_filter) \<longleftrightarrow>
      (\<exists>n. (from_block \<le> n \<and> n \<le> to_block) \<and>
         (\<exists>b. sparse_block_by_number s n = Some b \<and> (\<exists>r \<in> set (lb_transaction_receipts b). ok r)))"
    by (simp add: sparse_logs_def rng Bex_def)
  then show ?thesis unfolding sparse_by_number_iff [OF assms] ok_def by blast
qed

theorem sparse_logs_exact_witness:
  "sparse_logs (sparse_with_block sample_block 5) 0 100 [] [] = []"
proof -
  have "l \<notin> set (sparse_logs (sparse_with_block sample_block 5) 0 100 [] [])" for l
    using sparse_logs_exact [OF sparse_inv_with_block [of sample_block 5], of l 0 100 "[]" "[]"]
    by (simp add: sparse_blocks_def) (simp add: sparse_with_block_def sample_block_def)
  then show ?thesis using last_in_set by blast
qed

end
