(* ===== verification/Contiguous_Storage.thy ===== *)
theory Contiguous_Storage
  imports Sparse_Storage
begin

text \<open>
  The contiguous block storage (\<^verbatim>\<open>crates/block/storage/src/contiguous.rs\<close>): the blocks of a chain
  without gaps in a vector, with indices by hash and by transaction. It provides the same
  block store interface as the sparse storage, but its revert does not keep it.
\<close>

section \<open>The model\<close>

record 'w contiguous_storage =
  cs_blocks :: "'w local_block list"
  cs_hash_to_block :: "b256 \<rightharpoonup> 'w local_block"
  cs_total_difficulties :: "u256 list"
  cs_transaction_hash_to_block :: "b256 \<rightharpoonup> 'w local_block"
  cs_transaction_hash_to_receipt :: "b256 \<rightharpoonup> block_receipt"

definition contiguous_block_by_hash :: "'w contiguous_storage \<Rightarrow> b256 \<Rightarrow> 'w local_block option" where
  "contiguous_block_by_hash s h = cs_hash_to_block s h"

definition contiguous_block_by_transaction_hash ::
  "'w contiguous_storage \<Rightarrow> b256 \<Rightarrow> 'w local_block option" where
  "contiguous_block_by_transaction_hash s h = cs_transaction_hash_to_block s h"

definition contiguous_receipt_by_transaction_hash ::
  "'w contiguous_storage \<Rightarrow> b256 \<Rightarrow> block_receipt option" where
  "contiguous_receipt_by_transaction_hash s h = cs_transaction_hash_to_receipt s h"

text \<open>The body of the loop over the removed blocks.\<close>

definition contiguous_forget :: "'w contiguous_storage \<Rightarrow> 'w local_block \<Rightarrow> 'w contiguous_storage" where
  "contiguous_forget s b =
     s\<lparr>cs_hash_to_block := (cs_hash_to_block s)(lb_hash b := None),
       cs_transaction_hash_to_block := (cs_transaction_hash_to_block s)(lb_hash b := None),
       cs_transaction_hash_to_receipt := (cs_transaction_hash_to_receipt s)(lb_hash b := None)\<rparr>"

definition contiguous_revert_to_block ::
  "'w contiguous_storage \<Rightarrow> u256 \<Rightarrow> (bool \<times> 'w contiguous_storage) outcome" where
  "contiguous_revert_to_block s number =
     (if \<not> unat number < 2 ^ 64 then Panic
      else Return
        (case cs_blocks s of
           [] \<Rightarrow> (False, s)
         | first # _ \<Rightarrow>
             (let first_number = unat (block_number first)
              in if unat number < first_number then (False, s)
                 else
                   (let block_index = unat number - first_number
                    in if length (cs_blocks s) \<le> block_index then (False, s)
                       else
                         (True,
                          foldl contiguous_forget
                            (s\<lparr>cs_total_difficulties := take (block_index + 1) (cs_total_difficulties s),
                               cs_blocks := take (block_index + 1) (cs_blocks s)\<rparr>)
                            (drop (block_index + 1) (cs_blocks s)))))))"

text \<open>The index into the difficulties is not checked; out of range it is undefined behaviour.\<close>

definition contiguous_total_difficulty_by_hash ::
  "'w contiguous_storage \<Rightarrow> b256 \<Rightarrow> u256 option outcome" where
  "contiguous_total_difficulty_by_hash s h =
     (case cs_hash_to_block s h of
        None \<Rightarrow> Return None
      | Some b \<Rightarrow>
          (case cs_blocks s of
             [] \<Rightarrow> Panic
           | first # _ \<Rightarrow>
               (let local_block_number = unat (block_number b - block_number first)
                in if local_block_number < length (cs_total_difficulties s)
                   then Return (Some (cs_total_difficulties s ! local_block_number))
                   else Panic)))"

definition index_receipts :: "'w local_block \<Rightarrow> (b256 \<rightharpoonup> block_receipt) \<Rightarrow> (b256 \<rightharpoonup> block_receipt)" where
  "index_receipts b m = foldl (\<lambda>m r. m(receipt_hash r \<mapsto> r)) m (lb_transaction_receipts b)"

definition contiguous_with_block :: "'w local_block \<Rightarrow> u256 \<Rightarrow> 'w contiguous_storage" where
  "contiguous_with_block b total_difficulty =
     \<lparr>cs_blocks = [b],
      cs_hash_to_block = Map.empty(lb_hash b \<mapsto> b),
      cs_total_difficulties = [total_difficulty],
      cs_transaction_hash_to_block = index_transactions b Map.empty,
      cs_transaction_hash_to_receipt = index_receipts b Map.empty\<rparr>"

definition contiguous_insert_block_unchecked ::
  "'w contiguous_storage \<Rightarrow> 'w local_block \<Rightarrow> u256 \<Rightarrow> 'w contiguous_storage" where
  "contiguous_insert_block_unchecked s b total_difficulty =
     s\<lparr>cs_transaction_hash_to_receipt := index_receipts b (cs_transaction_hash_to_receipt s),
       cs_transaction_hash_to_block := index_transactions b (cs_transaction_hash_to_block s),
       cs_blocks := cs_blocks s @ [b],
       cs_total_difficulties := cs_total_difficulties s @ [total_difficulty],
       cs_hash_to_block := (cs_hash_to_block s)(lb_hash b \<mapsto> b)\<rparr>"

definition contiguous_insert_block ::
  "'w contiguous_storage \<Rightarrow> 'w local_block \<Rightarrow> u256
     \<Rightarrow> (insert_block_error + 'w local_block) \<times> 'w contiguous_storage" where
  "contiguous_insert_block s b total_difficulty =
     (if cs_hash_to_block s (lb_hash b) \<noteq> None
      then (Inl (DuplicateBlock (lb_hash b) (block_number b)), s)
      else
        case find (\<lambda>h. cs_transaction_hash_to_block s h \<noteq> None) (tx_hashes b) of
          Some h \<Rightarrow> (Inl (DuplicateTransaction h), s)
        | None \<Rightarrow> (Inr b, contiguous_insert_block_unchecked s b total_difficulty))"

section \<open>The block store interface\<close>

definition contiguous_blocks :: "'w contiguous_storage \<Rightarrow> 'w local_block set" where
  "contiguous_blocks s = set (cs_blocks s)"

definition contiguous_inv :: "'w contiguous_storage \<Rightarrow> bool" where
  "contiguous_inv s \<longleftrightarrow>
     length (cs_total_difficulties s) = length (cs_blocks s)
     \<and> distinct (cs_blocks s)
     \<and> (\<forall>h b. cs_hash_to_block s h = Some b \<longleftrightarrow> b \<in> set (cs_blocks s) \<and> lb_hash b = h)
     \<and> (\<forall>h b. cs_transaction_hash_to_block s h = Some b \<longleftrightarrow> b \<in> set (cs_blocks s) \<and> h \<in> set (tx_hashes b))"

lemma contiguous_inv_with_block: "contiguous_inv (contiguous_with_block b d)"
  by (auto simp: contiguous_inv_def contiguous_with_block_def index_transactions_apply)

lemma contiguous_insert_ok:
  assumes inv: "contiguous_inv s" and ins: "contiguous_insert_block s b d = (Inr b', s')"
  shows "b' = b \<and> contiguous_inv s' \<and> contiguous_blocks s' = insert b (contiguous_blocks s)"
proof -
  from ins have fresh: "cs_hash_to_block s (lb_hash b) = None"
    and txs: "find (\<lambda>h. cs_transaction_hash_to_block s h \<noteq> None) (tx_hashes b) = None"
    and b': "b' = b" and s': "s' = contiguous_insert_block_unchecked s b d"
    by (auto simp: contiguous_insert_block_def split: if_splits option.splits)
  have H: "cs_hash_to_block s h = Some c \<longleftrightarrow> c \<in> set (cs_blocks s) \<and> lb_hash c = h"
    and T: "cs_transaction_hash_to_block s h = Some c \<longleftrightarrow> c \<in> set (cs_blocks s) \<and> h \<in> set (tx_hashes c)" for h c
    using inv unfolding contiguous_inv_def by blast+
  have nh: "lb_hash c \<noteq> lb_hash b" if "c \<in> set (cs_blocks s)" for c
    using that fresh H [of "lb_hash c" c] by auto
  have nt: "h \<notin> set (tx_hashes c)" if "h \<in> set (tx_hashes b)" "c \<in> set (cs_blocks s)" for h c
    using txs that T [of h c] by (auto simp: find_None_iff)
  have "contiguous_inv s'"
    unfolding contiguous_inv_def s' contiguous_insert_block_unchecked_def
    using inv nh nt H T by (auto simp: contiguous_inv_def index_transactions_apply)
  with b' show ?thesis
    by (simp add: s' contiguous_blocks_def contiguous_insert_block_unchecked_def)
qed

interpretation contiguous: block_store contiguous_inv contiguous_blocks lb_hash tx_hashes
    contiguous_block_by_hash contiguous_block_by_transaction_hash contiguous_insert_block
proof (unfold_locales, goal_cases)
  case (1 s h b)
  then show ?case by (simp add: contiguous_block_by_hash_def contiguous_inv_def contiguous_blocks_def)
next
  case (2 s h b)
  then show ?case
    by (simp add: contiguous_block_by_transaction_hash_def contiguous_inv_def contiguous_blocks_def)
next
  case (3 s b d b' s')
  then show ?case by (rule contiguous_insert_ok)
next
  case (4 s b d e s')
  then show ?case by (auto simp: contiguous_insert_block_def split: if_splits option.splits)
next
  case (5 s b d)
  then have "cs_hash_to_block s (lb_hash b) = Some b" by (simp add: contiguous_inv_def contiguous_blocks_def)
  then show ?case by (simp add: contiguous_insert_block_def)
qed

section \<open>Properties\<close>

text \<open>The blocks are numbered without gaps.\<close>

definition contiguous_numbers :: "'w contiguous_storage \<Rightarrow> bool" where
  "contiguous_numbers s \<longleftrightarrow>
     (\<forall>i < length (cs_blocks s). unat (block_number (cs_blocks s ! i)) = unat (block_number (hd (cs_blocks s))) + i)"

text \<open>In a well-formed contiguous storage the total difficulty of a block is found by its
  hash, at the block's position, without a read out of bounds.\<close>

theorem contiguous_total_difficulty:
  assumes "contiguous_inv s" and "contiguous_numbers s" and "i < length (cs_blocks s)"
  shows "contiguous_total_difficulty_by_hash s (lb_hash (cs_blocks s ! i)) = Return (Some (cs_total_difficulties s ! i))"
proof -
  obtain first rest where f: "cs_blocks s = first # rest" using assms(3) by (cases "cs_blocks s") auto
  have "cs_hash_to_block s (lb_hash (cs_blocks s ! i)) = Some (cs_blocks s ! i)"
    using assms(1,3) by (simp add: contiguous_inv_def)
  moreover have n: "unat (block_number (cs_blocks s ! i)) = unat (block_number first) + i"
    using assms(2,3) by (simp add: contiguous_numbers_def f)
  then have "unat (block_number (cs_blocks s ! i) - block_number first) = i"
    by (simp add: unat_sub_le word_le_nat_alt)
  moreover have "i < length (cs_total_difficulties s)"
    using assms(1,3) by (simp add: contiguous_inv_def)
  ultimately show ?thesis
    unfolding contiguous_total_difficulty_by_hash_def by (simp add: f Let_def del: nth_Cons)
qed

theorem contiguous_total_difficulty_witness:
  "contiguous_total_difficulty_by_hash (contiguous_with_block sample_block 5) 7 = Return (Some 5)"
  using contiguous_total_difficulty [OF contiguous_inv_with_block, of sample_block 5 0]
  by (simp add: contiguous_numbers_def contiguous_with_block_def sample_block_def)

text \<open>Reverting the contiguous storage leaves the transactions of the removed blocks in its
  index: the storage still finds the removed block, and refuses to insert it again.\<close>

theorem contiguous_revert_keeps_transactions:
  "\<exists>(s :: unit contiguous_storage) b d s'. contiguous_inv s \<and> contiguous_numbers s \<and> b \<in> contiguous_blocks s
     \<and> contiguous_revert_to_block s 7 = Return (True, s') \<and> b \<notin> contiguous_blocks s'
     \<and> contiguous_block_by_transaction_hash s' 77 = Some b
     \<and> contiguous_insert_block s' b d = (Inl (DuplicateTransaction 77), s')"
proof -
  define b where "b = sample_block\<lparr>lb_header := sample_header\<lparr>bh_number := 8\<rparr>,
    lb_transactions := [sample_tx 1 5 100 77], lb_hash := 8\<rparr>"
  define s where "s = contiguous_insert_block_unchecked (contiguous_with_block sample_block 5) b 6"
  have "contiguous_insert_block (contiguous_with_block sample_block 5) b 6 = (Inr b, s)"
    by (simp add: contiguous_insert_block_def s_def contiguous_with_block_def b_def sample_block_def
        index_transactions_def tx_hashes_def)
  from contiguous_insert_ok [OF contiguous_inv_with_block this] have inv: "contiguous_inv s" by simp
  have blocks: "cs_blocks s = [sample_block, b]"
    by (simp add: s_def contiguous_insert_block_unchecked_def contiguous_with_block_def)
  have numbers: "unat (block_number b) = 8" "unat (block_number sample_block) = 7"
    by (simp_all add: b_def sample_block_def sample_header_def)
  have "unat (block_number ([sample_block, b] ! i)) = unat (block_number sample_block) + i"
    if "i < 2" for i
    using numbers that by (cases i) auto
  then have num: "contiguous_numbers s" by (simp add: contiguous_numbers_def blocks)
  have ne: "b \<noteq> sample_block" by (simp add: b_def sample_block_def)
  obtain s' where s': "contiguous_revert_to_block s 7 = Return (True, s')" "cs_blocks s' = [sample_block]"
    "cs_transaction_hash_to_block s' = (cs_transaction_hash_to_block s)(8 := None)"
    "cs_hash_to_block s' = (cs_hash_to_block s)(8 := None)"
    by (simp add: contiguous_revert_to_block_def blocks contiguous_forget_def b_def sample_block_def
        sample_header_def Let_def)
  have t: "cs_transaction_hash_to_block s' 77 = Some b"
    by (simp add: s' s_def contiguous_insert_block_unchecked_def index_transactions_apply b_def
        tx_hashes_def sample_tx_def)
  then have "contiguous_insert_block s' b 6 = (Inl (DuplicateTransaction 77), s')"
    by (simp add: contiguous_insert_block_def s'(4) b_def tx_hashes_def sample_tx_def)
  moreover have "b \<in> contiguous_blocks s" "b \<notin> contiguous_blocks s'"
    using ne by (simp_all add: contiguous_blocks_def blocks s'(2))
  ultimately show ?thesis
    using inv num s'(1) t unfolding contiguous_block_by_transaction_hash_def by blast
qed

end
