(* ===== verification/Block_Builder.thy ===== *)
theory Block_Builder
  imports Local_Block State_Trie
begin

text \<open>
  The block builder (\<^verbatim>\<open>crates/edr_chain_l1/src/block.rs\<close>, \<^verbatim>\<open>crates/block/builder/api/src/lib.rs\<close>): it
  executes transactions on a state, and makes a block of those that succeed. The execution by the
  EVM is third-party code, a parameter, as are the hashes and the length of RLP encodings. The state
  is the state trie of a local chain. The configuration of the EVM, the blockchain it asks for
  block hashes and the precompiles are fixed for one builder, and belong to the parameter.
\<close>

section \<open>Errors\<close>

text \<open>\<open>'d\<close> is a database error, \<open>'v\<close> a validation error of the transaction, \<open>'x\<close> an opaque error
  of the EVM.\<close>

datatype ('d, 'v, 'x) transaction_error =
    Custom string
  | CustomAny 'x
  | Database 'd
  | InvalidHeader 'x
  | InvalidTransaction 'v
  | LackOfFundForMaxFee u256 u256

datatype ('d, 'v, 'x) block_transaction_error =
    BlockGasLimitExceeded
  | BlockBlobGasLimitExceeded
  | TransactionFailed "('d, 'v, 'x) transaction_error"

datatype 'd block_builder_creation_error =
    CreationDatabase 'd
  | CreationMissingWithdrawals
  | UnsupportedHardfork l1_hardfork

datatype 'r block_finalize_error =
    BlockRlpSizeExceeded u64 u64
  | FinalizeState "'r state_error"

section \<open>The builder\<close>

record 'w block_inputs =
  bi_ommers :: "block_header list"
  bi_withdrawals :: "'w list option"

definition block_inputs_empty :: "l1_hardfork \<Rightarrow> 'w block_inputs" where
  "block_inputs_empty hardfork =
     \<lparr>bi_ommers = [], bi_withdrawals = (if SHANGHAI \<le> into_evm_spec hardfork then Some [] else None)\<rparr>"

type_synonym ('d, 'v, 'x) dry_run_result = "('d, 'v, 'x) transaction_error + execution_result \<times> evm_state"

record ('w, 'bp, 'bx, 'd, 'v, 'x, 'i) builder_env =
  bb_header_env :: "('w, 'bp, 'bx) header_env"
  bb_state_env :: state_env
  bb_dry_run :: "state_trie \<Rightarrow> transaction \<Rightarrow> 'bx block_env \<Rightarrow> ('d, 'v, 'x) dry_run_result"
  bb_dry_run_with_inspector ::
    "state_trie \<Rightarrow> transaction \<Rightarrow> 'bx block_env \<Rightarrow> 'i \<Rightarrow> ('d, 'v, 'x) dry_run_result \<times> 'i"
  bb_accrue :: "bloom_input \<Rightarrow> bloom \<Rightarrow> bloom"
  bb_transactions_root :: "transaction list \<Rightarrow> b256"
  bb_receipts_root :: "execution_log transaction_receipt list \<Rightarrow> b256"
  bb_access_list_hash :: "b256 \<Rightarrow> b256"
  bb_rlp_length :: "'w local_block \<Rightarrow> u64"
  bb_now :: u64

record ('w, 'bp) block_builder =
  bu_block_config :: "'bp block_config"
  bu_hardfork :: l1_hardfork
  bu_disable_block_gas_limit :: bool
  bu_header :: partial_header
  bu_parent_gas_limit :: "u64 option"
  bu_receipts :: "execution_log transaction_receipt list"
  bu_state :: state_trie
  bu_state_diff :: state_diff
  bu_transactions :: "transaction list"
  bu_transaction_results :: "execution_result list"
  bu_withdrawals :: "'w list option"
  bu_cumulative_gas_used :: u64

text \<open>The blockchain is asked for its last block, which may fail, and its hard fork.\<close>

definition block_builder_new ::
  "('w, 'bp, 'bx, 'd, 'v, 'x, 'i) builder_env \<Rightarrow> 'd + 'w local_block \<Rightarrow> l1_hardfork \<Rightarrow> 'bp block_config
     \<Rightarrow> state_trie \<Rightarrow> bool \<Rightarrow> 'w block_inputs \<Rightarrow> header_overrides
     \<Rightarrow> ('d block_builder_creation_error + ('w, 'bp) block_builder) outcome" where
  "block_builder_new env last_block hardfork config state disable_block_gas_limit inputs overrides =
     (case last_block of
        Inl e \<Rightarrow> Return (Inl (CreationDatabase e))
      | Inr parent_block \<Rightarrow>
          (let evm_spec_id = into_evm_spec hardfork
           in if evm_spec_id < BYZANTIUM then Return (Inl (UnsupportedHardfork hardfork))
              else if SHANGHAI \<le> evm_spec_id \<and> bi_withdrawals inputs = None
              then Return (Inl CreationMissingWithdrawals)
              else
                (let parent_header = lb_header parent_block;
                     parent_gas_limit = (if ho_gas_limit overrides = None then Some (bh_gas_limit parent_header) else None);
                     overrides = overrides\<lparr>ho_parent_hash := Some (lb_hash parent_block)\<rparr>
                 in bind_outcome
                      (partial_header_new (bb_header_env env) config overrides (Some parent_header)
                         (bi_ommers inputs) (bi_withdrawals inputs))
                      (\<lambda>header.
                         Return (Inr
                           \<lparr>bu_block_config = config, bu_hardfork = hardfork,
                            bu_disable_block_gas_limit = disable_block_gas_limit, bu_header = header,
                            bu_parent_gas_limit = parent_gas_limit, bu_receipts = [], bu_state = state,
                            bu_state_diff = [], bu_transactions = [], bu_transaction_results = [],
                            bu_withdrawals = bi_withdrawals inputs, bu_cumulative_gas_used = 0\<rparr>)))))"

definition gas_used :: "('w, 'bp) block_builder \<Rightarrow> u64" where
  "gas_used b = ph_gas_used (bu_header b)"

definition gas_remaining :: "('w, 'bp) block_builder \<Rightarrow> u64" where
  "gas_remaining b = ph_gas_limit (bu_header b) - gas_used b"

definition validate_transaction ::
  "('w, 'bp, 'bx, 'd, 'v, 'x, 'i) builder_env \<Rightarrow> ('w, 'bp) block_builder \<Rightarrow> transaction
     \<Rightarrow> ('d, 'v, 'x) block_transaction_error + unit" where
  "validate_transaction env b tx =
     (if \<not> bu_disable_block_gas_limit b \<and> gas_remaining b < tx_gas_limit tx then Inl BlockGasLimitExceeded
      else
        (let blob_gas_used = unwrap_or (tx_total_blob_gas tx) 0
         in case (tx_blob_hashes tx, ph_blob_gas (bu_header b)) of
              (_ # _, Some blob_gas) \<Rightarrow>
                (let blob_params =
                       blob_params_for_hardfork (bb_header_env env) (into_evm_spec (bu_hardfork b))
                         (ph_timestamp (bu_header b)) (bc_scheduled_blob_params (bu_block_config b))
                 in if he_max_blob_gas_per_block (bb_header_env env) blob_params < bg_gas_used blob_gas + blob_gas_used
                    then Inl BlockBlobGasLimitExceeded
                    else Inr ())
            | _ \<Rightarrow> Inr ()))"

definition transaction_block_gas_contribution :: "l1_hardfork \<Rightarrow> execution_result \<Rightarrow> u64" where
  "transaction_block_gas_contribution hardfork result =
     (if AMSTERDAM \<le> into_evm_spec hardfork
      then max (er_total_gas_spent result) (er_floor_gas result)
      else er_tx_gas_used result)"

definition add_transaction_result ::
  "('w, 'bp, 'bx, 'd, 'v, 'x, 'i) builder_env \<Rightarrow> ('w, 'bp) block_builder \<Rightarrow> transaction \<Rightarrow> execution_result \<Rightarrow> evm_state
     \<Rightarrow> ('w, 'bp) block_builder" where
  "add_transaction_result env b tx result diff =
     (let header = bu_header b;
          cumulative_gas_used = bu_cumulative_gas_used b + er_tx_gas_used result;
          header = header\<lparr>ph_gas_used := ph_gas_used header + transaction_block_gas_contribution (bu_hardfork b) result\<rparr>;
          header = header\<lparr>ph_blob_gas :=
                     map_option (\<lambda>g. g\<lparr>bg_gas_used := bg_gas_used g + unwrap_or (tx_total_blob_gas tx) 0\<rparr>)
                       (ph_blob_gas header)\<rparr>;
          receipt = build_receipt (bb_accrue env) tx result (bu_hardfork b) cumulative_gas_used (ph_state_root header);
          receipt = transaction_receipt_new receipt tx result (of_nat (length (bu_transactions b)))
                      (unwrap_or (ph_base_fee header) 0) (bu_hardfork b)
      in b\<lparr>bu_state_diff := apply_diff (bu_state_diff b) diff,
           bu_state := state_commit (bb_state_env env) (bu_state b) diff,
           bu_cumulative_gas_used := cumulative_gas_used,
           bu_header := header,
           bu_receipts := bu_receipts b @ [receipt],
           bu_transactions := bu_transactions b @ [tx],
           bu_transaction_results := bu_transaction_results b @ [result]\<rparr>)"

definition builder_block_env ::
  "('w, 'bp, 'bx, 'd, 'v, 'x, 'i) builder_env \<Rightarrow> ('w, 'bp) block_builder \<Rightarrow> 'bx block_env" where
  "builder_block_env env b =
     block_env_of_partial (bb_header_env env) (bu_header b) (bu_hardfork b) (bc_scheduled_blob_params (bu_block_config b))"

text \<open>The receipt builder of L1 is created without a failure.\<close>

definition bu_add_transaction ::
  "('w, 'bp, 'bx, 'd, 'v, 'x, 'i) builder_env \<Rightarrow> ('w, 'bp) block_builder \<Rightarrow> transaction
     \<Rightarrow> (('d, 'v, 'x) block_transaction_error + unit) \<times> ('w, 'bp) block_builder" where
  "bu_add_transaction env b tx =
     (case validate_transaction env b tx of
        Inl e \<Rightarrow> (Inl e, b)
      | Inr _ \<Rightarrow>
          (case bb_dry_run env (bu_state b) tx (builder_block_env env b) of
             Inl e \<Rightarrow> (Inl (TransactionFailed e), b)
           | Inr (result, diff) \<Rightarrow> (Inr (), add_transaction_result env b tx result diff)))"

definition add_transaction_with_inspector ::
  "('w, 'bp, 'bx, 'd, 'v, 'x, 'i) builder_env \<Rightarrow> ('w, 'bp) block_builder \<Rightarrow> transaction \<Rightarrow> 'i
     \<Rightarrow> (('d, 'v, 'x) block_transaction_error + unit) \<times> ('w, 'bp) block_builder \<times> 'i" where
  "add_transaction_with_inspector env b tx inspector =
     (case validate_transaction env b tx of
        Inl e \<Rightarrow> (Inl e, b, inspector)
      | Inr _ \<Rightarrow>
          (case bb_dry_run_with_inspector env (bu_state b) tx (builder_block_env env b) inspector of
             (Inl e, inspector) \<Rightarrow> (Inl (TransactionFailed e), b, inspector)
           | (Inr (result, diff), inspector) \<Rightarrow> (Inr (), add_transaction_result env b tx result diff, inspector)))"

section \<open>Finishing a block\<close>

text \<open>The balance of a beneficiary wraps around.\<close>

fun apply_rewards ::
  "('w, 'bp, 'bx, 'd, 'v, 'x, 'i) builder_env \<Rightarrow> ('w, 'bp) block_builder \<Rightarrow> (address \<times> u128) list
     \<Rightarrow> ('r state_error + unit) \<times> ('w, 'bp) block_builder" where
  "apply_rewards env b [] = (Inr (), b)"
| "apply_rewards env b ((addr, reward) # rewards) =
     (if 0 < reward
      then case state_modify_account (bb_state_env env) (bu_state b) addr
                  (\<lambda>(balance, nonce, code). (balance + ucast reward, nonce, code)) of
             (Inl e, state) \<Rightarrow> (Inl e, b\<lparr>bu_state := state\<rparr>)
           | (Inr info, state) \<Rightarrow>
               apply_rewards env
                 (b\<lparr>bu_state := state, bu_state_diff := apply_account_change (bu_state_diff b) addr info\<rparr>) rewards
      else apply_rewards env b rewards)"

definition MAX_RLP_BLOCK_SIZE :: u64 where
  "MAX_RLP_BLOCK_SIZE = 10485760 - 2097152"

definition block_access_list_hash :: "(b256 \<Rightarrow> b256) \<Rightarrow> b256 option \<Rightarrow> state_diff \<Rightarrow> b256 \<Rightarrow> b256 option" where
  "block_access_list_hash derived current diff parent_hash =
     (if current = Some KECCAK_RLP_EMPTY_ARRAY \<and> diff \<noteq> [] then Some (derived parent_hash) else current)"

record 'w built_block =
  bt_block :: "'w local_block"
  bt_state :: state_trie
  bt_state_diff :: state_diff
  bt_transaction_results :: "execution_result list"

text \<open>The header that a finished block has.\<close>

definition finalized_header ::
  "('w, 'bp, 'bx, 'd, 'v, 'x, 'i) builder_env \<Rightarrow> ('w, 'bp) block_builder \<Rightarrow> partial_header" where
  "finalized_header env b =
     (let h = bu_header b
      in h\<lparr>ph_gas_limit := unwrap_or (bu_parent_gas_limit b) (ph_gas_limit h),
           ph_logs_bloom := fold (\<lambda>receipt bloom. or bloom (rc_bloom (snd (tr_inner receipt)))) (bu_receipts b) 0,
           ph_receipts_root := bb_receipts_root env (bu_receipts b),
           ph_state_root := (if ph_state_root h = KECCAK_NULL_RLP then state_root (bu_state b) else ph_state_root h),
           ph_timestamp := (if ph_timestamp h = 0 then bb_now env else ph_timestamp h),
           ph_block_access_list_hash :=
             block_access_list_hash (bb_access_list_hash env) (ph_block_access_list_hash h) (bu_state_diff b)
               (ph_parent_hash h)\<rparr>)"

definition bu_finalize ::
  "('w, 'bp, 'bx, 'd, 'v, 'x, 'i) builder_env \<Rightarrow> ('w, 'bp) block_builder \<Rightarrow> 'r block_finalize_error + 'w built_block" where
  "bu_finalize env b =
     (let block = local_block_new (bb_header_env env) (bb_transactions_root env) (bu_hardfork b) (finalized_header env b)
                    (bu_transactions b) (bu_receipts b) [] (bu_withdrawals b);
          block_rlp_size = bb_rlp_length env block
      in if MAX_RLP_BLOCK_SIZE < block_rlp_size then Inl (BlockRlpSizeExceeded MAX_RLP_BLOCK_SIZE block_rlp_size)
         else Inr \<lparr>bt_block = block, bt_state = bu_state b, bt_state_diff = bu_state_diff b,
                   bt_transaction_results = bu_transaction_results b\<rparr>)"

text \<open>\<open>L1BlockBuilder::finalize_block\<close>.\<close>

definition finalize_block ::
  "('w, 'bp, 'bx, 'd, 'v, 'x, 'i) builder_env \<Rightarrow> ('w, 'bp) block_builder \<Rightarrow> 'r block_finalize_error + 'w built_block" where
  "finalize_block env b =
     (case miner_reward (bu_hardfork b) of
        None \<Rightarrow> bu_finalize env b
      | Some reward \<Rightarrow>
          (case apply_rewards env b [(ph_beneficiary (bu_header b), reward)] of
             (Inl e, _) \<Rightarrow> Inl (FinalizeState e)
           | (Inr _, b) \<Rightarrow> bu_finalize env b))"

end
