(* ===== verification/Miner.thy ===== *)
theory Miner
  imports Block_Builder Mem_Pool_Iter
begin

text \<open>
  Mining (\<^verbatim>\<open>crates/block/miner/src/lib.rs\<close>): the block builder is fed with the pending transactions
  of the memory pool in mining order, or with one transaction. An inspector is a value that an
  execution changes; flushing its data is a parameter.
\<close>

section \<open>Errors\<close>

datatype ('d, 'v, 'x, 'r, 'ie) mine_block_error =
    MineBlockBuilderCreation "'d block_builder_creation_error"
  | MineBlockTransaction "('d, 'v, 'x) block_transaction_error"
  | MineBlockFinalize "'r block_finalize_error"
  | CollectInspectorDataError 'ie

datatype ('d, 'v, 'x, 'r) mine_transaction_error =
    MineBuilderCreation "'d block_builder_creation_error"
  | MineTransaction "('d, 'v, 'x) block_transaction_error"
  | MineBlockchain 'd
  | MineFinalize "'r block_finalize_error"
  | GasPriceTooLow u128 u128
  | MaxFeePerGasTooLow u128 u128
  | MaxFeePerBlobGasTooLow u128 u128
  | MineNonceTooHigh u64 u64
  | MineNonceTooLow u64 u64
  | PriorityFeeTooLow u128 u128

section \<open>Mining the pending transactions\<close>

text \<open>The addition of one transaction, with an inspector or without one.\<close>

definition mine_transaction ::
  "('w, 'bp, 'bx, 'd, 'v, 'x, 'i) builder_env \<Rightarrow> ('i \<Rightarrow> ('ie + 'o) \<times> 'i) \<Rightarrow> ('w, 'bp) block_builder \<Rightarrow> 'i option
     \<Rightarrow> 'o list \<Rightarrow> transaction
     \<Rightarrow> 'ie + (('d, 'v, 'x) block_transaction_error + unit) \<times> ('w, 'bp) block_builder \<times> 'i option \<times> 'o list" where
  "mine_transaction env flush_inspector_data b inspector data tx =
     (case inspector of
        Some i \<Rightarrow>
          (case add_transaction_with_inspector env b tx i of
             (Inr _, b, i) \<Rightarrow>
               (case flush_inspector_data i of
                  (Inl e, i) \<Rightarrow> Inl e
                | (Inr d, i) \<Rightarrow> Inr (Inr (), b, Some i, data @ [d]))
           | (Inl e, b, i) \<Rightarrow> Inr (Inl e, b, Some i, data))
      | None \<Rightarrow> (let (r, b) = bu_add_transaction env b tx in Inr (r, b, None, data)))"

text \<open>An error that only excludes the sender of the transaction from the block.\<close>

fun skips_caller :: "'v \<Rightarrow> ('d, 'v, 'x) block_transaction_error \<Rightarrow> bool" where
  "skips_caller less_than_basefee BlockGasLimitExceeded = True"
| "skips_caller less_than_basefee (TransactionFailed (InvalidTransaction v)) = (v = less_than_basefee)"
| "skips_caller less_than_basefee _ = False"

text \<open>
  The loop over the pending transactions. Nothing bounds it in the code; a loop that does not end
  is \<open>None\<close>.
\<close>

partial_function (option) mine_loop ::
  "('w, 'bp, 'bx, 'd, 'v, 'x, 'i) builder_env \<Rightarrow> ('i \<Rightarrow> ('ie + 'o) \<times> 'i) \<Rightarrow> 'v
     \<Rightarrow> (ordered_transaction \<Rightarrow> ordered_transaction \<Rightarrow> ordering) \<Rightarrow> u128 \<Rightarrow> tx_queues
     \<Rightarrow> ('w, 'bp) block_builder \<Rightarrow> 'i option \<Rightarrow> 'o list
     \<Rightarrow> (('d, 'v, 'x, 'r, 'ie) mine_block_error + ('w, 'bp) block_builder \<times> 'o list) outcome option" where
  "mine_loop env flush_inspector_data less_than_basefee comparator min_gas_price m b inspector data =
     (case pending_next comparator m of
        Panic \<Rightarrow> Some Panic
      | Return (None, m) \<Rightarrow> Some (Return (Inr (b, data)))
      | Return (Some tx, m) \<Rightarrow>
          (if tx_gas_price tx < min_gas_price
           then mine_loop env flush_inspector_data less_than_basefee comparator min_gas_price
                  (snd (remove_caller (tx_caller tx) m)) b inspector data
           else
             (case mine_transaction env flush_inspector_data b inspector data tx of
                Inl e \<Rightarrow> Some (Return (Inl (CollectInspectorDataError e)))
              | Inr (r, b, inspector, data) \<Rightarrow>
                  (case r of
                     Inr _ \<Rightarrow> mine_loop env flush_inspector_data less_than_basefee comparator min_gas_price m b inspector data
                   | Inl e \<Rightarrow>
                       (if skips_caller less_than_basefee e
                        then mine_loop env flush_inspector_data less_than_basefee comparator min_gas_price
                               (snd (remove_caller (tx_caller tx) m)) b inspector data
                        else Some (Return (Inl (MineBlockTransaction e))))))))"

definition mine_block ::
  "('w, 'bp, 'bx, 'd, 'v, 'x, 'i) builder_env \<Rightarrow> ('i \<Rightarrow> ('ie + 'o) \<times> 'i) \<Rightarrow> 'v
     \<Rightarrow> 'd + 'w local_block \<Rightarrow> l1_hardfork \<Rightarrow> 'bp block_config \<Rightarrow> state_trie \<Rightarrow> mem_pool \<Rightarrow> bool \<Rightarrow> header_overrides
     \<Rightarrow> u128 \<Rightarrow> mine_ordering \<Rightarrow> 'i option
     \<Rightarrow> (('d, 'v, 'x, 'r, 'ie) mine_block_error + 'w built_block \<times> 'o list) outcome option" where
  "mine_block env flush_inspector_data less_than_basefee last_block hardfork config state pool
     disable_block_gas_limit overrides min_gas_price mine_ordering inspector =
     (case block_builder_new env last_block hardfork config state disable_block_gas_limit
             (block_inputs_empty hardfork) overrides of
        Panic \<Rightarrow> Some Panic
      | Return (Inl e) \<Rightarrow> Some (Return (Inl (MineBlockBuilderCreation e)))
      | Return (Inr b) \<Rightarrow>
          (let comparator = mine_comparator mine_ordering (ph_base_fee (bu_header b))
           in case mine_loop env flush_inspector_data less_than_basefee comparator min_gas_price (pool_iter pool)
                     b inspector [] of
                None \<Rightarrow> None
              | Some Panic \<Rightarrow> Some Panic
              | Some (Return (Inl e)) \<Rightarrow> Some (Return (Inl e))
              | Some (Return (Inr (b, data))) \<Rightarrow>
                  Some (Return (case finalize_block env b of
                                  Inl e \<Rightarrow> Inl (MineBlockFinalize e)
                                | Inr built \<Rightarrow> Inr (built, data)))))"

section \<open>Mining a single transaction\<close>

text \<open>The checks before the transaction is executed; the last block of the chain is asked for in
  between.\<close>

definition check_transaction_fees :: "transaction \<Rightarrow> header_overrides \<Rightarrow> u128 \<Rightarrow> ('d, 'v, 'x, 'r) mine_transaction_error + unit" where
  "check_transaction_fees tx overrides min_gas_price =
     (let max_priority_fee_per_gas = unwrap_or (tx_max_priority_fee_per_gas tx) (tx_gas_price tx)
      in if max_priority_fee_per_gas < min_gas_price
         then Inl (PriorityFeeTooLow min_gas_price max_priority_fee_per_gas)
         else
           (case ho_base_fee overrides of
              None \<Rightarrow> Inr ()
            | Some base_fee_per_gas \<Rightarrow>
                (case tx_max_fee_per_gas tx of
                   Some max_fee_per_gas \<Rightarrow>
                     if max_fee_per_gas < base_fee_per_gas
                     then Inl (MaxFeePerGasTooLow base_fee_per_gas max_fee_per_gas) else Inr ()
                 | None \<Rightarrow>
                     if tx_gas_price tx < base_fee_per_gas
                     then Inl (GasPriceTooLow base_fee_per_gas (tx_gas_price tx)) else Inr ())))"

definition check_blob_fee ::
  "('w, 'bp, 'bx) header_env \<Rightarrow> transaction \<Rightarrow> 'w local_block \<Rightarrow> l1_hardfork \<Rightarrow> 'bp block_config
     \<Rightarrow> ('d, 'v, 'x, 'r) mine_transaction_error + unit" where
  "check_blob_fee env tx parent_block hardfork config =
     (case tx_max_fee_per_blob_gas tx of
        None \<Rightarrow> Inr ()
      | Some max_fee_per_blob_gas \<Rightarrow>
          (let base_fee_per_blob_gas =
                 calculate_next_base_fee_per_blob_gas env (lb_header parent_block) hardfork (bc_scheduled_blob_params config)
           in if max_fee_per_blob_gas < base_fee_per_blob_gas
              then Inl (MaxFeePerBlobGasTooLow base_fee_per_blob_gas max_fee_per_blob_gas) else Inr ()))"

definition check_nonce :: "transaction \<Rightarrow> account_info \<Rightarrow> ('d, 'v, 'x, 'r) mine_transaction_error + unit" where
  "check_nonce tx sender =
     (case cmp (tx_nonce tx) (ai_nonce sender) of
        Less \<Rightarrow> Inl (MineNonceTooLow (ai_nonce sender) (tx_nonce tx))
      | Equal \<Rightarrow> Inr ()
      | Greater \<Rightarrow> Inl (MineNonceTooHigh (ai_nonce sender) (tx_nonce tx)))"

text \<open>The execution of the transaction in a block of its own.\<close>

definition single_execution ::
  "('w, 'bp, 'bx, 'd, 'v, 'x, 'i) builder_env \<Rightarrow> 'w local_block \<Rightarrow> l1_hardfork \<Rightarrow> 'bp block_config \<Rightarrow> state_trie
     \<Rightarrow> transaction \<Rightarrow> bool \<Rightarrow> header_overrides \<Rightarrow> 'i option \<Rightarrow> (('d, 'v, 'x, 'r) mine_transaction_error + 'w built_block) outcome" where
  "single_execution env parent_block hardfork config state tx disable_block_gas_limit overrides inspector =
     bind_outcome
       (block_builder_new env (Inr parent_block) hardfork config state disable_block_gas_limit (block_inputs_empty hardfork) overrides)
       (\<lambda>builder. Return
          (case builder of
             Inl e \<Rightarrow> Inl (MineBuilderCreation e)
           | Inr b \<Rightarrow>
               (case (case inspector of
                        Some i \<Rightarrow> (let (r, b, i) = add_transaction_with_inspector env b tx i in (r, b))
                      | None \<Rightarrow> bu_add_transaction env b tx) of
                  (Inl e, b) \<Rightarrow> Inl (MineTransaction e)
                | (Inr _, b) \<Rightarrow>
                    (case finalize_block env b of
                       Inl e \<Rightarrow> Inl (MineFinalize e)
                     | Inr built \<Rightarrow> Inr built))))"

definition mine_block_with_single_transaction ::
  "('w, 'bp, 'bx, 'd, 'v, 'x, 'i) builder_env \<Rightarrow> 'd + 'w local_block \<Rightarrow> l1_hardfork \<Rightarrow> 'bp block_config \<Rightarrow> state_trie
     \<Rightarrow> transaction \<Rightarrow> bool \<Rightarrow> header_overrides \<Rightarrow> u128 \<Rightarrow> 'i option
     \<Rightarrow> (('d, 'v, 'x, 'r) mine_transaction_error + 'w built_block) outcome" where
  "mine_block_with_single_transaction env last_block hardfork config state tx disable_block_gas_limit overrides
     min_gas_price inspector =
     (case check_transaction_fees tx overrides min_gas_price of
        Inl e \<Rightarrow> Return (Inl e)
      | Inr _ \<Rightarrow>
     (case last_block of
        Inl e \<Rightarrow> Return (Inl (MineBlockchain e))
      | Inr parent_block \<Rightarrow>
     (case check_blob_fee (bb_header_env env) tx parent_block hardfork config of
        Inl e \<Rightarrow> Return (Inl e)
      | Inr _ \<Rightarrow>
     (case check_nonce tx (account_or_default (state_basic state (tx_caller tx))) of
        Inl e \<Rightarrow> Return (Inl e)
      | Inr _ \<Rightarrow>
          single_execution env parent_block hardfork config state tx disable_block_gas_limit overrides inspector))))"

end
