(* ===== verification/Miner_Facts.thy ===== *)
theory Miner_Facts
  imports Miner "HOL-Library.Sublist"
begin

text \<open>
  What mining promises: it ends, it takes from every sender a prefix of its pending transactions,
  it keeps to the block's gas limit, and the receipts of the block add up.
\<close>

section \<open>The transactions of a builder\<close>

text \<open>A transaction was executed on the state of a builder, with an inspector or without one.\<close>

definition executed ::
  "('w, 'bp, 'bx, 'd, 'v, 'x, 'i) builder_env \<Rightarrow> ('w, 'bp) block_builder \<Rightarrow> transaction \<Rightarrow> execution_result \<Rightarrow> evm_state \<Rightarrow> bool" where
  "executed env b tx result diff \<longleftrightarrow>
     bb_dry_run env (bu_state b) tx (builder_block_env env b) = Inr (result, diff)
     \<or> (\<exists>i. fst (bb_dry_run_with_inspector env (bu_state b) tx (builder_block_env env b) i) = Inr (result, diff))"

text \<open>The builders that successful additions of transactions lead to.\<close>

inductive builds ::
  "('w, 'bp, 'bx, 'd, 'v, 'x, 'i) builder_env \<Rightarrow> ('w, 'bp) block_builder \<Rightarrow> transaction list \<Rightarrow> ('w, 'bp) block_builder \<Rightarrow> bool"
  for env where
  nothing: "builds env b [] b"
| add: "builds env b (tx # txs) b'" if "validate_transaction env b tx = Inr ()" and "executed env b tx result diff"
    and "builds env (add_transaction_result env b tx result diff) txs b'"

inductive_cases builds_NilE: "builds env b [] b'"
inductive_cases builds_ConsE: "builds env b (tx # txs) b'"

lemma builder_addition_cases:
  obtains (failed) e where "bu_add_transaction env b tx = (Inl e, b)"
  | (added) result diff where "bu_add_transaction env b tx = (Inr (), add_transaction_result env b tx result diff)"
      "validate_transaction env b tx = Inr ()" "executed env b tx result diff"
proof (cases "validate_transaction env b tx")
  case (Inl e)
  then show thesis by (intro failed) (simp add: bu_add_transaction_def)
next
  case (Inr u)
  show thesis
  proof (cases "bb_dry_run env (bu_state b) tx (builder_block_env env b)")
    case Inl': (Inl e)
    with Inr show thesis by (intro failed) (simp add: bu_add_transaction_def)
  next
    case Inr': (Inr x)
    obtain result diff where "x = (result, diff)" by (cases x)
    with Inr Inr' show thesis by (intro added [of result diff]) (simp_all add: bu_add_transaction_def executed_def)
  qed
qed

lemma add_with_inspector_cases:
  obtains (failed) e i' where "add_transaction_with_inspector env b tx i = (Inl e, b, i')"
  | (added) result diff i' where
      "add_transaction_with_inspector env b tx i = (Inr (), add_transaction_result env b tx result diff, i')"
      "validate_transaction env b tx = Inr ()" "executed env b tx result diff"
proof (cases "validate_transaction env b tx")
  case (Inl e)
  then show thesis by (intro failed) (simp add: add_transaction_with_inspector_def)
next
  case (Inr u)
  obtain r i' where d: "bb_dry_run_with_inspector env (bu_state b) tx (builder_block_env env b) i = (r, i')"
    by (cases "bb_dry_run_with_inspector env (bu_state b) tx (builder_block_env env b) i")
  show thesis
  proof (cases r)
    case Inl': (Inl e)
    with Inr d show thesis by (intro failed) (simp add: add_transaction_with_inspector_def)
  next
    case Inr': (Inr x)
    obtain result diff where x: "x = (result, diff)" by (cases x)
    have "executed env b tx result diff" unfolding executed_def using d Inr' x by (metis fst_conv)
    with Inr Inr' d x show thesis by (intro added [of result diff i']) (simp_all add: add_transaction_with_inspector_def)
  qed
qed

lemma mine_transaction_cases:
  obtains (inspector) e where "mine_transaction env flush b i data tx = Inl e"
  | (failed) e i' where "mine_transaction env flush b i data tx = Inr (Inl e, b, i', data)"
  | (added) result diff i' data' where
      "mine_transaction env flush b i data tx = Inr (Inr (), add_transaction_result env b tx result diff, i', data')"
      "validate_transaction env b tx = Inr ()" "executed env b tx result diff"
proof (cases i)
  case None
  show thesis
    by (cases rule: builder_addition_cases [of env b tx]) (use None failed added in \<open>auto simp: mine_transaction_def\<close>)
next
  case (Some j)
  show thesis
  proof (cases rule: add_with_inspector_cases [of env b tx j])
    case f: (failed e i')
    with Some show thesis by (intro failed) (simp add: mine_transaction_def)
  next
    case a: (added result diff i')
    obtain r i2 where f: "flush i' = (r, i2)" by (cases "flush i'")
    with a Some show thesis by (cases r) (auto simp: mine_transaction_def intro: inspector added)
  qed
qed

section \<open>The loop\<close>

definition queue_of :: "tx_queues \<Rightarrow> address \<Rightarrow> transaction list" where
  "queue_of m c = (case map_of m c of Some q \<Rightarrow> map ot_transaction q | None \<Rightarrow> [])"

text \<open>Transactions that are taken from the queues: a prefix of every queue.\<close>

definition taken_from :: "tx_queues \<Rightarrow> transaction list \<Rightarrow> bool" where
  "taken_from m txs \<longleftrightarrow> (\<forall>c. prefix (filter (\<lambda>tx. tx_caller tx = c) txs) (queue_of m c))"

lemma taken_Nil [simp]: "taken_from m []"
  by (simp add: taken_from_def)

lemma taken_skip:
  assumes "taken_from (snd (remove_caller c' m')) txs"
    and "map_of m' = (map_of m)(c := q')" "c' = c"
  shows "taken_from m txs"
  unfolding taken_from_def
proof
  fix x
  have "prefix (filter (\<lambda>tx. tx_caller tx = x) txs) (queue_of (snd (remove_caller c' m')) x)"
    using assms(1) by (simp add: taken_from_def)
  then show "prefix (filter (\<lambda>tx. tx_caller tx = x) txs) (queue_of m x)"
    by (cases "x = c") (simp_all add: queue_of_def remove_caller_def delete_conv' assms(2,3))
qed

lemma taken_add:
  assumes "taken_from m' txs" and "map_of m c = Some q" "q \<noteq> []" and "tx = ot_transaction (hd q)" "tx_caller tx = c"
    and "map_of m' = (map_of m)(c := (if tl q = [] then None else Some (tl q)))"
  shows "taken_from m (tx # txs)"
  unfolding taken_from_def
proof
  fix x
  have x: "prefix (filter (\<lambda>tx. tx_caller tx = x) txs) (queue_of m' x)" using assms(1) by (simp add: taken_from_def)
  show "prefix (filter (\<lambda>tx. tx_caller tx = x) (tx # txs)) (queue_of m x)"
  proof (cases "x = c")
    case True
    have "queue_of m' c = map ot_transaction (tl q)" by (simp add: queue_of_def assms(6))
    moreover have "queue_of m c = tx # map ot_transaction (tl q)"
      using assms(2-4) by (cases q) (simp_all add: queue_of_def)
    ultimately show ?thesis using x True assms(5) by simp
  next
    case False
    then have "queue_of m' x = queue_of m x" by (simp add: queue_of_def assms(6))
    with x False assms(5) show ?thesis by simp
  qed
qed

text \<open>What the loop has done when it ends without an error.\<close>

definition loop_ok ::
  "('w, 'bp, 'bx, 'd, 'v, 'x, 'i) builder_env \<Rightarrow> u128 \<Rightarrow> tx_queues \<Rightarrow> ('w, 'bp) block_builder
     \<Rightarrow> 'e + ('w, 'bp) block_builder \<times> 'o list \<Rightarrow> bool" where
  "loop_ok env min_gas_price m b r \<longleftrightarrow>
     (case r of
        Inl e \<Rightarrow> True
      | Inr (b', data) \<Rightarrow> \<exists>txs. builds env b txs b' \<and> taken_from m txs \<and> (\<forall>tx \<in> set txs. min_gas_price \<le> tx_gas_price tx))"

lemma loop_ok_error [simp]: "loop_ok env min_gas_price m b (Inl e)"
  by (simp add: loop_ok_def)

lemma loop_ok_done: "loop_ok env min_gas_price m b (Inr (b, data))"
  by (auto simp: loop_ok_def intro!: exI [of _ "[]"] builds.nothing)

lemma loop_ok_skip:
  assumes "loop_ok env min_gas_price (snd (remove_caller c' m')) b r"
    and "map_of m' = (map_of m)(c := q')" "c' = c"
  shows "loop_ok env min_gas_price m b r"
proof (cases r)
  case (Inr x)
  obtain b' data where x: "x = (b', data)" by (cases x)
  with assms(1) Inr obtain txs where txs: "builds env b txs b'" "taken_from (snd (remove_caller c' m')) txs"
    "\<forall>tx \<in> set txs. min_gas_price \<le> tx_gas_price tx" unfolding loop_ok_def by auto
  from txs taken_skip [OF txs(2) assms(2,3)] show ?thesis unfolding loop_ok_def Inr x by auto
qed simp

lemma loop_ok_add:
  assumes "loop_ok env min_gas_price m' (add_transaction_result env b tx result diff) r"
    and "validate_transaction env b tx = Inr ()" "executed env b tx result diff" "\<not> tx_gas_price tx < min_gas_price"
    and "map_of m c = Some q" "q \<noteq> []" "tx = ot_transaction (hd q)" "tx_caller tx = c"
    and "map_of m' = (map_of m)(c := (if tl q = [] then None else Some (tl q)))"
  shows "loop_ok env min_gas_price m b r"
proof (cases r)
  case (Inr x)
  obtain b' data where x: "x = (b', data)" by (cases x)
  with assms(1) Inr obtain txs where txs: "builds env (add_transaction_result env b tx result diff) txs b'"
    "taken_from m' txs" "\<forall>tx \<in> set txs. min_gas_price \<le> tx_gas_price tx" unfolding loop_ok_def by auto
  have "builds env b (tx # txs) b'" by (rule builds.add [OF assms(2,3) txs(1)])
  moreover have "taken_from m (tx # txs)" by (rule taken_add [OF txs(2) assms(5-9)])
  moreover have "\<forall>t \<in> set (tx # txs). min_gas_price \<le> tx_gas_price t" using txs(3) assms(4) by simp
  ultimately show ?thesis unfolding loop_ok_def Inr x by (auto intro!: exI [of _ "tx # txs"])
qed simp

text \<open>One round of the loop.\<close>

lemma mine_loop_cases:
  fixes env :: "('w, 'bp, 'bx, 'd, 'v, 'x, 'i) builder_env" and flush :: "'i \<Rightarrow> ('ie + 'o) \<times> 'i"
    and ltb comparator min_gas_price
    and loop :: "tx_queues \<Rightarrow> _ \<Rightarrow> _ \<Rightarrow> _ \<Rightarrow> (('d, 'v, 'x, 'r, 'ie) mine_block_error + _) outcome option"
  defines "loop \<equiv> mine_loop env flush ltb comparator min_gas_price"
  assumes "pending_next comparator m = Return (Some tx, m')"
  obtains (skipped) j d where "loop m b i data = loop (snd (remove_caller (tx_caller tx) m')) b j d"
  | (failed) e where "loop m b i data = Some (Return (Inl e))"
  | (added) result diff j d where "loop m b i data = loop m' (add_transaction_result env b tx result diff) j d"
      "validate_transaction env b tx = Inr ()" "executed env b tx result diff" "\<not> tx_gas_price tx < min_gas_price"
proof (cases "tx_gas_price tx < min_gas_price")
  case True
  with assms(2) have "loop m b i data = loop (snd (remove_caller (tx_caller tx) m')) b i data"
    unfolding loop_def mine_loop.simps [of env flush ltb comparator min_gas_price m b i data] by simp
  then show thesis by (rule skipped)
next
  case False
  note unfold = loop_def mine_loop.simps [of env flush ltb comparator min_gas_price m b i data]
  show thesis
  proof (cases rule: mine_transaction_cases [of env flush b i data tx])
    case (inspector e)
    with assms(2) False have "loop m b i data = Some (Return (Inl (CollectInspectorDataError e)))" unfolding unfold by simp
    then show thesis by (rule failed)
  next
    case f: (failed e i')
    with assms(2) False have "loop m b i data =
      (if skips_caller ltb e then loop (snd (remove_caller (tx_caller tx) m')) b i' data
       else Some (Return (Inl (MineBlockTransaction e))))"
      unfolding unfold by simp
    then show thesis by (cases "skips_caller ltb e") (simp_all add: skipped failed)
  next
    case a: (added result diff i' data')
    with assms(2) False have "loop m b i data = loop m' (add_transaction_result env b tx result diff) i' data'"
      unfolding unfold by simp
    then show thesis by (rule added) (use a False in simp_all)
  qed
qed

text \<open>The loop ends, since every round takes a transaction off the queues.\<close>

lemma mine_loop_spec:
  fixes env :: "('w, 'bp, 'bx, 'd, 'v, 'x, 'i) builder_env" and flush :: "'i \<Rightarrow> ('ie + 'o) \<times> 'i"
  assumes cmp: "total_comparator comparator" and inv: "iter_inv m"
  shows "\<exists>r :: ('d, 'v, 'x, 'r, 'ie) mine_block_error + _.
    mine_loop env flush ltb comparator min_gas_price m b i data = Some (Return r) \<and> loop_ok env min_gas_price m b r"
  using inv
proof (induction "length (im_values m)" arbitrary: m b i data rule: less_induct)
  case less
  show ?case
  proof (cases rule: pending_next_cases [OF cmp less.prems])
    case 1
    then have "mine_loop env flush ltb comparator min_gas_price m b i data = Some (Return (Inr (b, data)))"
      by (simp add: mine_loop.simps [of _ _ _ _ _ "[]"])
    then show ?thesis using loop_ok_done by blast
  next
    case (2 c q m')
    note step = pending_next_step [OF less.prems 2(1,2,4)]
    note rm = remove_caller_step [OF step(1), of "tx_caller (ot_transaction (hd q))"]
    have caller: "tx_caller (ot_transaction (hd q)) = c"
      using queues_okD [of m c q "hd q"] less.prems 2(1,2) by (simp add: ot_caller_def)
    have "size (mset (im_values m)) = Suc (size (mset (im_values m')))" unfolding step(2) by simp
    then have len: "length (im_values m') < length (im_values m)" by simp
    show ?thesis
    proof (cases rule: mine_loop_cases [OF 2(3), of env flush ltb min_gas_price b i data, where ?'r = 'r])
      case skipped: (1 j d)
      have "length (im_values (snd (remove_caller (tx_caller (ot_transaction (hd q))) m'))) < length (im_values m)"
        using len rm(3) by linarith
      from less.hyps [OF this rm(1), of b j d] skipped loop_ok_skip [OF _ step(3) caller] show ?thesis by metis
    next
      case (2 e)
      then show ?thesis by simp
    next
      case added: (3 result diff j d)
      from less.hyps [OF len step(1), of "add_transaction_result env b (ot_transaction (hd q)) result diff" j d] added(1)
        loop_ok_add [OF _ added(2-4) 2(1,2) refl caller step(3)] show ?thesis by metis
    qed
  qed
qed

section \<open>Builders\<close>

text \<open>What an added transaction changes, field by field.\<close>

lemma add_transaction_result_fields [simp]:
  "bu_transactions (add_transaction_result env b tx result diff) = bu_transactions b @ [tx]"
  "bu_transaction_results (add_transaction_result env b tx result diff) = bu_transaction_results b @ [result]"
  "bu_state_diff (add_transaction_result env b tx result diff) = apply_diff (bu_state_diff b) diff"
  "bu_state (add_transaction_result env b tx result diff) = state_commit (bb_state_env env) (bu_state b) diff"
  "bu_cumulative_gas_used (add_transaction_result env b tx result diff) = bu_cumulative_gas_used b + er_tx_gas_used result"
  "bu_hardfork (add_transaction_result env b tx result diff) = bu_hardfork b"
  "bu_disable_block_gas_limit (add_transaction_result env b tx result diff) = bu_disable_block_gas_limit b"
  "bu_parent_gas_limit (add_transaction_result env b tx result diff) = bu_parent_gas_limit b"
  "bu_withdrawals (add_transaction_result env b tx result diff) = bu_withdrawals b"
  "ph_gas_used (bu_header (add_transaction_result env b tx result diff)) =
     ph_gas_used (bu_header b) + transaction_block_gas_contribution (bu_hardfork b) result"
  by (simp_all add: add_transaction_result_def Let_def)

text \<open>The part of a builder's header that adding transactions leaves alone.\<close>

definition header_frame :: "('w, 'bp) block_builder \<Rightarrow> partial_header" where
  "header_frame b = (bu_header b)\<lparr>ph_gas_used := 0, ph_blob_gas := None\<rparr>"

lemma header_frame_add [simp]: "header_frame (add_transaction_result env b tx result diff) = header_frame b"
  by (simp add: header_frame_def add_transaction_result_def Let_def)

lemma header_frame_eqD:
  assumes "header_frame b' = header_frame b"
  shows "ph_number (bu_header b') = ph_number (bu_header b)"
    "ph_parent_hash (bu_header b') = ph_parent_hash (bu_header b)"
    "ph_withdrawals_root (bu_header b') = ph_withdrawals_root (bu_header b)"
    "ph_gas_limit (bu_header b') = ph_gas_limit (bu_header b)"
    "ph_beneficiary (bu_header b') = ph_beneficiary (bu_header b)"
    "ph_base_fee (bu_header b') = ph_base_fee (bu_header b)"
    "ph_timestamp (bu_header b') = ph_timestamp (bu_header b)"
  using arg_cong [OF assms, of ph_timestamp] arg_cong [OF assms, of ph_number] arg_cong [OF assms, of ph_parent_hash]
    arg_cong [OF assms, of ph_withdrawals_root] arg_cong [OF assms, of ph_gas_limit]
    arg_cong [OF assms, of ph_beneficiary] arg_cong [OF assms, of ph_base_fee]
  by (simp_all add: header_frame_def)

lemma builds_frame:
  assumes "builds env b txs b'"
  shows "header_frame b' = header_frame b" "bu_transactions b' = bu_transactions b @ txs"
    "bu_hardfork b' = bu_hardfork b" "bu_disable_block_gas_limit b' = bu_disable_block_gas_limit b"
    "bu_parent_gas_limit b' = bu_parent_gas_limit b" "bu_withdrawals b' = bu_withdrawals b"
  using assms by (induction rule: builds.induct) simp_all

text \<open>The receipt of a transaction in a block.\<close>

definition receipt_of :: "execution_result list \<Rightarrow> transaction \<Rightarrow> nat \<Rightarrow> execution_log transaction_receipt \<Rightarrow> bool" where
  "receipt_of results tx i r \<longleftrightarrow>
     tr_transaction_hash r = tx_hash tx \<and> tr_from r = tx_caller tx \<and> tr_transaction_index r = of_nat i
     \<and> tr_gas_used r = er_tx_gas_used (results ! i)
     \<and> cumulative_gas_used (snd (tr_inner r)) = sum_list (map er_tx_gas_used (take (Suc i) results))
     \<and> rc_logs (snd (tr_inner r)) = er_logs (results ! i)"

definition receipts_ok :: "('w, 'bp) block_builder \<Rightarrow> bool" where
  "receipts_ok b \<longleftrightarrow>
     length (bu_receipts b) = length (bu_transactions b)
     \<and> length (bu_transaction_results b) = length (bu_transactions b)
     \<and> bu_cumulative_gas_used b = sum_list (map er_tx_gas_used (bu_transaction_results b))
     \<and> (\<forall>i < length (bu_transactions b).
          receipt_of (bu_transaction_results b) (bu_transactions b ! i) i (bu_receipts b ! i))"

lemma receipts_ok_add:
  assumes "receipts_ok b"
  shows "receipts_ok (add_transaction_result env b tx result diff)"
proof -
  let ?b = "add_transaction_result env b tx result diff" and ?n = "length (bu_transactions b)"
  obtain r where r: "bu_receipts ?b = bu_receipts b @ [r]" "tr_transaction_hash r = tx_hash tx" "tr_from r = tx_caller tx"
    "tr_transaction_index r = of_nat ?n" "tr_gas_used r = er_tx_gas_used result"
    "cumulative_gas_used (snd (tr_inner r)) = bu_cumulative_gas_used b + er_tx_gas_used result"
    "rc_logs (snd (tr_inner r)) = er_logs result"
    by (simp add: add_transaction_result_def build_receipt_def transaction_receipt_new_def Let_def)
  have len: "length (bu_receipts b) = ?n" "length (bu_transaction_results b) = ?n"
    and cum: "bu_cumulative_gas_used b = sum_list (map er_tx_gas_used (bu_transaction_results b))"
    and old: "\<And>i. i < ?n \<Longrightarrow> receipt_of (bu_transaction_results b) (bu_transactions b ! i) i (bu_receipts b ! i)"
    using assms by (simp_all add: receipts_ok_def)
  have "receipt_of (bu_transaction_results ?b) (bu_transactions ?b ! i) i (bu_receipts ?b ! i)" if "i < Suc ?n" for i
  proof (cases "i = ?n")
    case True
    with r len cum show ?thesis by (simp add: receipt_of_def nth_append)
  next
    case False
    with that have "i < ?n" by simp
    with old [OF this] r(1) len show ?thesis by (simp add: receipt_of_def nth_append)
  qed
  with r(1) len cum show ?thesis by (simp add: receipts_ok_def)
qed

lemma builds_receipts_ok: "builds env b txs b' \<Longrightarrow> receipts_ok b \<Longrightarrow> receipts_ok b'"
  by (induction rule: builds.induct) (simp_all add: receipts_ok_add)

text \<open>The EVM charges a transaction no more gas than its limit; a transaction whose limit is below
  the floor is not executed.\<close>

definition gas_bounded :: "('w, 'bp, 'bx, 'd, 'v, 'x, 'i) builder_env \<Rightarrow> bool" where
  "gas_bounded env \<longleftrightarrow>
     (\<forall>b tx result diff. executed env b tx result diff \<longrightarrow>
        er_tx_gas_used result \<le> tx_gas_limit tx \<and> er_total_gas_spent result \<le> tx_gas_limit tx
        \<and> er_floor_gas result \<le> tx_gas_limit tx)"

lemma word_add_le_limit:
  fixes u c g l :: "'a::len word"
  assumes "u \<le> l" and "c \<le> g" and "g \<le> l - u"
  shows "u + c \<le> l" and "unat (u + c) = unat u + unat c"
proof -
  from assms(2,3) have "unat c \<le> unat (l - u)" by (simp add: word_le_nat_alt [symmetric])
  moreover have "unat (l - u) = unat l - unat u" using assms(1) by (rule unat_sub)
  ultimately have le: "unat u + unat c \<le> unat l" using assms(1) by (simp add: word_le_nat_alt)
  have "unat l < 2 ^ LENGTH('a)" by (rule unsigned_less)
  with le have "unat u + unat c < 2 ^ LENGTH('a)" by linarith
  then show "unat (u + c) = unat u + unat c" by (simp add: unat_word_ariths)
  with le show "u + c \<le> l" by (simp add: word_le_nat_alt)
qed

lemma builds_gas:
  assumes "builds env b txs b'" and "gas_bounded env" "\<not> bu_disable_block_gas_limit b"
    and "ph_gas_used (bu_header b) \<le> ph_gas_limit (bu_header b)"
  shows "ph_gas_used (bu_header b') \<le> ph_gas_limit (bu_header b')"
  using assms
proof (induction rule: builds.induct)
  case (add b tx result diff txs b')
  let ?b = "add_transaction_result env b tx result diff"
  have "tx_gas_limit tx \<le> ph_gas_limit (bu_header b) - ph_gas_used (bu_header b)"
    using add.hyps(1) add.prems(2)
    by (simp add: validate_transaction_def gas_remaining_def gas_used_def split: if_splits)
  moreover have "transaction_block_gas_contribution (bu_hardfork b) result \<le> tx_gas_limit tx"
    using add.hyps(2) add.prems(1) by (auto simp: gas_bounded_def transaction_block_gas_contribution_def)
  ultimately have "ph_gas_used (bu_header ?b) \<le> ph_gas_limit (bu_header b)"
    using word_add_le_limit(1) add.prems(3) by simp
  moreover have "ph_gas_limit (bu_header ?b) = ph_gas_limit (bu_header b)"
    by (rule header_frame_eqD(4)) simp
  ultimately show ?case using add.IH add.prems(1,2) by simp
qed

text \<open>Before Amsterdam the gas of a block is the sum of what its transactions used.\<close>

lemma builds_cumulative:
  "builds env b txs b' \<Longrightarrow> \<not> AMSTERDAM \<le> into_evm_spec (bu_hardfork b)
     \<Longrightarrow> ph_gas_used (bu_header b) = bu_cumulative_gas_used b \<Longrightarrow> ph_gas_used (bu_header b') = bu_cumulative_gas_used b'"
  by (induction rule: builds.induct) (simp_all add: transaction_block_gas_contribution_def)

section \<open>Finished blocks\<close>

text \<open>Rewards change the state and its diff only.\<close>

lemma apply_rewards_frame:
  fixes r :: "'r state_error + unit"
  shows "apply_rewards env b rewards = (r, b') \<Longrightarrow> \<exists>st sd. b' = b\<lparr>bu_state := st, bu_state_diff := sd\<rparr>"
proof (induction rewards arbitrary: b)
  case Nil
  then show ?case by (intro exI [of _ "bu_state b"] exI [of _ "bu_state_diff b"]) simp
next
  case (Cons x rewards)
  obtain addr reward where x: "x = (addr, reward)" by (cases x)
  show ?case
  proof (cases "0 < reward")
    case False
    with Cons x show ?thesis by simp
  next
    case True
    obtain e :: "'r state_error + account_info" and st where m: "state_modify_account (bb_state_env env) (bu_state b) addr
        (\<lambda>(balance, nonce, code). (balance + ucast reward, nonce, code)) = (e, st)" by fastforce
    show ?thesis
    proof (cases e)
      case (Inl err)
      with Cons.prems x True m show ?thesis
        by (intro exI [of _ st] exI [of _ "bu_state_diff b"]) auto
    next
      case (Inr info)
      with Cons.prems x True m have "apply_rewards env
        (b\<lparr>bu_state := st, bu_state_diff := apply_account_change (bu_state_diff b) addr info\<rparr>) rewards = (r, b')" by simp
      from Cons.IH [OF this] show ?thesis by auto
    qed
  qed
qed

lemma bu_finalize_Inr:
  assumes "bu_finalize env b = Inr built"
  shows "bt_block built = local_block_new (bb_header_env env) (bb_transactions_root env) (bu_hardfork b)
       (finalized_header env b) (bu_transactions b) (bu_receipts b) [] (bu_withdrawals b)"
    "bt_transaction_results built = bu_transaction_results b" "bt_state built = bu_state b"
    "bt_state_diff built = bu_state_diff b"
  using assms by (auto simp: bu_finalize_def Let_def split: if_splits)

lemma miner_reward_merge: "MERGE \<le> into_evm_spec hardfork \<Longrightarrow> miner_reward hardfork = None"
  by (cases hardfork) (simp_all add: spec_le_simps)

lemma finalize_block_cases:
  assumes "finalize_block env b = (Inr built :: 'r block_finalize_error + _)"
  shows "\<exists>b'. bu_finalize env b' = (Inr built :: 'r block_finalize_error + _)
    \<and> (\<exists>st sd. b' = b\<lparr>bu_state := st, bu_state_diff := sd\<rparr>) \<and> (MERGE \<le> into_evm_spec (bu_hardfork b) \<longrightarrow> b' = b)"
proof (cases "miner_reward (bu_hardfork b)")
  case None
  with assms show ?thesis
    by (intro exI [of _ b] conjI exI [of _ "bu_state b"] exI [of _ "bu_state_diff b"]) (simp_all add: finalize_block_def bu_finalize_def Let_def split: if_splits)
next
  case (Some reward)
  obtain r b' where a: "apply_rewards env b [(ph_beneficiary (bu_header b), reward)] = (r :: 'r state_error + _, b')" by fastforce
  have "bu_finalize env b' = (Inr built :: 'r block_finalize_error + _)"
    using assms Some a unfolding finalize_block_def by (cases r) simp_all
  moreover have "\<not> MERGE \<le> into_evm_spec (bu_hardfork b)" using Some miner_reward_merge by fastforce
  ultimately show ?thesis using apply_rewards_frame [OF a] by blast
qed

lemma length_map_transaction_receipt_logs [simp]:
  "length (map_transaction_receipt_logs h n i k rs) = length rs"
  by (induction h n i k rs rule: map_transaction_receipt_logs.induct) (simp_all split: prod.splits)

lemma map_transaction_receipt_logs_nth:
  "j < length rs \<Longrightarrow> \<exists>logs. map_transaction_receipt_logs h n i k rs ! j = map_receipt_logs (rs ! j) logs"
proof (induction h n i k rs arbitrary: j rule: map_transaction_receipt_logs.induct)
  case (2 h n i k r rs)
  then show ?case by (cases j) (auto split: prod.splits)
qed simp

end
