(* ===== verification/Reservable_Storage.thy ===== *)
theory Reservable_Storage
  imports Sparse_Storage State_Diff
begin

text \<open>
  The block storage of a local chain (\<^verbatim>\<open>crates/block/storage/src/reservable.rs\<close>): a sparse storage,
  ranges of reserved blocks that are only built when they are asked for, and the state diffs of
  the blocks. The locks around the reservations and the sparse storage are not modelled: an
  operation that changes them through a shared reference returns the changed storage. \<open>usize\<close>
  has 64 bits.
\<close>

section \<open>The model\<close>

record 'bp reservation =
  rs_first_number :: u64
  rs_last_number :: u64
  rs_interval :: u64
  rs_previous_base_fee_per_gas :: "u128 option"
  rs_previous_state_root :: b256
  rs_previous_total_difficulty :: u256
  rs_previous_diff_index :: u64
  rs_block_config :: "'bp block_config"

record ('w, 'bp) reservable_storage =
  rv_reservations :: "'bp reservation list"
  rv_storage :: "'w sparse_storage"
  rv_state_diffs :: "(u64 \<times> state_diff) list"
  rv_number_to_diff_index :: "u64 \<rightharpoonup> u64"
  rv_last_block_number :: u64

definition covers :: "'bp reservation \<Rightarrow> u64 \<Rightarrow> bool" where
  "covers r n \<longleftrightarrow> rs_first_number r \<le> n \<and> n \<le> rs_last_number r"

definition find_reservation :: "'bp reservation list \<Rightarrow> u64 \<Rightarrow> 'bp reservation option" where
  "find_reservation rs n = find (\<lambda>r. covers r n) rs"

definition reservable_empty :: "u64 \<Rightarrow> ('w, 'bp) reservable_storage" where
  "reservable_empty last_block_number =
     \<lparr>rv_reservations = [], rv_storage = sparse_default, rv_state_diffs = [],
      rv_number_to_diff_index = Map.empty, rv_last_block_number = last_block_number\<rparr>"

definition with_genesis_block :: "'w local_block \<Rightarrow> state_diff \<Rightarrow> u256 \<Rightarrow> ('w, 'bp) reservable_storage" where
  "with_genesis_block b diff total_difficulty =
     \<lparr>rv_reservations = [], rv_storage = sparse_with_block b total_difficulty,
      rv_state_diffs = [(0, diff)], rv_number_to_diff_index = [0 \<mapsto> 0], rv_last_block_number = 0\<rparr>"

text \<open>The closure of \<^verbatim>\<open>retain_mut\<close>: a reservation is kept, cut or dropped.\<close>

definition retain_reservation :: "u64 \<Rightarrow> 'bp reservation \<Rightarrow> 'bp reservation option" where
  "retain_reservation n r =
     (if rs_last_number r \<le> n then Some r
      else if rs_first_number r \<le> n then Some (r\<lparr>rs_last_number := n\<rparr>)
      else None)"

text \<open>The diff index of a block: of the block itself, or of the block before its reservation.\<close>

definition diff_index :: "('w, 'bp) reservable_storage \<Rightarrow> u64 \<Rightarrow> u64 option" where
  "diff_index s n =
     (case rv_number_to_diff_index s n of
        Some i \<Rightarrow> Some i
      | None \<Rightarrow> map_option rs_previous_diff_index (find_reservation (rv_reservations s) n))"

definition reservable_revert_to_block ::
  "('w, 'bp) reservable_storage \<Rightarrow> u64 \<Rightarrow> (bool \<times> ('w, 'bp) reservable_storage) outcome" where
  "reservable_revert_to_block s n =
     (if rv_last_block_number s < n then Return (False, s)
      else
        (let s = s\<lparr>rv_last_block_number := n, rv_storage := sparse_revert_to_block (rv_storage s) n\<rparr>
         in if n = 0
            then Return (True,
              s\<lparr>rv_reservations := [],
                rv_state_diffs := take 1 (rv_state_diffs s),
                rv_number_to_diff_index := [0 \<mapsto> 0]\<rparr>)
            else
              (let s = s\<lparr>rv_reservations := List.map_filter (retain_reservation n) (rv_reservations s)\<rparr>
               in case diff_index s n of
                    None \<Rightarrow> Panic
                  | Some i \<Rightarrow>
                      Return (True,
                        s\<lparr>rv_state_diffs := take (unat (i + 1)) (rv_state_diffs s),
                          rv_number_to_diff_index :=
                            (\<lambda>k. if k \<le> n then rv_number_to_diff_index s k else None)\<rparr>))))"

definition reservable_logs ::
  "('w, 'bp) reservable_storage \<Rightarrow> u64 \<Rightarrow> u64 \<Rightarrow> address list \<Rightarrow> b256 list option list \<Rightarrow> filter_log list" where
  "reservable_logs s from_block to_block addresses topics =
     sparse_logs (rv_storage s) from_block to_block addresses topics"

definition reservable_block_by_hash :: "('w, 'bp) reservable_storage \<Rightarrow> b256 \<Rightarrow> 'w local_block option" where
  "reservable_block_by_hash s h = sparse_block_by_hash (rv_storage s) h"

definition reservable_block_by_transaction_hash ::
  "('w, 'bp) reservable_storage \<Rightarrow> b256 \<Rightarrow> 'w local_block option" where
  "reservable_block_by_transaction_hash s h = sparse_block_by_transaction_hash (rv_storage s) h"

definition reservable_contains_block_number :: "('w, 'bp) reservable_storage \<Rightarrow> u64 \<Rightarrow> bool" where
  "reservable_contains_block_number s n = sparse_contains_block_number (rv_storage s) n"

definition reservable_receipt_by_transaction_hash ::
  "('w, 'bp) reservable_storage \<Rightarrow> b256 \<Rightarrow> block_receipt option" where
  "reservable_receipt_by_transaction_hash s h = sparse_receipt_by_transaction_hash (rv_storage s) h"

definition reservable_total_difficulty_by_hash :: "('w, 'bp) reservable_storage \<Rightarrow> b256 \<Rightarrow> u256 option" where
  "reservable_total_difficulty_by_hash s h = sparse_total_difficulty_by_hash (rv_storage s) h"

definition state_diffs_until_block ::
  "('w, 'bp) reservable_storage \<Rightarrow> u64 \<Rightarrow> (u64 \<times> state_diff) list option outcome" where
  "state_diffs_until_block s n =
     (case diff_index s n of
        None \<Rightarrow> Return None
      | Some i \<Rightarrow>
          if unat i < length (rv_state_diffs s)
          then Return (Some (take (unat i + 1) (rv_state_diffs s)))
          else Panic)"

text \<open>The number of additional blocks is not zero.\<close>

definition reserve_blocks ::
  "('w, 'bp) reservable_storage \<Rightarrow> u64 \<Rightarrow> u64 \<Rightarrow> u128 option \<Rightarrow> b256 \<Rightarrow> u256 \<Rightarrow> 'bp block_config
     \<Rightarrow> ('w, 'bp) reservable_storage" where
  "reserve_blocks s additional interval previous_base_fee previous_state_root previous_total_difficulty config =
     s\<lparr>rv_reservations := rv_reservations s @
         [\<lparr>rs_first_number = rv_last_block_number s + 1,
           rs_last_number = rv_last_block_number s + additional,
           rs_interval = interval,
           rs_previous_base_fee_per_gas = previous_base_fee,
           rs_previous_state_root = previous_state_root,
           rs_previous_total_difficulty = previous_total_difficulty,
           rs_previous_diff_index = of_nat (length (rv_state_diffs s)) - 1,
           rs_block_config = config\<rparr>],
       rv_last_block_number := rv_last_block_number s + additional\<rparr>"

section \<open>Reserved blocks\<close>

text \<open>
  The two recursive calculations. A recursion that visits more reservations than there are visits
  one of them again and never ends: it overflows the stack. The fuel is one more than the number
  of reservations, because the first reservation is no longer in the list.
\<close>

fun calculate_timestamp_for_reserved_block ::
  "nat \<Rightarrow> 'w sparse_storage \<Rightarrow> 'bp reservation list \<Rightarrow> 'bp reservation \<Rightarrow> u64 \<Rightarrow> u64 outcome" where
  "calculate_timestamp_for_reserved_block 0 storage reservations reservation n = Panic"
| "calculate_timestamp_for_reserved_block (Suc fuel) storage reservations reservation n =
     (let previous_block_number = rs_first_number reservation - 1
      in bind_outcome
           (case find_reservation reservations previous_block_number of
              Some previous_reservation \<Rightarrow>
                calculate_timestamp_for_reserved_block fuel storage reservations previous_reservation
                  previous_block_number
            | None \<Rightarrow>
                (case sparse_block_by_number storage previous_block_number of
                   Some previous_block \<Rightarrow> Return (bh_timestamp (lb_header previous_block))
                 | None \<Rightarrow> Panic))
           (\<lambda>previous_timestamp.
              Return (previous_timestamp
                + rs_interval reservation * (n - rs_first_number reservation + 1))))"

fun calculate_slot_number_for_reserved_block ::
  "nat \<Rightarrow> 'w sparse_storage \<Rightarrow> 'bp reservation list \<Rightarrow> 'bp reservation \<Rightarrow> u64 \<Rightarrow> u64 option outcome" where
  "calculate_slot_number_for_reserved_block 0 storage reservations reservation n = Panic"
| "calculate_slot_number_for_reserved_block (Suc fuel) storage reservations reservation n =
     (if into_evm_spec (bc_hardfork (rs_block_config reservation)) < AMSTERDAM then Return None
      else
        (let previous_block_number = rs_first_number reservation - 1
         in bind_outcome
              (case find_reservation reservations previous_block_number of
                 Some previous_reservation \<Rightarrow>
                   calculate_slot_number_for_reserved_block fuel storage reservations previous_reservation
                     previous_block_number
               | None \<Rightarrow>
                   (case sparse_block_by_number storage previous_block_number of
                      Some previous_block \<Rightarrow> Return (bh_slot_number (lb_header previous_block))
                    | None \<Rightarrow> Panic))
              (\<lambda>previous_slot_number.
                 Return (Some (case previous_slot_number of
                                 None \<Rightarrow> n - rs_first_number reservation
                               | Some slot_number \<Rightarrow> slot_number + (n - previous_block_number))))))"

text \<open>The reservations that are left when one block of a reservation is taken out.\<close>

definition split_reservation :: "'bp reservation \<Rightarrow> u64 \<Rightarrow> 'bp reservation list" where
  "split_reservation r n =
     (if n \<noteq> rs_first_number r then [r\<lparr>rs_last_number := n - 1\<rparr>] else [])
     @ (if n \<noteq> rs_last_number r then [r\<lparr>rs_first_number := n + 1\<rparr>] else [])"

text \<open>The empty block that a reservation stands for.\<close>

definition reserved_block ::
  "('w, 'bp, 'bx) header_env \<Rightarrow> 'bp reservation \<Rightarrow> u64 \<Rightarrow> u64 \<Rightarrow> u64 option \<Rightarrow> 'w local_block outcome" where
  "reserved_block env reservation n timestamp slot_number =
     bind_outcome
       (partial_header_new env (rs_block_config reservation)
          (no_overrides\<lparr>ho_number := Some n,
                        ho_state_root := Some (rs_previous_state_root reservation),
                        ho_base_fee := rs_previous_base_fee_per_gas reservation,
                        ho_timestamp := Some timestamp,
                        ho_slot_number := slot_number\<rparr>) None [] None)
       (\<lambda>ph. Return (local_block_empty env (bc_hardfork (rs_block_config reservation)) ph))"

definition try_fulfilling_reservation ::
  "('w, 'bp, 'bx) header_env \<Rightarrow> ('w, 'bp) reservable_storage \<Rightarrow> u64
     \<Rightarrow> ((insert_block_error + 'w local_block option) \<times> ('w, 'bp) reservable_storage) outcome" where
  "try_fulfilling_reservation env s n =
     (case find_enum (\<lambda>_ r. covers r n) 0 (rv_reservations s) of
        None \<Rightarrow> Return (Inr None, s)
      | Some idx \<Rightarrow>
          (let reservation = rv_reservations s ! idx;
               reservations = remove_nth idx (rv_reservations s) @ split_reservation reservation n;
               s = s\<lparr>rv_reservations := reservations\<rparr>;
               fuel = Suc (length reservations)
           in bind_outcome (calculate_timestamp_for_reserved_block fuel (rv_storage s) reservations reservation n)
                (\<lambda>timestamp.
              bind_outcome (calculate_slot_number_for_reserved_block fuel (rv_storage s) reservations reservation n)
                (\<lambda>slot_number.
              bind_outcome (reserved_block env reservation n timestamp slot_number)
                (\<lambda>block.
                   let (r, storage) = sparse_insert_block (rv_storage s) block
                                        (rs_previous_total_difficulty reservation)
                   in Return (map_sum id Some r, s\<lparr>rv_storage := storage\<rparr>))))))"

definition reservable_block_by_number ::
  "('w, 'bp, 'bx) header_env \<Rightarrow> ('w, 'bp) reservable_storage \<Rightarrow> u64
     \<Rightarrow> ((insert_block_error + 'w local_block option) \<times> ('w, 'bp) reservable_storage) outcome" where
  "reservable_block_by_number env s n =
     bind_outcome (try_fulfilling_reservation env s n) (\<lambda>(r, s).
       Return
         (case r of
            Inl e \<Rightarrow> Inl e
          | Inr (Some block) \<Rightarrow> Inr (Some block)
          | Inr None \<Rightarrow> Inr (sparse_block_by_number (rv_storage s) n), s))"

datatype insert_block_and_receipts_error =
    InsertDuplicateBlock b256 u64
  | InsertReceiptError insert_receipt_error
  | InsertDuplicateTransaction b256

fun from_insert_block_error :: "insert_block_error \<Rightarrow> insert_block_and_receipts_error" where
  "from_insert_block_error (DuplicateBlock h n) = InsertDuplicateBlock h n"
| "from_insert_block_error (DuplicateTransaction h) = InsertDuplicateTransaction h"

definition insert_block_and_receipts ::
  "('w, 'bp) reservable_storage \<Rightarrow> 'w local_block \<Rightarrow> state_diff \<Rightarrow> u256
     \<Rightarrow> (insert_block_and_receipts_error + 'w local_block) \<times> ('w, 'bp) reservable_storage" where
  "insert_block_and_receipts s block diff total_difficulty =
     (let s = s\<lparr>rv_last_block_number := block_number block\<rparr>;
          s = s\<lparr>rv_number_to_diff_index :=
                  (rv_number_to_diff_index s)(rv_last_block_number s \<mapsto> of_nat (length (rv_state_diffs s)))\<rparr>;
          s = s\<lparr>rv_state_diffs := rv_state_diffs s @ [(rv_last_block_number s, diff)]\<rparr>;
          (r, storage) = sparse_insert_receipts (rv_storage s) (lb_transaction_receipts block);
          s = s\<lparr>rv_storage := storage\<rparr>
      in case r of
           Inl e \<Rightarrow> (Inl (InsertReceiptError e), s)
         | Inr _ \<Rightarrow>
             (let (r, storage) = sparse_insert_block (rv_storage s) block total_difficulty
              in (map_sum from_insert_block_error id r, s\<lparr>rv_storage := storage\<rparr>)))"

end
