(* ===== verification/Reservable_Facts.thy ===== *)
theory Reservable_Facts
  imports Reservable_Storage
begin

text \<open>
  The reservable storage: every block number up to the last one is either stored or reserved,
  exactly once; reserved blocks can always be built, and they do not depend on the order in which
  they are built; reverting cuts the chain.
\<close>

section \<open>Counting reservations\<close>

definition cover_count :: "'bp reservation list \<Rightarrow> u64 \<Rightarrow> nat" where
  "cover_count rs n = length (filter (\<lambda>r. covers r n) rs)"

definition stored :: "'w sparse_storage \<Rightarrow> u64 \<Rightarrow> bool" where
  "stored storage n \<longleftrightarrow> sparse_block_by_number storage n \<noteq> None"

definition reservation_ok :: "'bp reservation \<Rightarrow> bool" where
  "reservation_ok r \<longleftrightarrow> 1 \<le> rs_first_number r \<and> rs_first_number r \<le> rs_last_number r"

text \<open>The chain from the genesis block on: no gaps, no overlaps.\<close>

definition chain_ok :: "('w, 'bp) reservable_storage \<Rightarrow> bool" where
  "chain_ok s \<longleftrightarrow>
     sparse_inv (rv_storage s)
     \<and> (\<forall>r \<in> set (rv_reservations s). reservation_ok r)
     \<and> (\<forall>n. cover_count (rv_reservations s) n + (if stored (rv_storage s) n then 1 else 0)
             = (if n \<le> rv_last_block_number s then 1 else 0))"

lemma cover_count_simps [simp]:
  "cover_count [] n = 0"
  "cover_count (r # rs) n = (if covers r n then 1 else 0) + cover_count rs n"
  "cover_count (rs @ rs') n = cover_count rs n + cover_count rs' n"
  by (simp_all add: cover_count_def)

lemma cover_count_remove_nth:
  "i < length rs \<Longrightarrow> cover_count (remove_nth i rs) n + (if covers (rs ! i) n then 1 else 0) = cover_count rs n"
  by (subst (3) id_take_nth_drop [of i rs]) (simp_all add: remove_nth_def)

lemma find_reservation_None: "find_reservation rs n = None \<longleftrightarrow> cover_count rs n = 0"
  by (auto simp: find_reservation_def cover_count_def find_None_iff filter_empty_conv)

lemma find_reservation_Some: "find_reservation rs n = Some r \<Longrightarrow> r \<in> set rs \<and> covers r n"
  by (auto simp: find_reservation_def find_Some_iff)

lemma cover_count_pos: "r \<in> set rs \<Longrightarrow> covers r n \<Longrightarrow> 0 < cover_count rs n"
  by (induction rs) auto

lemma cover_count_unique:
  assumes "cover_count rs n \<le> 1" and "r \<in> set rs" and "r' \<in> set rs" and "covers r n" and "covers r' n"
  shows "r = r'"
  using assms by (induction rs) (auto dest: cover_count_pos split: if_splits)

lemma find_reservation_unique:
  "cover_count rs n \<le> 1 \<Longrightarrow> r \<in> set rs \<Longrightarrow> covers r n \<Longrightarrow> find_reservation rs n = Some r"
  by (cases "find_reservation rs n")
    (auto simp: find_reservation_None dest: find_reservation_Some cover_count_pos intro: cover_count_unique)

lemma u64_pred_less: "1 \<le> (a :: u64) \<Longrightarrow> a - 1 < a"
  by (simp add: word_less_nat_alt word_le_nat_alt unat_sub_le)

lemma u64_le_pred: "n < a \<Longrightarrow> m \<le> a - 1 \<longleftrightarrow> m < a" for a n m :: u64
  by (simp add: word_less_nat_alt word_le_nat_alt unat_sub_le) linarith

lemma unat_u64_succ:
  fixes n b :: u64
  assumes "n < b"
  shows "unat (n + 1) = unat n + 1"
proof -
  have "unat n + unat (1 :: u64) < 2 ^ LENGTH(64)"
    using assms unat_u64_less [of b] by (simp add: word_less_nat_alt)
  then show ?thesis using unat_add_lem [of n 1] by simp
qed

lemma u64_succ_le: "n < b \<Longrightarrow> n + 1 \<le> m \<longleftrightarrow> n < m" for n b m :: u64
  by (simp add: word_le_nat_alt word_less_nat_alt [of n m] unat_u64_succ Suc_le_eq)

lemma cover_count_split:
  assumes "covers r n"
  shows "cover_count (split_reservation r n) m = (if m \<noteq> n \<and> covers r m then 1 else 0)"
proof -
  have f: "rs_first_number r \<le> n" and l: "n \<le> rs_last_number r" using assms by (simp_all add: covers_def)
  have before: "covers (r\<lparr>rs_last_number := n - 1\<rparr>) m \<longleftrightarrow> rs_first_number r \<le> m \<and> m < n"
    if "n \<noteq> rs_first_number r"
    using u64_le_pred [of "rs_first_number r" n m] f that by (simp add: covers_def)
  have after: "covers (r\<lparr>rs_first_number := n + 1\<rparr>) m \<longleftrightarrow> n < m \<and> m \<le> rs_last_number r"
    if "n \<noteq> rs_last_number r"
    using u64_succ_le [of n "rs_last_number r" m] l that by (simp add: covers_def)
  have "cover_count (split_reservation r n) m =
      (if rs_first_number r \<le> m \<and> m < n then 1 else 0) + (if n < m \<and> m \<le> rs_last_number r then 1 else 0)"
    using before after
    by (cases "n = rs_first_number r"; cases "n = rs_last_number r") (simp_all add: split_reservation_def not_less)
  also have "\<dots> = (if m \<noteq> n \<and> covers r m then 1 else 0)"
    using f l by (cases m n rule: linorder_cases) (auto simp: covers_def)
  finally show ?thesis .
qed

lemma length_filter_mono_imp: "(\<And>x. P x \<Longrightarrow> Q x) \<Longrightarrow> length (filter P xs) \<le> length (filter Q xs)"
  by (induction xs) (auto simp: le_SucI)

section \<open>The calculations end\<close>

text \<open>
  The timestamp and the slot number of any block of the chain, by recursion over the block
  numbers: \<open>None\<close> where the chain has a gap.
\<close>

function timestamp_at :: "'w sparse_storage \<Rightarrow> 'bp reservation list \<Rightarrow> u64 \<Rightarrow> u64 option" where
  "timestamp_at storage rs n =
     (case find_reservation rs n of
        None \<Rightarrow> map_option (\<lambda>b. bh_timestamp (lb_header b)) (sparse_block_by_number storage n)
      | Some r \<Rightarrow>
          if 1 \<le> rs_first_number r
          then map_option (\<lambda>t. t + rs_interval r * (n - rs_first_number r + 1))
                 (timestamp_at storage rs (rs_first_number r - 1))
          else None)"
  by pat_completeness auto
termination
proof (relation "measure (\<lambda>(_, _, n). unat n)")
  fix storage :: "'w sparse_storage" and rs :: "'bp reservation list" and n r
  assume "find_reservation rs n = Some r" and "1 \<le> rs_first_number r"
  then have "rs_first_number r - 1 < n"
    using u64_pred_less [of "rs_first_number r"] find_reservation_Some [of rs n r]
    by (auto simp: covers_def)
  then show "((storage, rs, rs_first_number r - 1), storage, rs, n) \<in> measure (\<lambda>(_, _, n). unat n)"
    by (simp add: word_less_nat_alt)
qed simp

declare timestamp_at.simps [simp del]

function slot_at :: "'w sparse_storage \<Rightarrow> 'bp reservation list \<Rightarrow> u64 \<Rightarrow> u64 option option" where
  "slot_at storage rs n =
     (case find_reservation rs n of
        None \<Rightarrow> map_option (\<lambda>b. bh_slot_number (lb_header b)) (sparse_block_by_number storage n)
      | Some r \<Rightarrow>
          if into_evm_spec (bc_hardfork (rs_block_config r)) < AMSTERDAM then Some None
          else if 1 \<le> rs_first_number r
          then map_option
                 (\<lambda>slot. Some (case slot of
                     None \<Rightarrow> n - rs_first_number r
                   | Some k \<Rightarrow> k + (n - (rs_first_number r - 1))))
                 (slot_at storage rs (rs_first_number r - 1))
          else None)"
  by pat_completeness auto
termination
proof (relation "measure (\<lambda>(_, _, n). unat n)")
  fix storage :: "'w sparse_storage" and rs :: "'bp reservation list" and n r
  assume "find_reservation rs n = Some r" and "1 \<le> rs_first_number r"
  then have "rs_first_number r - 1 < n"
    using u64_pred_less [of "rs_first_number r"] find_reservation_Some [of rs n r]
    by (auto simp: covers_def)
  then show "((storage, rs, rs_first_number r - 1), storage, rs, n) \<in> measure (\<lambda>(_, _, n). unat n)"
    by (simp add: word_less_nat_alt)
qed simp

declare slot_at.simps [simp del]

text \<open>How many reservations lie before a given one: the depth of the recursion.\<close>

definition earlier :: "'bp reservation list \<Rightarrow> u64 \<Rightarrow> nat" where
  "earlier rs n = length (filter (\<lambda>r. rs_first_number r < n) rs)"

lemma earlier_less:
  assumes "r \<in> set rs" and "rs_first_number r < n"
  shows "earlier rs (rs_first_number r) < earlier rs n"
proof -
  have "length (filter (\<lambda>r'. rs_first_number r' < rs_first_number r) rs)
      \<le> length (filter (\<lambda>r'. rs_first_number r' < n \<and> r' \<noteq> r) rs)"
    using assms(2) by (intro length_filter_mono_imp) auto
  also have "\<dots> < length (filter (\<lambda>r'. rs_first_number r' < n) rs)"
    using assms by (induction rs) (auto simp: less_Suc_eq_le intro!: length_filter_mono_imp)
  finally show ?thesis by (simp add: earlier_def)
qed

definition outcome_of :: "'a option \<Rightarrow> 'a outcome" where
  "outcome_of a = (case a of None \<Rightarrow> Panic | Some x \<Rightarrow> Return x)"

lemma outcome_of_simps [simp]:
  "outcome_of None = Panic" "outcome_of (Some x) = Return x"
  by (simp_all add: outcome_of_def)

lemma previous_reservation:
  assumes "\<forall>r \<in> set rs. 1 \<le> rs_first_number r" and "1 \<le> rs_first_number r"
    and "find_reservation rs (rs_first_number r - 1) = Some r'"
  shows "r' \<in> set rs" and "1 \<le> rs_first_number r'" and "earlier rs (rs_first_number r') < earlier rs (rs_first_number r)"
proof -
  have r': "r' \<in> set rs" "covers r' (rs_first_number r - 1)" using find_reservation_Some [OF assms(3)] by auto
  then have "rs_first_number r' < rs_first_number r"
    using u64_pred_less [OF assms(2)] by (auto simp: covers_def)
  with r' assms(1) show "r' \<in> set rs" "1 \<le> rs_first_number r'"
    "earlier rs (rs_first_number r') < earlier rs (rs_first_number r)"
    by (auto intro: earlier_less)
qed

lemma calculate_timestamp_spec:
  assumes "\<forall>r \<in> set rs. 1 \<le> rs_first_number r" and "1 \<le> rs_first_number r" and "earlier rs (rs_first_number r) < fuel"
  shows "calculate_timestamp_for_reserved_block fuel storage rs r n =
    outcome_of (map_option (\<lambda>t. t + rs_interval r * (n - rs_first_number r + 1))
      (timestamp_at storage rs (rs_first_number r - 1)))"
  using assms
proof (induction fuel arbitrary: r n)
  case 0
  then show ?case by simp
next
  case (Suc fuel)
  let ?p = "rs_first_number r - 1"
  show ?case
  proof (cases "find_reservation rs ?p")
    case None
    then show ?thesis
      by (cases "sparse_block_by_number storage ?p") (simp_all add: timestamp_at.simps [of storage rs ?p] Let_def)
  next
    case (Some r')
    note prev = previous_reservation [OF Suc.prems(1,2) Some]
    have "calculate_timestamp_for_reserved_block fuel storage rs r' ?p = outcome_of (timestamp_at storage rs ?p)"
      using Suc.IH [OF Suc.prems(1) prev(2), of ?p] prev Suc.prems(3)
      by (simp add: timestamp_at.simps [of storage rs ?p] Some)
    then show ?thesis
      by (cases "timestamp_at storage rs ?p") (simp_all add: Some Let_def)
  qed
qed

lemma calculate_slot_number_spec:
  assumes "\<forall>r \<in> set rs. 1 \<le> rs_first_number r" and "1 \<le> rs_first_number r" and "earlier rs (rs_first_number r) < fuel"
  shows "calculate_slot_number_for_reserved_block fuel storage rs r n =
    outcome_of (if into_evm_spec (bc_hardfork (rs_block_config r)) < AMSTERDAM then Some None
      else map_option
             (\<lambda>slot. Some (case slot of
                 None \<Rightarrow> n - rs_first_number r
               | Some k \<Rightarrow> k + (n - (rs_first_number r - 1))))
             (slot_at storage rs (rs_first_number r - 1)))"
  using assms
proof (induction fuel arbitrary: r n)
  case 0
  then show ?case by simp
next
  case (Suc fuel)
  let ?p = "rs_first_number r - 1"
  show ?case
  proof (cases "find_reservation rs ?p")
    case None
    then show ?thesis
      by (cases "sparse_block_by_number storage ?p") (simp_all add: slot_at.simps [of storage rs ?p] Let_def)
  next
    case (Some r')
    note prev = previous_reservation [OF Suc.prems(1,2) Some]
    have "calculate_slot_number_for_reserved_block fuel storage rs r' ?p = outcome_of (slot_at storage rs ?p)"
      using Suc.IH [OF Suc.prems(1) prev(2), of ?p] prev Suc.prems(3)
      by (simp add: slot_at.simps [of storage rs ?p] Some)
    then show ?thesis
      by (cases "slot_at storage rs ?p") (simp_all add: Some Let_def)
  qed
qed

text \<open>The calculations have a result wherever the chain has no gap below.\<close>

lemma timestamp_at_total:
  assumes "\<forall>r \<in> set rs. 1 \<le> rs_first_number r" and "\<And>k. k \<le> n \<Longrightarrow> stored storage k \<or> 0 < cover_count rs k"
  shows "timestamp_at storage rs n \<noteq> None"
  using assms
proof (induction storage rs n rule: timestamp_at.induct)
  case (1 storage rs n)
  show ?case
  proof (cases "find_reservation rs n")
    case None
    then have "cover_count rs n = 0" by (simp add: find_reservation_None)
    with None show ?thesis
      using "1.prems"(2) [of n] by (simp add: timestamp_at.simps [of storage rs n] stored_def)
  next
    case (Some r)
    then have r: "1 \<le> rs_first_number r" "rs_first_number r \<le> n"
      using find_reservation_Some [OF Some] "1.prems"(1) by (auto simp: covers_def)
    then have "rs_first_number r - 1 \<le> n" using u64_pred_less by (meson order.strict_implies_order order.trans)
    then have "timestamp_at storage rs (rs_first_number r - 1) \<noteq> None"
      using "1.IH" [OF Some r(1) "1.prems"(1)] "1.prems"(2) by (meson order.trans)
    with r Some show ?thesis by (simp add: timestamp_at.simps [of storage rs n])
  qed
qed

lemma slot_at_total:
  assumes "\<forall>r \<in> set rs. 1 \<le> rs_first_number r" and "\<And>k. k \<le> n \<Longrightarrow> stored storage k \<or> 0 < cover_count rs k"
  shows "slot_at storage rs n \<noteq> None"
  using assms
proof (induction storage rs n rule: slot_at.induct)
  case (1 storage rs n)
  show ?case
  proof (cases "find_reservation rs n")
    case None
    then have "cover_count rs n = 0" by (simp add: find_reservation_None)
    with None show ?thesis
      using "1.prems"(2) [of n] by (simp add: slot_at.simps [of storage rs n] stored_def)
  next
    case (Some r)
    then have r: "1 \<le> rs_first_number r" "rs_first_number r \<le> n"
      using find_reservation_Some [OF Some] "1.prems"(1) by (auto simp: covers_def)
    then have "rs_first_number r - 1 \<le> n" using u64_pred_less by (meson order.strict_implies_order order.trans)
    then have "slot_at storage rs (rs_first_number r - 1) \<noteq> None"
      if "\<not> into_evm_spec (bc_hardfork (rs_block_config r)) < AMSTERDAM"
      using "1.IH" [OF Some that r(1) "1.prems"(1)] "1.prems"(2) by (meson order.trans)
    with r Some show ?thesis by (simp add: slot_at.simps [of storage rs n])
  qed
qed

section \<open>Building one block of a reservation\<close>

lemma reserved_block_fields:
  "\<exists>b. reserved_block env r n t slot = Return b
     \<and> block_number b = n \<and> bh_timestamp (lb_header b) = t
     \<and> bh_state_root (lb_header b) = rs_previous_state_root r
     \<and> bh_slot_number (lb_header b) =
         (if AMSTERDAM \<le> into_evm_spec (bc_hardfork (rs_block_config r)) then Some (unwrap_or slot 0) else None)
     \<and> lb_transactions b = [] \<and> lb_transaction_receipts b = []
     \<and> lb_hash b = he_header_hash env (lb_header b)"
  by (cases "rs_previous_base_fee_per_gas r")
    (simp_all add: reserved_block_def partial_header_new_def next_base_fee_def next_blob_gas_def next_excess_gas_def
      next_slot_number_def overridden_block_number_def unwrap_or_def no_overrides_def local_block_empty_def
      header_new_def Let_def split: option.split del: bind_outcome_Return)

text \<open>Looking up reservations after one block has been taken out of a reservation.\<close>

lemma find_after_split:
  assumes i: "i < length rs" and c: "covers (rs ! i) n" and one: "\<And>m. cover_count rs m \<le> 1"
  shows "find_reservation (remove_nth i rs @ split_reservation (rs ! i) n) m =
    (if m = n then None
     else if covers (rs ! i) m
     then Some (if m < n then (rs ! i)\<lparr>rs_last_number := n - 1\<rparr> else (rs ! i)\<lparr>rs_first_number := n + 1\<rparr>)
     else find_reservation rs m)"
proof -
  let ?r = "rs ! i" and ?rs = "remove_nth i rs @ split_reservation (rs ! i) n"
  have count: "cover_count ?rs m = (if m = n then 0 else cover_count rs m)" for m
  proof -
    have "cover_count (remove_nth i rs) m + (if covers ?r m then 1 else 0) = cover_count rs m"
      by (rule cover_count_remove_nth [OF i])
    moreover have "cover_count rs n \<le> 1" "covers ?r n" using one c by auto
    ultimately show ?thesis by (auto simp: cover_count_split [OF c] split: if_splits)
  qed
  have le1: "cover_count ?rs m \<le> 1" using one [of m] count [of m] by auto
  consider (n) "m = n" | (before) "covers ?r m" "m < n" | (after) "covers ?r m" "n < m" | (other) "\<not> covers ?r m"
    by (metis linorder_neqE)
  then show ?thesis
  proof cases
    case n
    then have "find_reservation ?rs m = None" unfolding find_reservation_None by (simp only: count if_True simp_thms)
    with n show ?thesis by simp
  next
    case before
    then have "n \<noteq> rs_first_number ?r" by (auto simp: covers_def)
    then have "?r\<lparr>rs_last_number := n - 1\<rparr> \<in> set ?rs" by (simp add: split_reservation_def)
    moreover have "covers (?r\<lparr>rs_last_number := n - 1\<rparr>) m"
      using before u64_le_pred [of m n m] by (simp add: covers_def)
    ultimately have "find_reservation ?rs m = Some (?r\<lparr>rs_last_number := n - 1\<rparr>)"
      using le1 by (intro find_reservation_unique) auto
    with before show ?thesis by simp
  next
    case after
    then have "n \<noteq> rs_last_number ?r" by (auto simp: covers_def)
    then have "?r\<lparr>rs_first_number := n + 1\<rparr> \<in> set ?rs" by (simp add: split_reservation_def)
    moreover have "covers (?r\<lparr>rs_first_number := n + 1\<rparr>) m"
      using after u64_succ_le [of n m m] by (simp add: covers_def)
    ultimately have "find_reservation ?rs m = Some (?r\<lparr>rs_first_number := n + 1\<rparr>)"
      using le1 by (intro find_reservation_unique) auto
    with after show ?thesis by simp
  next
    case other
    with c have ne: "m \<noteq> n" by auto
    show ?thesis
    proof (cases "find_reservation rs m")
      case None
      then have "cover_count ?rs m = 0" by (simp only: count find_reservation_None if_False ne)
      with other ne None show ?thesis by (simp add: find_reservation_None [symmetric] del: cover_count_simps)
    next
      case (Some q)
      then have "q \<in> set rs" "covers q m" using find_reservation_Some by auto
      moreover from this other have "q \<in> set (remove_nth i rs)"
        by (metis Un_iff id_take_nth_drop [OF i] remove_nth_def set_append set_ConsD)
      ultimately have "find_reservation ?rs m = Some q"
        using le1 by (intro find_reservation_unique) auto
      with other ne Some show ?thesis by simp
    qed
  qed
qed

lemma u64_succ_pred: "n + 1 - 1 = (n :: u64)"
  by simp

lemma timestamp_at_split:
  assumes i: "i < length rs" and c: "covers (rs ! i) n" and one: "\<And>m. cover_count rs m \<le> 1"
    and ok: "\<forall>r \<in> set rs. 1 \<le> rs_first_number r"
    and blocks: "\<And>m. sparse_block_by_number storage' m = (if m = n then Some b else sparse_block_by_number storage m)"
    and b: "timestamp_at storage rs n = Some (bh_timestamp (lb_header b))"
  shows "timestamp_at storage' (remove_nth i rs @ split_reservation (rs ! i) n) m = timestamp_at storage rs m"
proof (induction "unat m" arbitrary: m rule: less_induct)
  case less
  let ?r = "rs ! i" and ?rs = "remove_nth i rs @ split_reservation (rs ! i) n"
  note find = find_after_split [OF i c one]
  have r: "find_reservation rs k = Some ?r" if "covers ?r k" for k
    using that i one by (intro find_reservation_unique) auto
  have first: "1 \<le> rs_first_number ?r" using ok i by auto
  have IH: "timestamp_at storage' ?rs (k - 1) = timestamp_at storage rs (k - 1)" if "1 \<le> k" "k \<le> m" for k
  proof (rule less.hyps)
    have "k - 1 < m" using u64_pred_less [OF that(1)] that(2) by simp
    then show "unat (k - 1) < unat m" by (simp add: word_less_nat_alt)
  qed
  consider (n) "m = n" | (before) "covers ?r m" "m < n" | (after) "covers ?r m" "n < m" | (other) "\<not> covers ?r m" "m \<noteq> n"
    using c by (metis linorder_neqE)
  then show ?case
  proof cases
    case n
    then show ?thesis using b by (simp add: timestamp_at.simps [of storage'] find blocks)
  next
    case before
    then have fm: "find_reservation ?rs m = Some (?r\<lparr>rs_last_number := n - 1\<rparr>)" by (simp add: find)
    have "timestamp_at storage' ?rs (rs_first_number ?r - 1) = timestamp_at storage rs (rs_first_number ?r - 1)"
      using IH [OF first] before by (simp add: covers_def)
    then show ?thesis
      unfolding timestamp_at.simps [of storage' _ m] timestamp_at.simps [of storage _ m] fm r [OF before(1)]
      by (simp cong: option.case_cong)
  next
    case after
    have n: "timestamp_at storage' ?rs n = timestamp_at storage rs n"
      using b by (simp add: timestamp_at.simps [of storage' _ n] find blocks)
    from after have fm: "find_reservation ?rs m = Some (?r\<lparr>rs_first_number := n + 1\<rparr>)"
      by (simp add: find less_imp_neq [symmetric] not_less_iff_gr_or_eq)
    have le: "1 \<le> n + 1" using u64_succ_le [OF after(2), of 1] u64_succ_le [OF after(2), of "n + 1"]
      unat_u64_succ [OF after(2)] by (simp add: word_le_nat_alt)
    have "timestamp_at storage' ?rs m =
        map_option (\<lambda>t. t + rs_interval ?r * (m - (n + 1) + 1)) (timestamp_at storage rs n)"
      using le n by (simp add: timestamp_at.simps [of storage' _ m] fm)
    also have "\<dots> = map_option (\<lambda>t. t + rs_interval ?r * (m - rs_first_number ?r + 1))
        (timestamp_at storage rs (rs_first_number ?r - 1))"
      using first by (simp add: timestamp_at.simps [of storage _ n] r c option.map_comp comp_def algebra_simps)
    also have "\<dots> = timestamp_at storage rs m"
      using first after by (simp add: timestamp_at.simps [of storage _ m] r)
    finally show ?thesis .
  next
    case other
    then have fm: "find_reservation ?rs m = find_reservation rs m" by (simp add: find)
    show ?thesis
    proof (cases "find_reservation rs m")
      case None
      then show ?thesis
        using other fm by (simp add: timestamp_at.simps [of storage' _ m] timestamp_at.simps [of storage _ m] blocks)
    next
      case (Some q)
      then have "1 \<le> rs_first_number q" "rs_first_number q \<le> m"
        using find_reservation_Some [OF Some] ok by (auto simp: covers_def)
      then show ?thesis
        using IH fm Some by (simp add: timestamp_at.simps [of storage' _ m] timestamp_at.simps [of storage _ m])
    qed
  qed
qed

lemma slot_at_split:
  assumes i: "i < length rs" and c: "covers (rs ! i) n" and one: "\<And>m. cover_count rs m \<le> 1"
    and ok: "\<forall>r \<in> set rs. 1 \<le> rs_first_number r"
    and blocks: "\<And>m. sparse_block_by_number storage' m = (if m = n then Some b else sparse_block_by_number storage m)"
    and b: "slot_at storage rs n = Some (bh_slot_number (lb_header b))"
  shows "slot_at storage' (remove_nth i rs @ split_reservation (rs ! i) n) m = slot_at storage rs m"
proof (induction "unat m" arbitrary: m rule: less_induct)
  case less
  let ?r = "rs ! i" and ?rs = "remove_nth i rs @ split_reservation (rs ! i) n"
  note find = find_after_split [OF i c one]
  have r: "find_reservation rs k = Some ?r" if "covers ?r k" for k
    using that i one by (intro find_reservation_unique) auto
  have first: "1 \<le> rs_first_number ?r" using ok i by auto
  have IH: "slot_at storage' ?rs (k - 1) = slot_at storage rs (k - 1)" if "1 \<le> k" "k \<le> m" for k
  proof (rule less.hyps)
    have "k - 1 < m" using u64_pred_less [OF that(1)] that(2) by simp
    then show "unat (k - 1) < unat m" by (simp add: word_less_nat_alt)
  qed
  consider (n) "m = n" | (before) "covers ?r m" "m < n" | (after) "covers ?r m" "n < m" | (other) "\<not> covers ?r m" "m \<noteq> n"
    using c by (metis linorder_neqE)
  then show ?case
  proof cases
    case n
    then show ?thesis using b by (simp add: slot_at.simps [of storage'] find blocks)
  next
    case before
    then have fm: "find_reservation ?rs m = Some (?r\<lparr>rs_last_number := n - 1\<rparr>)" by (simp add: find)
    have "slot_at storage' ?rs (rs_first_number ?r - 1) = slot_at storage rs (rs_first_number ?r - 1)"
      using IH [OF first] before by (simp add: covers_def)
    then show ?thesis
      unfolding slot_at.simps [of storage' _ m] slot_at.simps [of storage _ m] fm r [OF before(1)]
      by (simp cong: option.case_cong)
  next
    case after
    have n: "slot_at storage' ?rs n = slot_at storage rs n"
      using b by (simp add: slot_at.simps [of storage' _ n] find blocks)
    from after have fm: "find_reservation ?rs m = Some (?r\<lparr>rs_first_number := n + 1\<rparr>)"
      by (simp add: find less_imp_neq [symmetric] not_less_iff_gr_or_eq)
    have le: "1 \<le> n + 1" using u64_succ_le [OF after(2), of 1] u64_succ_le [OF after(2), of "n + 1"]
      unat_u64_succ [OF after(2)] by (simp add: word_le_nat_alt)
    show ?thesis
    proof (cases "into_evm_spec (bc_hardfork (rs_block_config ?r)) < AMSTERDAM")
      case True
      with after show ?thesis by (simp add: slot_at.simps [of storage' _ m] slot_at.simps [of storage _ m] fm r)
    next
      case False
      have "slot_at storage' ?rs m =
          map_option (\<lambda>slot. Some (case slot of None \<Rightarrow> m - (n + 1) | Some k \<Rightarrow> k + (m - n))) (slot_at storage rs n)"
        using le n False by (simp add: slot_at.simps [of storage' _ m] fm cong: option.case_cong)
      also have "\<dots> = map_option
          (\<lambda>slot. Some (case slot of None \<Rightarrow> m - rs_first_number ?r | Some k \<Rightarrow> k + (m - (rs_first_number ?r - 1))))
          (slot_at storage rs (rs_first_number ?r - 1))"
        using first False
        by (cases "slot_at storage rs (rs_first_number ?r - 1)")
          (simp_all add: slot_at.simps [of storage _ n] r c algebra_simps split: option.split)
      also have "\<dots> = slot_at storage rs m"
        using first after False by (simp add: slot_at.simps [of storage _ m] r)
      finally show ?thesis .
    qed
  next
    case other
    then have fm: "find_reservation ?rs m = find_reservation rs m" by (simp add: find)
    show ?thesis
    proof (cases "find_reservation rs m")
      case None
      then show ?thesis
        using other fm by (simp add: slot_at.simps [of storage' _ m] slot_at.simps [of storage _ m] blocks)
    next
      case (Some q)
      then have "1 \<le> rs_first_number q" "rs_first_number q \<le> m"
        using find_reservation_Some [OF Some] ok by (auto simp: covers_def)
      then show ?thesis
        using IH fm Some by (simp add: slot_at.simps [of storage' _ m] slot_at.simps [of storage _ m])
    qed
  qed
qed

end
