(* ===== verification/Reservable_Chain.thy ===== *)
theory Reservable_Chain
  imports Reservable_Facts
begin

text \<open>
  The chain that a reservable storage stands for: a function from block numbers to blocks. Asking
  for blocks does not change it, whatever blocks are built on the way.
\<close>

section \<open>The abstract chain\<close>

text \<open>
  Hashes of headers with different numbers are different, and a stored block carries the hash of
  its header.
\<close>

definition hash_separates :: "('w, 'bp, 'bx) header_env \<Rightarrow> bool" where
  "hash_separates env \<longleftrightarrow>
     (\<forall>h h'. he_header_hash env h = he_header_hash env h' \<longrightarrow> bh_number h = bh_number h')"

definition hashes_ok :: "('w, 'bp, 'bx) header_env \<Rightarrow> 'w sparse_storage \<Rightarrow> bool" where
  "hashes_ok env storage \<longleftrightarrow> (\<forall>b \<in> sparse_blocks storage. lb_hash b = he_header_hash env (lb_header b))"

definition rv_ok :: "('w, 'bp, 'bx) header_env \<Rightarrow> ('w, 'bp) reservable_storage \<Rightarrow> bool" where
  "rv_ok env s \<longleftrightarrow> chain_ok s \<and> hashes_ok env (rv_storage s)"

text \<open>The block with a given number: the stored one, or the one its reservation stands for.\<close>

definition chain_block ::
  "('w, 'bp, 'bx) header_env \<Rightarrow> ('w, 'bp) reservable_storage \<Rightarrow> u64 \<Rightarrow> 'w local_block option" where
  "chain_block env s n =
     (case find_reservation (rv_reservations s) n of
        None \<Rightarrow> sparse_block_by_number (rv_storage s) n
      | Some r \<Rightarrow>
          Option.bind (timestamp_at (rv_storage s) (rv_reservations s) n) (\<lambda>timestamp.
          Option.bind (slot_at (rv_storage s) (rv_reservations s) n) (\<lambda>slot.
            case reserved_block env r n timestamp slot of Return b \<Rightarrow> Some b | Panic \<Rightarrow> None)))"

lemma chain_okD:
  assumes "chain_ok s"
  shows "sparse_inv (rv_storage s)"
    and "r \<in> set (rv_reservations s) \<Longrightarrow> 1 \<le> rs_first_number r \<and> rs_first_number r \<le> rs_last_number r"
    and "cover_count (rv_reservations s) n \<le> 1"
    and "stored (rv_storage s) n \<longleftrightarrow> n \<le> rv_last_block_number s \<and> cover_count (rv_reservations s) n = 0"
    and "0 < cover_count (rv_reservations s) n \<Longrightarrow> n \<le> rv_last_block_number s"
proof -
  have eq: "cover_count (rv_reservations s) n + (if stored (rv_storage s) n then 1 else 0)
      = (if n \<le> rv_last_block_number s then 1 else 0)"
    using assms by (simp add: chain_ok_def)
  then show "cover_count (rv_reservations s) n \<le> 1"
    "stored (rv_storage s) n \<longleftrightarrow> n \<le> rv_last_block_number s \<and> cover_count (rv_reservations s) n = 0"
    "0 < cover_count (rv_reservations s) n \<Longrightarrow> n \<le> rv_last_block_number s"
    by (auto split: if_splits)
qed (use assms in \<open>auto simp: chain_ok_def reservation_ok_def\<close>)

lemma find_enum_reservation:
  assumes "find_reservation rs n = Some r"
  obtains i where "find_enum (\<lambda>_ r. covers r n) 0 rs = Some i" "i < length rs" "rs ! i = r" "covers r n"
  using assms unfolding find_reservation_def find_Some_iff find_enum_0_Some by blast

lemma find_enum_no_reservation:
  "find_reservation rs n = None \<Longrightarrow> find_enum (\<lambda>_ r. covers r n) 0 rs = None"
  by (auto simp: find_reservation_def find_None_iff find_enum_0_None)

lemma chain_block_total:
  assumes ok: "chain_ok s" and n: "n \<le> rv_last_block_number s"
  shows "timestamp_at (rv_storage s) (rv_reservations s) n \<noteq> None"
    and "slot_at (rv_storage s) (rv_reservations s) n \<noteq> None"
proof -
  have first: "\<forall>r \<in> set (rv_reservations s). 1 \<le> rs_first_number r" using chain_okD(2) [OF ok] by blast
  have "stored (rv_storage s) k \<or> 0 < cover_count (rv_reservations s) k" if "k \<le> n" for k
    using chain_okD(4) [OF ok, of k] that n by auto
  then show "timestamp_at (rv_storage s) (rv_reservations s) n \<noteq> None"
    "slot_at (rv_storage s) (rv_reservations s) n \<noteq> None"
    using timestamp_at_total [OF first] slot_at_total [OF first] by blast+
qed

section \<open>Building a reserved block\<close>

lemma sparse_hash_fresh:
  assumes inv: "sparse_inv storage" and hashes: "hashes_ok env storage" and sep: "hash_separates env"
    and b: "lb_hash b = he_header_hash env (lb_header b)"
    and fresh: "sparse_block_by_number storage (block_number b) = None"
  shows "ss_hash_to_block storage (lb_hash b) = None" and "ss_hash_to_total_difficulty storage (lb_hash b) = None"
proof -
  show "ss_hash_to_block storage (lb_hash b) = None"
  proof (rule ccontr)
    assume "ss_hash_to_block storage (lb_hash b) \<noteq> None"
    then obtain c where c: "c \<in> sparse_blocks storage" "lb_hash c = lb_hash b"
      using sparse_invD(3) [OF inv] by auto
    then have "he_header_hash env (lb_header c) = he_header_hash env (lb_header b)"
      using hashes b by (auto simp: hashes_ok_def)
    then have "block_number c = block_number b" using sep unfolding hash_separates_def by blast
    then have "sparse_block_by_number storage (block_number b) = Some c"
      using c(1) by (simp add: sparse_by_number_iff [OF inv])
    with fresh show False by simp
  qed
  then show "ss_hash_to_total_difficulty storage (lb_hash b) = None"
    using sparse_invD(4) [OF inv] by (metis domIff)
qed

lemma sparse_insert_empty_block:
  assumes "sparse_inv storage" and "hashes_ok env storage" and "hash_separates env"
    and "lb_hash b = he_header_hash env (lb_header b)" and "lb_transactions b = []"
    and "sparse_block_by_number storage (block_number b) = None"
  shows "\<exists>storage'. sparse_insert_block storage b d = (Inr b, storage')"
  using sparse_hash_fresh [OF assms(1-4,6)] assms(5,6)
  by (simp add: sparse_insert_block_def sparse_block_by_number_def tx_hashes_def)

lemma by_number_after_insert:
  assumes inv: "sparse_inv storage" and ins: "sparse_insert_block storage b d = (Inr b', storage')"
  shows "sparse_block_by_number storage' n = (if n = block_number b then Some b else sparse_block_by_number storage n)"
proof (rule option_eqI)
  fix c
  note I = sparse_insert_ok [OF inv ins]
  have "block_number a \<noteq> block_number b" if "a \<in> sparse_blocks storage" for a
    using I(4) that by (metis image_eqI)
  then show "sparse_block_by_number storage' n = Some c \<longleftrightarrow>
      (if n = block_number b then Some b else sparse_block_by_number storage n) = Some c"
    unfolding sparse_by_number_iff [OF I(2)] I(3)
    by (auto simp: sparse_by_number_iff [OF inv])
qed

lemma hashes_ok_insert:
  assumes "sparse_inv storage" and "sparse_insert_block storage b d = (Inr b', storage')"
    and "hashes_ok env storage" and "lb_hash b = he_header_hash env (lb_header b)"
  shows "hashes_ok env storage'"
  using assms sparse_insert_ok(3) [OF assms(1,2)] by (simp add: hashes_ok_def)

lemma split_reservation_ok:
  assumes c: "covers r n" and r: "reservation_ok r" and q: "q \<in> set (split_reservation r n)"
  shows "reservation_ok q"
proof -
  have "rs_first_number r \<le> n" "n \<le> rs_last_number r" using c by (simp_all add: covers_def)
  then show ?thesis
    using q r u64_le_pred [of "rs_first_number r" n "rs_first_number r"]
      u64_succ_le [of n "rs_last_number r"] unat_u64_succ [of n "rs_last_number r"]
    by (auto simp: split_reservation_def reservation_ok_def word_le_nat_alt [of 1] split: if_splits)
qed

lemma split_reservations_ok:
  assumes "\<forall>r \<in> set rs. reservation_ok r" and "i < length rs" and "covers (rs ! i) n"
  shows "\<forall>r \<in> set (remove_nth i rs @ split_reservation (rs ! i) n). reservation_ok r"
  using assms set_remove_nth [of i rs] split_reservation_ok [OF assms(3)] by (auto dest: nth_mem)

text \<open>A reservation without one of its blocks, and the block stored instead: still a chain.\<close>

lemma chain_ok_split:
  assumes ok: "chain_ok s" and i: "i < length (rv_reservations s)" and c: "covers (rv_reservations s ! i) n"
    and inv: "sparse_inv storage'"
    and blocks: "\<And>m. sparse_block_by_number storage' m = (if m = n then Some b else sparse_block_by_number (rv_storage s) m)"
  shows "chain_ok (s\<lparr>rv_reservations := remove_nth i (rv_reservations s) @ split_reservation (rv_reservations s ! i) n,
    rv_storage := storage'\<rparr>)"
proof -
  let ?rs = "rv_reservations s" and ?r = "rv_reservations s ! i"
  have pos: "0 < cover_count ?rs n" by (rule cover_count_pos [OF nth_mem [OF i] c])
  have count: "cover_count (remove_nth i ?rs @ split_reservation ?r n) m + (if stored storage' m then 1 else 0)
      = (if m \<le> rv_last_block_number s then 1 else 0)" for m
  proof -
    have "stored storage' m \<longleftrightarrow> m = n \<or> stored (rv_storage s) m" by (simp add: stored_def blocks)
    moreover have "cover_count (remove_nth i ?rs) m + (if covers ?r m then 1 else 0) = cover_count ?rs m"
      by (rule cover_count_remove_nth [OF i])
    ultimately show ?thesis
      using chain_okD(3-5) [OF ok, of m] pos c chain_okD(4) [OF ok, of n]
      by (cases "m = n") (auto simp: cover_count_split [OF c] split: if_splits)
  qed
  have "\<forall>q \<in> set (remove_nth i ?rs @ split_reservation ?r n). reservation_ok q"
    using ok i c by (intro split_reservations_ok) (simp_all add: chain_ok_def)
  with inv count show ?thesis unfolding chain_ok_def by simp
qed

text \<open>The calculations for a block only depend on the chain up to it.\<close>

lemma timestamp_at_cong:
  assumes "\<forall>r \<in> set rs. 1 \<le> rs_first_number r"
    and "\<And>m. m \<le> n \<Longrightarrow> map_option (\<lambda>r. (rs_first_number r, rs_interval r)) (find_reservation rs' m) =
      map_option (\<lambda>r. (rs_first_number r, rs_interval r)) (find_reservation rs m)"
    and "\<And>m. m \<le> n \<Longrightarrow> sparse_block_by_number storage' m = sparse_block_by_number storage m"
  shows "timestamp_at storage' rs' n = timestamp_at storage rs n"
  using assms
proof (induction storage rs n rule: timestamp_at.induct)
  case (1 storage rs n)
  show ?case
  proof (cases "find_reservation rs n")
    case None
    then show ?thesis
      using "1.prems"(2,3) [of n] by (simp add: timestamp_at.simps [of storage rs n] timestamp_at.simps [of storage'])
  next
    case (Some r)
    with "1.prems"(2) [of n] obtain r' where r': "find_reservation rs' n = Some r'"
      "rs_first_number r' = rs_first_number r" "rs_interval r' = rs_interval r" by auto
    have r: "1 \<le> rs_first_number r" "rs_first_number r \<le> n"
      using find_reservation_Some [OF Some] "1.prems"(1) by (auto simp: covers_def)
    then have "rs_first_number r - 1 \<le> n" using u64_pred_less by (meson order.strict_implies_order order.trans)
    then have "timestamp_at storage' rs' (rs_first_number r - 1) = timestamp_at storage rs (rs_first_number r - 1)"
      using "1.prems"(2,3) by (intro "1.IH" [OF Some r(1) "1.prems"(1)]) (auto dest: order.trans)
    with r r' Some show ?thesis
      by (simp add: timestamp_at.simps [of storage rs n] timestamp_at.simps [of storage' _ n])
  qed
qed

lemma slot_at_cong:
  assumes "\<forall>r \<in> set rs. 1 \<le> rs_first_number r"
    and "\<And>m. m \<le> n \<Longrightarrow> map_option (\<lambda>r. (rs_first_number r, rs_block_config r)) (find_reservation rs' m) =
      map_option (\<lambda>r. (rs_first_number r, rs_block_config r)) (find_reservation rs m)"
    and "\<And>m. m \<le> n \<Longrightarrow> sparse_block_by_number storage' m = sparse_block_by_number storage m"
  shows "slot_at storage' rs' n = slot_at storage rs n"
  using assms
proof (induction storage rs n rule: slot_at.induct)
  case (1 storage rs n)
  show ?case
  proof (cases "find_reservation rs n")
    case None
    then show ?thesis
      using "1.prems"(2,3) [of n] by (simp add: slot_at.simps [of storage rs n] slot_at.simps [of storage'])
  next
    case (Some r)
    with "1.prems"(2) [of n] obtain r' where r': "find_reservation rs' n = Some r'"
      "rs_first_number r' = rs_first_number r" "rs_block_config r' = rs_block_config r" by auto
    have r: "1 \<le> rs_first_number r" "rs_first_number r \<le> n"
      using find_reservation_Some [OF Some] "1.prems"(1) by (auto simp: covers_def)
    then have "rs_first_number r - 1 \<le> n" using u64_pred_less by (meson order.strict_implies_order order.trans)
    then have "slot_at storage' rs' (rs_first_number r - 1) = slot_at storage rs (rs_first_number r - 1)"
      if "\<not> into_evm_spec (bc_hardfork (rs_block_config r)) < AMSTERDAM"
      using "1.prems"(2,3) by (intro "1.IH" [OF Some that r(1) "1.prems"(1)]) (auto dest: order.trans)
    with r r' Some show ?thesis
      by (simp add: slot_at.simps [of storage rs n] slot_at.simps [of storage' _ n] cong: option.case_cong)
  qed
qed

lemma reserved_block_update [simp]:
  "reserved_block env (r\<lparr>rs_last_number := k\<rparr>) = reserved_block env r"
  "reserved_block env (r\<lparr>rs_first_number := k\<rparr>) = reserved_block env r"
  by (simp_all add: fun_eq_iff reserved_block_def)

lemma reserved_timestamp_and_slot:
  assumes ok: "chain_ok s" and i: "i < length (rv_reservations s)" and c: "covers (rv_reservations s ! i) n"
  defines "rs \<equiv> rv_reservations s" and "r \<equiv> rv_reservations s ! i"
  defines "rs' \<equiv> remove_nth i rs @ split_reservation r n"
  shows "calculate_timestamp_for_reserved_block (Suc (length rs')) (rv_storage s) rs' r n =
      outcome_of (timestamp_at (rv_storage s) rs n)"
    and "calculate_slot_number_for_reserved_block (Suc (length rs')) (rv_storage s) rs' r n =
      outcome_of (slot_at (rv_storage s) rs n)"
proof -
  have r: "1 \<le> rs_first_number r" and all: "\<forall>r \<in> set rs. 1 \<le> rs_first_number r"
    using chain_okD(2) [OF ok] i by (auto simp: r_def rs_def)
  have first: "\<forall>q \<in> set rs'. 1 \<le> rs_first_number q"
  proof -
    have "\<forall>q \<in> set rs'. reservation_ok q"
      unfolding rs'_def r_def rs_def using ok i c by (intro split_reservations_ok) (simp_all add: chain_ok_def)
    then show ?thesis by (simp add: reservation_ok_def)
  qed
  have fuel: "earlier rs' (rs_first_number r) < Suc (length rs')"
    unfolding earlier_def by (rule le_imp_less_Suc, rule length_filter_le)
  have one: "\<And>m. cover_count rs m \<le> 1" using chain_okD(3) [OF ok] by (simp add: rs_def)
  have same: "find_reservation rs' m = find_reservation rs m" if "m \<le> rs_first_number r - 1" for m
  proof -
    have "\<not> covers r m" "m \<noteq> n"
      using that u64_pred_less [OF r] c by (auto simp: covers_def r_def)
    then show ?thesis
      using find_after_split [of i rs n m] i c one by (simp add: rs_def r_def rs'_def)
  qed
  have find: "find_reservation rs n = Some r"
    using i c one by (intro find_reservation_unique) (auto simp: rs_def r_def)
  have "timestamp_at (rv_storage s) rs' (rs_first_number r - 1) = timestamp_at (rv_storage s) rs (rs_first_number r - 1)"
    by (rule timestamp_at_cong [OF all]) (simp_all add: same)
  then show "calculate_timestamp_for_reserved_block (Suc (length rs')) (rv_storage s) rs' r n =
      outcome_of (timestamp_at (rv_storage s) rs n)"
    unfolding calculate_timestamp_spec [OF first r fuel] by (simp add: timestamp_at.simps [of _ rs n] find r)
  have "slot_at (rv_storage s) rs' (rs_first_number r - 1) = slot_at (rv_storage s) rs (rs_first_number r - 1)"
    by (rule slot_at_cong [OF all]) (simp_all add: same)
  then show "calculate_slot_number_for_reserved_block (Suc (length rs')) (rv_storage s) rs' r n =
      outcome_of (slot_at (rv_storage s) rs n)"
    unfolding calculate_slot_number_spec [OF first r fuel] by (simp add: slot_at.simps [of _ rs n] find r)
qed

lemma slot_at_reserved:
  assumes "find_reservation rs n = Some r" and "slot_at storage rs n = Some slot"
  shows "slot = (if AMSTERDAM \<le> into_evm_spec (bc_hardfork (rs_block_config r)) then Some (unwrap_or slot 0) else None)"
  using assms by (auto simp: slot_at.simps [of storage rs n] unwrap_or_def not_less split: if_splits)

lemma chain_block_after_split:
  assumes ok: "chain_ok s" and i: "i < length (rv_reservations s)" and c: "covers (rv_reservations s ! i) n"
    and blocks: "\<And>m. sparse_block_by_number storage' m = (if m = n then Some b else sparse_block_by_number (rv_storage s) m)"
    and t: "timestamp_at (rv_storage s) (rv_reservations s) n = Some (bh_timestamp (lb_header b))"
    and sl: "slot_at (rv_storage s) (rv_reservations s) n = Some (bh_slot_number (lb_header b))"
    and b: "chain_block env s n = Some b"
  shows "chain_block env (s\<lparr>rv_reservations := remove_nth i (rv_reservations s) @ split_reservation (rv_reservations s ! i) n,
    rv_storage := storage'\<rparr>) m = chain_block env s m"
proof -
  let ?rs = "rv_reservations s"
  have one: "\<And>m. cover_count ?rs m \<le> 1" by (rule chain_okD(3) [OF ok])
  have first: "\<forall>r \<in> set ?rs. 1 \<le> rs_first_number r" using chain_okD(2) [OF ok] by blast
  note T = timestamp_at_split [OF i c one first blocks t] and S = slot_at_split [OF i c one first blocks sl]
  have r: "find_reservation ?rs m = Some (?rs ! i)" if "covers (?rs ! i) m"
    using that i one by (intro find_reservation_unique) auto
  show ?thesis
    using b r unfolding chain_block_def
    by (auto simp: T S find_after_split [OF i c one] blocks cong: option.case_cong)
qed

lemma fulfil_reserved:
  assumes rv: "rv_ok env s" and sep: "hash_separates env" and find: "find_reservation (rv_reservations s) n = Some r"
  obtains b s' where "try_fulfilling_reservation env s n = Return (Inr (Some b), s')"
    and "chain_block env s n = Some b" and "block_number b = n" and "rv_ok env s'"
    and "chain_block env s' = chain_block env s"
    and "rv_last_block_number s' = rv_last_block_number s" and "rv_state_diffs s' = rv_state_diffs s"
    and "rv_number_to_diff_index s' = rv_number_to_diff_index s"
    and "find_reservation (rv_reservations s') n = None"
    and "\<forall>m. m \<noteq> n \<longrightarrow> map_option rs_previous_diff_index (find_reservation (rv_reservations s') m) =
      map_option rs_previous_diff_index (find_reservation (rv_reservations s) m)"
proof -
  let ?rs = "rv_reservations s"
  have ok: "chain_ok s" and hashes: "hashes_ok env (rv_storage s)" using rv by (simp_all add: rv_ok_def)
  obtain i where i: "find_enum (\<lambda>_ r. covers r n) 0 ?rs = Some i" "i < length ?rs" "?rs ! i = r" "covers r n"
    using find by (rule find_enum_reservation)
  have c: "covers (?rs ! i) n" using i by simp
  have pos: "0 < cover_count ?rs n" by (rule cover_count_pos [OF nth_mem [OF i(2)] c])
  then have last: "n \<le> rv_last_block_number s" and free: "\<not> stored (rv_storage s) n"
    using chain_okD(4,5) [OF ok, of n] by auto
  obtain t slot where t: "timestamp_at (rv_storage s) ?rs n = Some t" and slot: "slot_at (rv_storage s) ?rs n = Some slot"
    using chain_block_total [OF ok last] by auto
  from reserved_block_fields [of env r n t slot] obtain b where b: "reserved_block env r n t slot = Return b"
    "block_number b = n" "bh_timestamp (lb_header b) = t" "bh_slot_number (lb_header b) = slot"
    "lb_transactions b = []" "lb_hash b = he_header_hash env (lb_header b)"
    using slot_at_reserved [OF find slot] by metis
  have inv: "sparse_inv (rv_storage s)" by (rule chain_okD(1) [OF ok])
  obtain storage' where ins: "sparse_insert_block (rv_storage s) b (rs_previous_total_difficulty r) = (Inr b, storage')"
    using sparse_insert_empty_block [OF inv hashes sep b(6,5)] free b(2) by (auto simp: stored_def)
  let ?s' = "s\<lparr>rv_reservations := remove_nth i ?rs @ split_reservation (?rs ! i) n, rv_storage := storage'\<rparr>"
  have blocks: "\<And>m. sparse_block_by_number storage' m = (if m = n then Some b else sparse_block_by_number (rv_storage s) m)"
    using by_number_after_insert [OF inv ins] b(2) by simp
  have cb: "chain_block env s n = Some b" using find t slot b(1) by (simp add: chain_block_def)
  show thesis
  proof
    show "try_fulfilling_reservation env s n = Return (Inr (Some b), ?s')"
      using reserved_timestamp_and_slot [OF ok i(2) c] i b(1) ins
      unfolding try_fulfilling_reservation_def i(1) i(3) t slot Let_def
      by (simp add: i(3) del: bind_outcome_Return calculate_timestamp_for_reserved_block.simps
          calculate_slot_number_for_reserved_block.simps length_append)
    show "rv_ok env ?s'"
      using chain_ok_split [OF ok i(2) c sparse_insert_ok(2) [OF inv ins] blocks]
        hashes_ok_insert [OF inv ins hashes b(6)] by (simp add: rv_ok_def)
    show "chain_block env ?s' = chain_block env s"
      using t slot b(3,4) by (intro ext chain_block_after_split [OF ok i(2) c blocks _ _ cb]) simp_all
    show "\<forall>m. m \<noteq> n \<longrightarrow> map_option rs_previous_diff_index (find_reservation (rv_reservations ?s') m) =
        map_option rs_previous_diff_index (find_reservation ?rs m)"
      using find_after_split [OF i(2) c chain_okD(3) [OF ok]]
        find_reservation_unique [OF chain_okD(3) [OF ok] nth_mem [OF i(2)]] by simp
    show "find_reservation (rv_reservations ?s') n = None"
      using find_after_split [OF i(2) c chain_okD(3) [OF ok], of n] by simp
  qed (simp_all add: cb b(2))
qed

section \<open>Changes of the chain\<close>

text \<open>A reservation without its last number.\<close>

definition core :: "'bp reservation \<Rightarrow> 'bp reservation" where
  "core r = r\<lparr>rs_last_number := 0\<rparr>"

lemma core_eq:
  assumes "core r' = core r"
  shows "rs_first_number r' = rs_first_number r" "rs_interval r' = rs_interval r"
    "rs_block_config r' = rs_block_config r" "reserved_block env r' = reserved_block env r"
proof -
  have "reserved_block env (core r') = reserved_block env (core r)" using assms by simp
  then show "reserved_block env r' = reserved_block env r" by (simp add: core_def)
qed (use assms in \<open>auto simp: core_def dest: arg_cong [where f = rs_first_number]
  arg_cong [where f = rs_interval] arg_cong [where f = rs_block_config]\<close>)

lemma chain_block_cong:
  assumes first: "\<forall>r \<in> set (rv_reservations s). 1 \<le> rs_first_number r"
    and find: "\<And>m. m \<le> n \<Longrightarrow> map_option core (find_reservation (rv_reservations s') m) =
      map_option core (find_reservation (rv_reservations s) m)"
    and blocks: "\<And>m. m \<le> n \<Longrightarrow> sparse_block_by_number (rv_storage s') m = sparse_block_by_number (rv_storage s) m"
  shows "chain_block env s' n = chain_block env s n"
proof -
  have found: "map_option f (find_reservation (rv_reservations s') m) = map_option f (find_reservation (rv_reservations s) m)"
    if "m \<le> n" and "\<And>r r'. core r' = core r \<Longrightarrow> f r' = f r" for f :: "_ \<Rightarrow> 'z" and m
  proof (cases "find_reservation (rv_reservations s) m")
    case None
    with find [OF that(1)] show ?thesis by simp
  next
    case (Some r)
    with find [OF that(1)] obtain r' where r': "find_reservation (rv_reservations s') m = Some r'" "core r' = core r"
      by auto
    from that(2) [OF r'(2)] show ?thesis by (simp add: Some r'(1))
  qed
  have T: "timestamp_at (rv_storage s') (rv_reservations s') n = timestamp_at (rv_storage s) (rv_reservations s) n"
    by (rule timestamp_at_cong [OF first]) (rule found, assumption, metis core_eq(1,2), rule blocks)
  have S: "slot_at (rv_storage s') (rv_reservations s') n = slot_at (rv_storage s) (rv_reservations s) n"
    by (rule slot_at_cong [OF first]) (rule found, assumption, metis core_eq(1,3), rule blocks)
  show ?thesis
  proof (cases "find_reservation (rv_reservations s) n")
    case None
    with find [of n] blocks [of n] show ?thesis by (simp add: chain_block_def)
  next
    case (Some r)
    with find [of n] obtain r' where r': "find_reservation (rv_reservations s') n = Some r'" "core r' = core r" by auto
    show ?thesis by (simp add: chain_block_def Some r'(1) T S core_eq(4) [OF r'(2)])
  qed
qed

lemma retain_covers:
  assumes "m \<le> n"
  shows "retain_reservation n r = Some r' \<Longrightarrow> (covers r' m \<longleftrightarrow> covers r m) \<and> core r' = core r"
    and "retain_reservation n r = None \<Longrightarrow> \<not> covers r m"
  using assms by (auto simp: retain_reservation_def covers_def core_def split: if_splits)

lemma retain_covers_above:
  assumes "n < m" and "retain_reservation n r = Some r'"
  shows "\<not> covers r' m"
  using assms by (auto simp: retain_reservation_def covers_def split: if_splits)

lemma cover_count_retain:
  "cover_count (List.map_filter (retain_reservation n) rs) m = (if m \<le> n then cover_count rs m else 0)"
proof (induction rs)
  case Nil
  then show ?case by (simp add: map_filter_simps)
next
  case (Cons r rs)
  show ?case
  proof (cases "retain_reservation n r")
    case None
    then show ?thesis using Cons retain_covers(2) [of m n r] by (auto simp: map_filter_simps)
  next
    case (Some r')
    then show ?thesis
      using Cons retain_covers(1) [of m n r r'] retain_covers_above [of n m r r']
      by (auto simp: map_filter_simps not_le)
  qed
qed

lemma find_retain:
  assumes "m \<le> n"
  shows "map_option core (find_reservation (List.map_filter (retain_reservation n) rs) m) =
    map_option core (find_reservation rs m)"
proof (induction rs)
  case Nil
  then show ?case by (simp add: map_filter_simps find_reservation_def)
next
  case (Cons r rs)
  show ?case
  proof (cases "retain_reservation n r")
    case None
    then show ?thesis
      using Cons retain_covers(2) [OF assms None] by (simp add: map_filter_simps find_reservation_def)
  next
    case (Some r')
    then show ?thesis
      using Cons retain_covers(1) [OF assms Some] by (simp add: map_filter_simps find_reservation_def)
  qed
qed

lemma retain_ok: "reservation_ok r \<Longrightarrow> retain_reservation n r = Some r' \<Longrightarrow> reservation_ok r'"
  by (auto simp: retain_reservation_def reservation_ok_def split: if_splits)

lemma by_number_after_revert:
  assumes "sparse_inv storage"
  shows "sparse_block_by_number (sparse_revert_to_block storage n) m =
    (if m \<le> n then sparse_block_by_number storage m else None)"
  by (rule option_eqI)
    (auto simp: sparse_by_number_iff [OF assms] sparse_by_number_iff [OF sparse_revert_inv [OF assms]]
      sparse_revert_blocks [OF assms])

lemma revert_ok:
  assumes rv: "rv_ok env s" and n: "n \<le> rv_last_block_number s"
    and s': "rv_storage s' = sparse_revert_to_block (rv_storage s) n" "rv_last_block_number s' = n"
      "rv_reservations s' = List.map_filter (retain_reservation n) (rv_reservations s)"
  shows "rv_ok env s'" and "chain_block env s' m = (if m \<le> n then chain_block env s m else None)"
proof -
  have ok: "chain_ok s" and hashes: "hashes_ok env (rv_storage s)" using rv by (simp_all add: rv_ok_def)
  note inv = chain_okD(1) [OF ok]
  have st: "stored (rv_storage s') k \<longleftrightarrow> k \<le> n \<and> stored (rv_storage s) k" for k
    by (simp add: stored_def s' by_number_after_revert [OF inv])
  have "reservation_ok r'" if "r' \<in> set (rv_reservations s')" for r'
  proof -
    from that obtain r where "r \<in> set (rv_reservations s)" "retain_reservation n r = Some r'"
      unfolding s' by (auto simp: List.map_filter_def)
    then show ?thesis using ok retain_ok by (auto simp: chain_ok_def)
  qed
  moreover have "cover_count (rv_reservations s') k + (if stored (rv_storage s') k then 1 else 0)
      = (if k \<le> rv_last_block_number s' then 1 else 0)" for k
    using chain_okD(3,4) [OF ok, of k] n unfolding st s'(2,3) cover_count_retain by (auto split: if_splits)
  ultimately have ok': "chain_ok s'" using sparse_revert_inv [OF inv] by (simp add: chain_ok_def s'(1))
  moreover have "hashes_ok env (rv_storage s')"
    using hashes unfolding s'(1) hashes_ok_def sparse_revert_blocks [OF inv] by simp
  ultimately show "rv_ok env s'" by (simp add: rv_ok_def)
  show "chain_block env s' m = (if m \<le> n then chain_block env s m else None)"
  proof (cases "m \<le> n")
    case True
    have "chain_block env s' m = chain_block env s m"
    proof (rule chain_block_cong)
      show "\<forall>r \<in> set (rv_reservations s). 1 \<le> rs_first_number r" using chain_okD(2) [OF ok] by blast
      show "map_option core (find_reservation (rv_reservations s') k) = map_option core (find_reservation (rv_reservations s) k)"
        if "k \<le> m" for k
        unfolding s'(3) using that True by (intro find_retain) simp
      show "sparse_block_by_number (rv_storage s') k = sparse_block_by_number (rv_storage s) k" if "k \<le> m" for k
        using order.trans [OF that True] by (simp add: s'(1) by_number_after_revert [OF inv])
    qed
    with True show ?thesis by simp
  next
    case False
    then have "find_reservation (rv_reservations s') m = None"
      unfolding find_reservation_None s'(3) cover_count_retain by simp
    with False show ?thesis by (simp add: chain_block_def s'(1) by_number_after_revert [OF inv])
  qed
qed

end
