(* ===== verification/Reservable_Ops.thy ===== *)
theory Reservable_Ops
  imports Reservable_Chain
begin

text \<open>
  The operations of the reservable storage on the chain it stands for, and the state diffs it
  keeps.
\<close>

section \<open>Reserving and inserting\<close>

lemma find_reservation_append:
  "find_reservation (rs @ rs') n = (case find_reservation rs n of Some r \<Rightarrow> Some r | None \<Rightarrow> find_reservation rs' n)"
  by (induction rs) (simp_all add: find_reservation_def)

lemma chain_block_reserved:
  assumes "chain_block env s n = Some b" and "find_reservation (rv_reservations s) n = Some r"
  obtains t slot where "timestamp_at (rv_storage s) (rv_reservations s) n = Some t"
    and "slot_at (rv_storage s) (rv_reservations s) n = Some slot" and "reserved_block env r n t slot = Return b"
proof -
  obtain t where t: "timestamp_at (rv_storage s) (rv_reservations s) n = Some t"
    using assms by (cases "timestamp_at (rv_storage s) (rv_reservations s) n") (simp_all add: chain_block_def)
  obtain slot where slot: "slot_at (rv_storage s) (rv_reservations s) n = Some slot"
    using assms t by (cases "slot_at (rv_storage s) (rv_reservations s) n") (simp_all add: chain_block_def)
  have "reserved_block env r n t slot = Return b"
    using assms t slot by (cases "reserved_block env r n t slot") (simp_all add: chain_block_def)
  with t slot show thesis by (rule that)
qed

lemma chain_block_timestamp:
  assumes "chain_block env s n = Some b"
  shows "timestamp_at (rv_storage s) (rv_reservations s) n = Some (bh_timestamp (lb_header b))"
proof (cases "find_reservation (rv_reservations s) n")
  case None
  with assms show ?thesis by (simp add: chain_block_def timestamp_at.simps [of _ _ n])
next
  case (Some r)
  from assms Some obtain t slot where "timestamp_at (rv_storage s) (rv_reservations s) n = Some t"
    "reserved_block env r n t slot = Return b" by (rule chain_block_reserved)
  with reserved_block_fields [of env r n t slot] show ?thesis by auto
qed

lemma chain_block_number:
  assumes "chain_ok s" and "chain_block env s n = Some b"
  shows "block_number b = n"
proof (cases "find_reservation (rv_reservations s) n")
  case None
  with assms show ?thesis by (simp add: chain_block_def sparse_by_number_iff [OF chain_okD(1)])
next
  case (Some r)
  from assms(2) Some obtain t slot where "reserved_block env r n t slot = Return b"
    by (rule chain_block_reserved)
  with reserved_block_fields [of env r n t slot] show ?thesis by auto
qed

lemma chain_block_None_iff:
  assumes ok: "chain_ok s"
  shows "chain_block env s n = None \<longleftrightarrow> rv_last_block_number s < n"
proof (cases "n \<le> rv_last_block_number s")
  case True
  show ?thesis
  proof (cases "find_reservation (rv_reservations s) n")
    case None
    then have "stored (rv_storage s) n" using True chain_okD(4) [OF ok, of n] by (simp add: find_reservation_None)
    with None True show ?thesis by (auto simp: chain_block_def stored_def)
  next
    case (Some r)
    obtain t slot where "timestamp_at (rv_storage s) (rv_reservations s) n = Some t"
      "slot_at (rv_storage s) (rv_reservations s) n = Some slot"
      using chain_block_total [OF ok True] by auto
    with True Some reserved_block_fields [of env r n t slot] show ?thesis by (auto simp: chain_block_def)
  qed
next
  case False
  then have "cover_count (rv_reservations s) n = 0" "\<not> stored (rv_storage s) n"
    using chain_okD(4,5) [OF ok, of n] by auto
  then show ?thesis
    using False by (simp add: chain_block_def find_reservation_None [symmetric] stored_def)
qed

text \<open>The reservation that \<open>reserve_blocks\<close> appends.\<close>

lemma reserve_blocks_chain:
  assumes rv: "rv_ok env s" and pos: "additional \<noteq> 0"
    and bound: "unat (rv_last_block_number s) + unat additional < 2 ^ 64"
    and s'_def: "s' = reserve_blocks s additional interval fee root td config"
  shows "rv_ok env s'" and "m \<le> rv_last_block_number s \<Longrightarrow> chain_block env s' m = chain_block env s m"
    and "rv_last_block_number s < m \<Longrightarrow> m \<le> rv_last_block_number s' \<Longrightarrow>
      timestamp_at (rv_storage s') (rv_reservations s') m =
      map_option (\<lambda>t. t + interval * (m - rv_last_block_number s))
        (timestamp_at (rv_storage s) (rv_reservations s) (rv_last_block_number s))"
proof -
  let ?l = "rv_last_block_number s" and ?rs = "rv_reservations s"
  have ok: "chain_ok s" and hashes: "hashes_ok env (rv_storage s)" using rv by (simp_all add: rv_ok_def)
  have l': "unat (?l + additional) = unat ?l + unat additional"
    using bound unat_add_lem [of ?l additional] by simp
  have less: "?l < ?l + additional"
    using pos l' unat_gt_0 [of additional] by (simp add: word_less_nat_alt)
  obtain r where s': "rv_reservations s' = ?rs @ [r]" "rv_storage s' = rv_storage s"
    "rv_last_block_number s' = ?l + additional"
    and r: "rs_first_number r = ?l + 1" "rs_last_number r = ?l + additional" "rs_interval r = interval"
    by (simp add: s'_def reserve_blocks_def)
  have cov: "covers r m \<longleftrightarrow> ?l < m \<and> m \<le> ?l + additional" for m
    by (simp add: covers_def r u64_succ_le [OF less])
  have first: "1 \<le> ?l + 1" using unat_u64_succ [OF less] by (simp add: word_le_nat_alt)
  then have "reservation_ok r" using less by (simp add: reservation_ok_def r u64_succ_le [OF less])
  moreover have "cover_count (rv_reservations s') m + (if stored (rv_storage s') m then 1 else 0)
      = (if m \<le> rv_last_block_number s' then 1 else 0)" for m
    using chain_okD(3-5) [OF ok, of m] less by (auto simp: s' cov split: if_splits)
  ultimately have ok': "chain_ok s'"
    using ok by (auto simp: chain_ok_def s'(1,2))
  then show "rv_ok env s'" using hashes by (simp add: rv_ok_def s'(2))
  have same: "find_reservation (rv_reservations s') k = find_reservation ?rs k" if "k \<le> ?l" for k
    using that cov [of k] by (auto simp: s'(1) find_reservation_append find_reservation_def [of "[r]"] split: option.split)
  have ones: "\<forall>r \<in> set ?rs. 1 \<le> rs_first_number r" using chain_okD(2) [OF ok] by blast
  show "chain_block env s' m = chain_block env s m" if "m \<le> ?l"
    using that by (intro chain_block_cong [OF ones]) (auto simp: s'(2) same dest: order.trans)
  have ts: "timestamp_at (rv_storage s') (rv_reservations s') ?l = timestamp_at (rv_storage s) ?rs ?l"
    by (rule timestamp_at_cong [OF ones]) (simp_all add: s'(2) same)
  show "timestamp_at (rv_storage s') (rv_reservations s') m =
      map_option (\<lambda>t. t + interval * (m - ?l)) (timestamp_at (rv_storage s) ?rs ?l)"
    if "?l < m" "m \<le> rv_last_block_number s'"
  proof -
    have "find_reservation (rv_reservations s') m = Some r"
      using that chain_okD(3) [OF ok', of m] by (intro find_reservation_unique) (auto simp: cov s'(1,3))
    then show ?thesis using first ts by (simp add: timestamp_at.simps [of _ "rv_reservations s'" m] r)
  qed
qed

lemma insert_and_receipts_fields:
  assumes "insert_block_and_receipts s b diff td = (Inr b', s')"
  obtains storage where "sparse_insert_receipts (rv_storage s) (lb_transaction_receipts b) = (Inr (), storage)"
    and "sparse_insert_block storage b td = (Inr b', rv_storage s')"
    and "rv_reservations s' = rv_reservations s" and "rv_last_block_number s' = block_number b"
    and "rv_state_diffs s' = rv_state_diffs s @ [(block_number b, diff)]"
    and "rv_number_to_diff_index s' = (rv_number_to_diff_index s)(block_number b \<mapsto> of_nat (length (rv_state_diffs s)))"
proof -
  obtain r1 storage where r1: "sparse_insert_receipts (rv_storage s) (lb_transaction_receipts b) = (r1, storage)"
    by (cases "sparse_insert_receipts (rv_storage s) (lb_transaction_receipts b)")
  moreover obtain r2 storage' where r2: "sparse_insert_block storage b td = (r2, storage')"
    by (cases "sparse_insert_block storage b td")
  ultimately show thesis
    using assms that [of storage]
    by (cases r1; cases r2) (auto simp: insert_block_and_receipts_def Let_def)
qed

lemma insert_receipts_sparse:
  assumes "sparse_insert_receipts storage receipts = (r, storage')"
  shows "sparse_inv storage' = sparse_inv storage" and "sparse_blocks storage' = sparse_blocks storage"
    and "sparse_block_by_number storage' = sparse_block_by_number storage"
proof -
  obtain R where "storage' = storage\<lparr>ss_transaction_hash_to_receipt := R\<rparr>"
    using assms by (cases "find (\<lambda>r. ss_transaction_hash_to_receipt storage (receipt_hash r) \<noteq> None) receipts")
      (auto simp: sparse_insert_receipts_def intro: that [of "ss_transaction_hash_to_receipt storage"])
  then show "sparse_blocks storage' = sparse_blocks storage"
    "sparse_block_by_number storage' = sparse_block_by_number storage"
    "sparse_inv storage' = sparse_inv storage"
    by (simp_all add: sparse_blocks_def sparse_block_by_number_def sparse_inv_def fun_eq_iff)
qed

lemma insert_block_chain:
  assumes rv: "rv_ok env s" and ins: "insert_block_and_receipts s b diff td = (Inr b', s')"
    and next_number: "unat (block_number b) = unat (rv_last_block_number s) + 1"
    and hash: "lb_hash b = he_header_hash env (lb_header b)"
  shows "rv_ok env s'" and "chain_block env s' m = (if m = block_number b then Some b else chain_block env s m)"
proof -
  let ?l = "rv_last_block_number s"
  have ok: "chain_ok s" and hashes: "hashes_ok env (rv_storage s)" using rv by (simp_all add: rv_ok_def)
  obtain storage where receipts: "sparse_insert_receipts (rv_storage s) (lb_transaction_receipts b) = (Inr (), storage)"
    and block: "sparse_insert_block storage b td = (Inr b', rv_storage s')"
    and s': "rv_reservations s' = rv_reservations s" "rv_last_block_number s' = block_number b"
    using ins by (rule insert_and_receipts_fields)
  note S = insert_receipts_sparse [OF receipts]
  have inv: "sparse_inv storage" using S(1) chain_okD(1) [OF ok] by simp
  have "hashes_ok env storage" using hashes S(2) by (simp add: hashes_ok_def)
  note hashes' = hashes_ok_insert [OF inv block this hash]
  have blocks: "sparse_block_by_number (rv_storage s') k =
      (if k = block_number b then Some b else sparse_block_by_number (rv_storage s) k)" for k
    using by_number_after_insert [OF inv block] S(3) by simp
  have le: "k \<le> block_number b \<longleftrightarrow> k \<le> ?l \<or> k = block_number b" for k
    using next_number by (auto simp: word_le_nat_alt word_unat_eq_iff)
  have above: "\<not> block_number b \<le> ?l" using next_number by (simp add: word_le_nat_alt)
  have cover: "cover_count (rv_reservations s) k = 0" if "\<not> k \<le> ?l" for k
    using chain_okD(5) [OF ok, of k] that by blast
  have "cover_count (rv_reservations s') k + (if stored (rv_storage s') k then 1 else 0)
      = (if k \<le> rv_last_block_number s' then 1 else 0)" for k
    using chain_okD(3,4) [OF ok, of k] cover [of k] above by (auto simp: s' stored_def blocks le split: if_splits)
  then have ok': "chain_ok s'"
    using ok sparse_insert_ok(2) [OF inv block] by (simp add: chain_ok_def s'(1))
  with hashes' show "rv_ok env s'" by (simp add: rv_ok_def)
  have none: "find_reservation (rv_reservations s) (block_number b) = None"
    using cover [OF above] by (simp add: find_reservation_None)
  show "chain_block env s' m = (if m = block_number b then Some b else chain_block env s m)"
  proof (cases "m \<le> ?l")
    case True
    have "chain_block env s' m = chain_block env s m"
    proof (rule chain_block_cong)
      show "\<forall>r \<in> set (rv_reservations s). 1 \<le> rs_first_number r" using chain_okD(2) [OF ok] by blast
      show "sparse_block_by_number (rv_storage s') k = sparse_block_by_number (rv_storage s) k" if "k \<le> m" for k
        using order.trans [OF that True] above by (auto simp: blocks)
    qed (simp add: s')
    with True above show ?thesis by auto
  next
    case False
    show ?thesis
    proof (cases "m = block_number b")
      case True
      with none show ?thesis by (simp add: chain_block_def s' blocks)
    next
      case neq: False
      with False have "\<not> m \<le> block_number b" by (simp add: le)
      then have "chain_block env s' m = None" "chain_block env s m = None"
        using False by (simp_all add: chain_block_None_iff [OF ok'] chain_block_None_iff [OF ok] s')
      with neq show ?thesis by simp
    qed
  qed
qed

section \<open>A sample chain\<close>

text \<open>A genesis block, and ten reserved blocks after it, five seconds apart.\<close>

definition genesis_block :: "unit local_block" where
  "genesis_block = sample_block\<lparr>lb_header := sample_header\<lparr>bh_number := 0\<rparr>, lb_hash := 0\<rparr>"

definition sample_chain :: "(unit, nat) reservable_storage" where
  "sample_chain = reserve_blocks (with_genesis_block genesis_block [] 1) 10 5 None 0 1 (sample_config London)"

lemma sample_env_separates: "hash_separates sample_env"
proof -
  have "a = b" if "(ucast a :: b256) = ucast b" for a b :: u64
    using arg_cong [OF that, of unat] by (simp add: unat_ucast_up word_unat_eq_iff)
  then show ?thesis by (simp add: hash_separates_def sample_env_def)
qed

lemma with_genesis_block_ok:
  assumes "block_number b = 0" and "lb_hash b = he_header_hash env (lb_header b)"
  shows "rv_ok env (with_genesis_block b diff td)"
proof -
  have blocks: "sparse_blocks (sparse_with_block b td) = {b}"
    by (simp add: sparse_blocks_def sparse_with_block_def)
  have "stored (sparse_with_block b td) n \<longleftrightarrow> n = 0" for n
    using assms(1) by (auto simp: stored_def sparse_block_by_number_def sparse_with_block_def)
  then show ?thesis
    using assms(2) by (simp add: rv_ok_def chain_ok_def with_genesis_block_def sparse_inv_with_block hashes_ok_def blocks)
qed

lemma sample_chain_ok: "rv_ok sample_env sample_chain"
  unfolding sample_chain_def
proof (rule reserve_blocks_chain(1) [OF with_genesis_block_ok])
  show "block_number genesis_block = 0" "lb_hash genesis_block = he_header_hash sample_env (lb_header genesis_block)"
    by (simp_all add: genesis_block_def sample_env_def)
qed (simp_all add: with_genesis_block_def)

section \<open>Properties\<close>

text \<open>C2. Asking for a block never panics and never fails on a well-formed chain: it returns the block
  that the chain has under that number, and none beyond its end. Whatever block is built for it,
  the chain stays the same: no later answer about blocks depends on which reserved blocks were asked for
  before, or in which order.\<close>

theorem block_by_number_refines_chain:
  assumes "rv_ok env s" and "hash_separates env"
  shows "\<exists>s'. reservable_block_by_number env s n = Return (Inr (chain_block env s n), s')
    \<and> rv_ok env s' \<and> chain_block env s' = chain_block env s
    \<and> rv_last_block_number s' = rv_last_block_number s
    \<and> (chain_block env s n = None \<longleftrightarrow> rv_last_block_number s < n)"
proof -
  have ok: "chain_ok s" using assms(1) by (simp add: rv_ok_def)
  note none = chain_block_None_iff [OF ok, of env n]
  show ?thesis
  proof (cases "find_reservation (rv_reservations s) n")
    case None
    then have "reservable_block_by_number env s n = Return (Inr (chain_block env s n), s)"
      by (simp add: reservable_block_by_number_def try_fulfilling_reservation_def find_enum_no_reservation
          chain_block_def del: bind_outcome_Return)
    with assms(1) none show ?thesis by (intro exI [of _ s] conjI) simp_all
  next
    case (Some r)
    from assms Some obtain b s' where f: "try_fulfilling_reservation env s n = Return (Inr (Some b), s')"
      and b: "chain_block env s n = Some b" and "block_number b = n"
      and s': "rv_ok env s'" "chain_block env s' = chain_block env s"
        "rv_last_block_number s' = rv_last_block_number s"
      and "rv_state_diffs s' = rv_state_diffs s" "rv_number_to_diff_index s' = rv_number_to_diff_index s"
        "find_reservation (rv_reservations s') n = None"
        "\<forall>m. m \<noteq> n \<longrightarrow> map_option rs_previous_diff_index (find_reservation (rv_reservations s') m) =
          map_option rs_previous_diff_index (find_reservation (rv_reservations s) m)"
      by (rule fulfil_reserved)
    from f b have "reservable_block_by_number env s n = Return (Inr (chain_block env s n), s')"
      by (simp add: reservable_block_by_number_def)
    with s' none show ?thesis by (intro exI [of _ s'] conjI)
  qed
qed

theorem block_by_number_refines_chain_witness:
  "\<exists>s'. reservable_block_by_number sample_env sample_chain 4 = Return (Inr (chain_block sample_env sample_chain 4), s')
    \<and> chain_block sample_env s' = chain_block sample_env sample_chain
    \<and> chain_block sample_env sample_chain 4 \<noteq> None"
proof -
  have "rv_last_block_number sample_chain = 10"
    by (simp add: sample_chain_def reserve_blocks_def with_genesis_block_def)
  with block_by_number_refines_chain [OF sample_chain_ok sample_env_separates, of 4] show ?thesis by auto
qed

text \<open>Reserving blocks keeps the chain up to its last block, and appends as many blocks as asked
  for, whose timestamps follow the last block at the given interval.\<close>

theorem reserve_blocks_extends_chain:
  assumes "rv_ok env s" and "additional \<noteq> 0" and "unat (rv_last_block_number s) + unat additional < 2 ^ 64"
    and "s' = reserve_blocks s additional interval fee root td config"
  shows "rv_ok env s' \<and> rv_last_block_number s' = rv_last_block_number s + additional
    \<and> (\<forall>m \<le> rv_last_block_number s. chain_block env s' m = chain_block env s m)
    \<and> (\<forall>m b l. rv_last_block_number s < m \<longrightarrow> chain_block env s' m = Some b
         \<longrightarrow> chain_block env s (rv_last_block_number s) = Some l
         \<longrightarrow> bh_timestamp (lb_header b) = bh_timestamp (lb_header l) + interval * (m - rv_last_block_number s))"
proof -
  note R = reserve_blocks_chain [OF assms(1-3) assms(4)]
  have ok': "chain_ok s'" using R(1) by (simp add: rv_ok_def)
  have time: "bh_timestamp (lb_header b) = bh_timestamp (lb_header l) + interval * (m - rv_last_block_number s)"
    if "rv_last_block_number s < m" and b: "chain_block env s' m = Some b"
      and l: "chain_block env s (rv_last_block_number s) = Some l" for m b l
    using R(3) [OF that(1)] chain_block_None_iff [OF ok', of env m] b chain_block_timestamp [OF b]
      chain_block_timestamp [OF l] by (simp add: not_less)
  have "rv_last_block_number s' = rv_last_block_number s + additional" by (simp add: assms(4) reserve_blocks_def)
  with R(1,2) time show ?thesis by (intro conjI allI impI)
qed

theorem reserve_blocks_extends_chain_witness:
  "\<exists>b. chain_block sample_env sample_chain 4 = Some b \<and> bh_timestamp (lb_header b) = bh_timestamp sample_header + 20"
proof -
  define g :: "(unit, nat) reservable_storage" where "g = with_genesis_block genesis_block [] 1"
  have g: "rv_ok sample_env g" unfolding g_def
    by (rule with_genesis_block_ok) (simp_all add: genesis_block_def sample_env_def)
  have last: "rv_last_block_number g = 0" by (simp add: g_def with_genesis_block_def)
  have chain: "sample_chain = reserve_blocks g 10 5 None 0 1 (sample_config London)"
    by (simp add: sample_chain_def g_def)
  have genesis: "chain_block sample_env g 0 = Some genesis_block"
    by (simp add: g_def chain_block_def with_genesis_block_def find_reservation_def sparse_block_by_number_def
        sparse_with_block_def genesis_block_def)
  have "rv_last_block_number sample_chain = 10" by (simp add: chain reserve_blocks_def last)
  then obtain b where b: "chain_block sample_env sample_chain 4 = Some b"
    using chain_block_None_iff [of sample_chain sample_env 4] sample_chain_ok by (auto simp: rv_ok_def)
  have "\<forall>m b l. 0 < m \<longrightarrow> chain_block sample_env sample_chain m = Some b \<longrightarrow> chain_block sample_env g 0 = Some l
      \<longrightarrow> bh_timestamp (lb_header b) = bh_timestamp (lb_header l) + 5 * m"
    using reserve_blocks_extends_chain [OF g _ _ chain] by (simp add: last)
  from this [rule_format, OF _ b genesis] b show ?thesis by (simp add: genesis_block_def)
qed

end
