(* ===== verification/Reservable_Reach.thy ===== *)
theory Reservable_Reach
  imports Reservable_Ops
begin

text \<open>
  The life of a reservable storage: every storage that the operations reach from a genesis block
  is a chain without gaps whose state diffs are those of its blocks, in order. Reverting cuts the
  chain. A reserved block that was built loses its state.
\<close>

section \<open>State diffs\<close>

text \<open>The index of the last of the numbers that is not above a given one.\<close>

definition index_for :: "u64 list \<Rightarrow> u64 \<Rightarrow> u64 \<Rightarrow> bool" where
  "index_for ks n i \<longleftrightarrow>
     unat i < length ks \<and> ks ! unat i \<le> n \<and> (\<forall>j. unat i < j \<longrightarrow> j < length ks \<longrightarrow> n < ks ! j)"

definition diffs_ok :: "('w, 'bp) reservable_storage \<Rightarrow> bool" where
  "diffs_ok s \<longleftrightarrow>
     rv_state_diffs s \<noteq> []
     \<and> sorted_wrt (<) (map fst (rv_state_diffs s))
     \<and> (\<forall>k \<in> fst ` set (rv_state_diffs s). k \<le> rv_last_block_number s)
     \<and> (\<forall>n. rv_last_block_number s < n \<longrightarrow> rv_number_to_diff_index s n = None)
     \<and> (\<forall>n i. diff_index s n = Some i \<longrightarrow> index_for (map fst (rv_state_diffs s)) n i)
     \<and> rv_number_to_diff_index s 0 = Some 0
     \<and> unat (rv_last_block_number s) + 1 < 2 ^ 64"

lemma index_for_take:
  assumes "sorted_wrt (<) (map fst xs)" and "index_for (map fst xs) n i"
  shows "take (Suc (unat i)) xs = filter (\<lambda>p. fst p \<le> n) xs"
proof -
  let ?k = "Suc (unat i)"
  have i: "unat i < length xs" "fst (xs ! unat i) \<le> n"
    and above: "\<And>j. unat i < j \<Longrightarrow> j < length xs \<Longrightarrow> n < fst (xs ! j)"
    using assms(2) by (auto simp: index_for_def)
  have below: "fst (xs ! j) \<le> n" if "j < ?k" for j
  proof (cases "j = unat i")
    case False
    then have "fst (xs ! j) < fst (xs ! unat i)"
      using sorted_wrt_nth_less [OF assms(1), of j "unat i"] that i(1) by simp
    with i(2) show ?thesis by simp
  qed (use i in simp)
  have low: "filter (\<lambda>p. fst p \<le> n) (take ?k xs) = take ?k xs"
  proof (rule filter_True, rule ballI)
    fix p assume "p \<in> set (take ?k xs)"
    then obtain j where "j < length (take ?k xs)" "take ?k xs ! j = p" by (metis in_set_conv_nth)
    with below [of j] show "fst p \<le> n" by (metis length_take min_less_iff_conj nth_take)
  qed
  have high: "filter (\<lambda>p. fst p \<le> n) (drop ?k xs) = []"
  proof (rule filter_False, rule ballI)
    fix p assume "p \<in> set (drop ?k xs)"
    then obtain j where "j < length (drop ?k xs)" "drop ?k xs ! j = p" by (metis in_set_conv_nth)
    moreover from this have "p = xs ! (?k + j)" "?k + j < length xs" by simp_all
    ultimately show "\<not> fst p \<le> n" using above [of "?k + j"] by (simp only: not_le)
  qed
  have "filter (\<lambda>p. fst p \<le> n) xs = filter (\<lambda>p. fst p \<le> n) (take ?k xs @ drop ?k xs)"
    by (simp only: append_take_drop_id)
  also have "\<dots> = take ?k xs" by (simp only: filter_append low high append_Nil2)
  finally show ?thesis by simp
qed

text \<open>There are no more diffs than blocks.\<close>

lemma diffs_bound:
  assumes "sorted_wrt (<) ks" and "\<forall>k \<in> set ks. k \<le> (n :: u64)"
  shows "length ks \<le> Suc (unat n)"
proof -
  have "distinct ks" using assms(1) by (simp add: strict_sorted_iff)
  then have "length ks = card (unat ` set ks)"
    by (simp add: card_image distinct_card inj_on_def word_unat_eq_iff)
  also have "\<dots> \<le> card {..unat n}"
    using assms(2) by (intro card_mono) (auto simp: word_le_nat_alt)
  finally show ?thesis by simp
qed

lemma diffs_okD:
  assumes "diffs_ok s"
  shows "rv_state_diffs s \<noteq> []" and "sorted_wrt (<) (map fst (rv_state_diffs s))"
    and "p \<in> set (rv_state_diffs s) \<Longrightarrow> fst p \<le> rv_last_block_number s"
    and "rv_last_block_number s < n \<Longrightarrow> rv_number_to_diff_index s n = None"
    and "diff_index s n = Some i \<Longrightarrow> index_for (map fst (rv_state_diffs s)) n i"
    and "length (rv_state_diffs s) \<le> Suc (unat (rv_last_block_number s))"
    and "rv_number_to_diff_index s 0 = Some 0" and "diff_index s 0 = Some 0"
    and "unat (rv_last_block_number s) + 1 < 2 ^ 64"
  using assms diffs_bound [of "map fst (rv_state_diffs s)" "rv_last_block_number s"]
  by (auto simp: diffs_ok_def diff_index_def)

lemma state_diffs_until_block_ok:
  assumes "diffs_ok s"
  shows "state_diffs_until_block s n =
    Return (map_option (\<lambda>_. filter (\<lambda>p. fst p \<le> n) (rv_state_diffs s)) (diff_index s n))"
  using index_for_take [OF diffs_okD(2) [OF assms] diffs_okD(5) [OF assms], of n] diffs_okD(5) [OF assms, of n]
  by (auto simp: state_diffs_until_block_def index_for_def split: option.split)

section \<open>Every operation keeps the diffs in order\<close>

lemma diffs_ok_genesis: "diffs_ok (with_genesis_block b diff td)"
  by (auto simp: diffs_ok_def with_genesis_block_def diff_index_def find_reservation_def index_for_def
      word_gt_0 split: if_splits)

lemma diffs_ok_weaken:
  assumes "diffs_ok s" and "rv_state_diffs s' = rv_state_diffs s"
    and "rv_number_to_diff_index s' = rv_number_to_diff_index s" and "rv_last_block_number s' = rv_last_block_number s"
    and "\<And>n. diff_index s' n = None \<or> diff_index s' n = diff_index s n"
  shows "diffs_ok s'"
proof -
  have "index_for (map fst (rv_state_diffs s)) n i" if "diff_index s' n = Some i" for n i
    using assms(5) [of n] that diffs_okD(5) [OF assms(1), of n i] by simp
  with assms(1) show ?thesis by (simp add: diffs_ok_def assms(2-4))
qed

text \<open>What building a reserved block does to the diff indices.\<close>

lemma block_by_number_diffs:
  assumes "rv_ok env s" and "hash_separates env" and "reservable_block_by_number env s n = Return (r, s')"
  shows "rv_state_diffs s' = rv_state_diffs s" and "rv_number_to_diff_index s' = rv_number_to_diff_index s"
    and "rv_last_block_number s' = rv_last_block_number s" and "rv_ok env s'"
    and "diff_index s' m =
      (if m = n then rv_number_to_diff_index s n else diff_index s m)"
    and "find_reservation (rv_reservations s') n = None"
proof -
  have "rv_state_diffs s' = rv_state_diffs s \<and> rv_number_to_diff_index s' = rv_number_to_diff_index s
    \<and> rv_last_block_number s' = rv_last_block_number s \<and> rv_ok env s'
    \<and> find_reservation (rv_reservations s') n = None
    \<and> (\<forall>m. m \<noteq> n \<longrightarrow> map_option rs_previous_diff_index (find_reservation (rv_reservations s') m) =
        map_option rs_previous_diff_index (find_reservation (rv_reservations s) m))"
  proof (cases "find_reservation (rv_reservations s) n")
    case None
    then have "s' = s" using assms(3)
      by (simp add: reservable_block_by_number_def try_fulfilling_reservation_def find_enum_no_reservation)
    with None assms(1) show ?thesis by simp
  next
    case (Some res)
    from assms(1,2) Some obtain b s2 where "try_fulfilling_reservation env s n = Return (Inr (Some b), s2)"
      and "chain_block env s n = Some b" "block_number b = n"
      and "rv_ok env s2" "chain_block env s2 = chain_block env s"
      "rv_last_block_number s2 = rv_last_block_number s" "rv_state_diffs s2 = rv_state_diffs s"
      "rv_number_to_diff_index s2 = rv_number_to_diff_index s"
      "find_reservation (rv_reservations s2) n = None"
      "\<forall>m. m \<noteq> n \<longrightarrow> map_option rs_previous_diff_index (find_reservation (rv_reservations s2) m) =
        map_option rs_previous_diff_index (find_reservation (rv_reservations s) m)"
      by (rule fulfil_reserved)
    moreover from this(1) assms(3) have "s2 = s'" by (simp add: reservable_block_by_number_def)
    ultimately show ?thesis by simp
  qed
  then show "rv_state_diffs s' = rv_state_diffs s" "rv_number_to_diff_index s' = rv_number_to_diff_index s"
    "rv_last_block_number s' = rv_last_block_number s" "rv_ok env s'"
    "diff_index s' m = (if m = n then rv_number_to_diff_index s n else diff_index s m)"
    "find_reservation (rv_reservations s') n = None"
    by (simp_all add: diff_index_def split: option.split)
qed

lemma fetched_reservation:
  assumes "rv_ok env s" and "hash_separates env" and "reservable_block_by_number env s n = Return (r, s')"
    and "find_reservation (rv_reservations s') m \<noteq> None"
  shows "find_reservation (rv_reservations s) m \<noteq> None"
proof (cases "find_reservation (rv_reservations s) n")
  case None
  then have "s' = s" using assms(3)
    by (simp add: reservable_block_by_number_def try_fulfilling_reservation_def find_enum_no_reservation)
  with assms(4) show ?thesis by simp
next
  case (Some res)
  from assms(1,2) Some obtain b s2 where "try_fulfilling_reservation env s n = Return (Inr (Some b), s2)"
    and "chain_block env s n = Some b" "block_number b = n"
    and "rv_ok env s2" "chain_block env s2 = chain_block env s"
    "rv_last_block_number s2 = rv_last_block_number s" "rv_state_diffs s2 = rv_state_diffs s"
    "rv_number_to_diff_index s2 = rv_number_to_diff_index s"
    "find_reservation (rv_reservations s2) n = None"
    "\<forall>m. m \<noteq> n \<longrightarrow> map_option rs_previous_diff_index (find_reservation (rv_reservations s2) m) =
      map_option rs_previous_diff_index (find_reservation (rv_reservations s) m)"
    by (rule fulfil_reserved)
  moreover from this(1) assms(3) have "s2 = s'" by (simp add: reservable_block_by_number_def)
  ultimately have free: "find_reservation (rv_reservations s') n = None"
    and other: "m \<noteq> n \<Longrightarrow> map_option rs_previous_diff_index (find_reservation (rv_reservations s') m) =
      map_option rs_previous_diff_index (find_reservation (rv_reservations s) m)" by simp_all
  from free assms(4) have "m \<noteq> n" by metis
  from other [OF this] assms(4) show ?thesis by (cases "find_reservation (rv_reservations s) m") auto
qed

lemma diffs_ok_block_by_number:
  assumes "rv_ok env s" and "hash_separates env" and "reservable_block_by_number env s n = Return (r, s')"
    and "diffs_ok s"
  shows "diffs_ok s'"
proof (rule diffs_ok_weaken [OF assms(4) block_by_number_diffs(1-3) [OF assms(1-3)]])
  show "diff_index s' m = None \<or> diff_index s' m = diff_index s m" for m
    using block_by_number_diffs(5) [OF assms(1-3), of m]
    by (cases "rv_number_to_diff_index s n") (simp_all add: diff_index_def)
qed

lemma find_reservation_single: "find_reservation [r] n = (if covers r n then Some r else None)"
  by (simp add: find_reservation_def)

lemma diffs_ok_reserve:
  assumes ok: "diffs_ok s" and s': "s' = reserve_blocks s additional interval fee root td config"
    and pos: "additional \<noteq> 0" and bound: "unat (rv_last_block_number s) + unat additional + 1 < 2 ^ 64"
  shows "diffs_ok s'"
proof -
  let ?ks = "map fst (rv_state_diffs s)" and ?l = "rv_last_block_number s"
  have last: "?l \<le> ?l + additional" using bound by (simp add: word_le_nat_alt unat_add_no_overflow)
  have len: "0 < length ?ks" "length ?ks \<le> 2 ^ 64"
    using diffs_okD(1,6) [OF ok] unat_u64_less [of ?l] by auto
  have idx: "unat (of_nat (length (rv_state_diffs s)) - 1 :: u64) = length ?ks - 1"
  proof -
    have "(of_nat (length (rv_state_diffs s)) :: u64) = of_nat (Suc (length ?ks - 1))" using len(1) by simp
    then have "(of_nat (length (rv_state_diffs s)) - 1 :: u64) = of_nat (length ?ks - 1)" by simp
    moreover have "unat (of_nat (length ?ks - 1) :: u64) = length ?ks - 1"
      using len by (simp add: unat_of_nat)
    ultimately show ?thesis by simp
  qed
  have "index_for ?ks n i" if "diff_index s' n = Some i" for n i
  proof (cases "diff_index s n")
    case (Some j)
    then have "diff_index s' n = Some j"
      by (auto simp: diff_index_def s' reserve_blocks_def find_reservation_append split: option.splits)
    with that Some diffs_okD(5) [OF ok, of n i] show ?thesis by simp
  next
    case None
    then have "rv_number_to_diff_index s n = None" "find_reservation (rv_reservations s) n = None"
      by (auto simp: diff_index_def split: option.splits)
    with that have n: "?l + 1 \<le> n" "n \<le> ?l + additional" and i: "i = of_nat (length (rv_state_diffs s)) - 1"
      by (auto simp: diff_index_def s' reserve_blocks_def find_reservation_append find_reservation_single covers_def
          split: if_splits)
    have "?l < ?l + additional"
      using bound pos by (simp add: word_less_nat_alt unat_add_no_overflow word_unat_eq_iff)
    then have "unat (?l + 1) = unat ?l + 1" by (rule unat_u64_succ)
    then have "?l < n" using n(1) by (simp add: word_le_nat_alt word_less_nat_alt)
    moreover have "?ks ! (length ?ks - 1) \<le> ?l"
      using diffs_okD(3) [OF ok] len(1) by (metis diff_less length_map nth_map nth_mem zero_less_one)
    ultimately show ?thesis using len(1) unfolding index_for_def i idx by auto
  qed
  moreover have "\<forall>k \<in> fst ` set (rv_state_diffs s). k \<le> ?l + additional"
    using diffs_okD(3) [OF ok] last by force
  moreover have "\<forall>n. ?l + additional < n \<longrightarrow> rv_number_to_diff_index s n = None"
    using diffs_okD(4) [OF ok] last by force
  ultimately show ?thesis
    using diffs_okD(1,2,7) [OF ok] bound by (simp add: diffs_ok_def s' reserve_blocks_def unat_add_no_overflow)
qed

lemma index_for_append:
  assumes "index_for ks n i" and "n < k"
  shows "index_for (ks @ [k]) n i"
  using assms by (auto simp: index_for_def nth_append less_Suc_eq)

lemma diffs_ok_insert:
  assumes ok: "diffs_ok s" and rv: "rv_ok env s" and ins: "insert_block_and_receipts s b diff td = (r, s')"
    and next_number: "unat (block_number b) = unat (rv_last_block_number s) + 1"
    and bound: "unat (block_number b) + 1 < 2 ^ 64"
  shows "diffs_ok s'"
proof -
  let ?ds = "rv_state_diffs s" and ?l = "rv_last_block_number s"
  have s': "rv_state_diffs s' = ?ds @ [(block_number b, diff)]" "rv_last_block_number s' = block_number b"
    "rv_reservations s' = rv_reservations s"
    "rv_number_to_diff_index s' = (rv_number_to_diff_index s)(block_number b \<mapsto> of_nat (length ?ds))"
    using ins by (auto simp: insert_block_and_receipts_def Let_def split: prod.splits sum.splits)
  have above: "?l < block_number b" using next_number by (simp add: word_less_nat_alt)
  have idx: "unat (of_nat (length ?ds) :: u64) = length ?ds"
    using diffs_okD(6) [OF ok] next_number unat_u64_less [of "block_number b"] by (simp add: unat_of_nat)
  have low: "\<forall>k \<in> fst ` set ?ds. k < block_number b"
    using diffs_okD(3) [OF ok] above by (auto intro: order.strict_trans1)
  have "index_for (map fst (rv_state_diffs s')) n i" if "diff_index s' n = Some i" for n i
  proof (cases "n = block_number b")
    case True
    with that have "i = of_nat (length ?ds)" by (simp add: diff_index_def s')
    then show ?thesis by (simp add: index_for_def s' idx nth_append True)
  next
    case False
    with that have old: "diff_index s n = Some i" by (simp add: diff_index_def s' cong: option.case_cong)
    have "n \<le> ?l"
    proof (rule ccontr)
      assume "\<not> n \<le> ?l"
      moreover have "chain_ok s" using rv by (simp add: rv_ok_def)
      ultimately have "cover_count (rv_reservations s) n = 0" using chain_okD(5) [of s n] by blast
      with old \<open>\<not> n \<le> ?l\<close> diffs_okD(4) [OF ok, of n] show False
        by (simp add: diff_index_def find_reservation_None [symmetric])
    qed
    with above show ?thesis
      using index_for_append [OF diffs_okD(5) [OF ok old], of "block_number b"] by (simp add: s')
  qed
  moreover have "\<forall>n. block_number b < n \<longrightarrow> rv_number_to_diff_index s' n = None"
    using diffs_okD(4) [OF ok] above by (auto simp: s')
  ultimately show ?thesis
    using diffs_okD(2,7) [OF ok] low bound above
    by (auto simp: diffs_ok_def s' sorted_wrt_append intro: less_imp_le)
qed

text \<open>Reverting: the result, and what it does to the diffs.\<close>

lemma retain_0:
  assumes "\<forall>r \<in> set rs. 1 \<le> rs_first_number r \<and> rs_first_number r \<le> rs_last_number r"
  shows "List.map_filter (retain_reservation 0) rs = []"
proof -
  have "retain_reservation 0 r = None" if "r \<in> set rs" for r
    using bspec [OF assms that] by (auto simp: retain_reservation_def)
  then show ?thesis by (simp add: map_filter_def)
qed

lemma diff_index_retain:
  assumes "m \<le> n" and "rv_reservations s' = List.map_filter (retain_reservation n) (rv_reservations s)"
    and "rv_number_to_diff_index s' m = rv_number_to_diff_index s m"
  shows "diff_index s' m = diff_index s m"
proof -
  have "map_option rs_previous_diff_index (find_reservation (rv_reservations s') m) =
      map_option (rs_previous_diff_index \<circ> core) (find_reservation (rv_reservations s') m)"
    by (simp add: core_def o_def)
  also have "\<dots> = map_option (rs_previous_diff_index \<circ> core) (find_reservation (rv_reservations s) m)"
    using find_retain [OF assms(1), of "rv_reservations s"] unfolding assms(2) option.map_comp [symmetric]
    by (rule arg_cong)
  also have "\<dots> = map_option rs_previous_diff_index (find_reservation (rv_reservations s) m)"
    by (simp add: core_def o_def)
  finally show ?thesis by (simp add: diff_index_def assms(3) cong: option.case_cong)
qed

lemma revert_cases:
  assumes rv: "rv_ok env s"
  shows "rv_last_block_number s < n \<Longrightarrow> reservable_revert_to_block s n = Return (False, s)"
    and "n \<le> rv_last_block_number s \<Longrightarrow> 0 < n \<Longrightarrow> diff_index s n = None \<Longrightarrow> reservable_revert_to_block s n = Panic"
    and "n \<le> rv_last_block_number s \<Longrightarrow> n = 0 \<or> diff_index s n \<noteq> None \<Longrightarrow>
      \<exists>s'. reservable_revert_to_block s n = Return (True, s')
        \<and> rv_storage s' = sparse_revert_to_block (rv_storage s) n \<and> rv_last_block_number s' = n
        \<and> rv_reservations s' = List.map_filter (retain_reservation n) (rv_reservations s)
        \<and> rv_state_diffs s' = take (if n = 0 then 1 else unat (the (diff_index s n) + 1)) (rv_state_diffs s)
        \<and> rv_number_to_diff_index s' =
            (if n = 0 then [0 \<mapsto> 0] else (\<lambda>k. if k \<le> n then rv_number_to_diff_index s k else None))"
proof -
  let ?s = "s\<lparr>rv_last_block_number := n, rv_storage := sparse_revert_to_block (rv_storage s) n,
      rv_reservations := List.map_filter (retain_reservation n) (rv_reservations s)\<rparr>"
  have idx: "diff_index ?s n = diff_index s n" by (rule diff_index_retain) simp_all
  have "\<forall>r \<in> set (rv_reservations s). 1 \<le> rs_first_number r \<and> rs_first_number r \<le> rs_last_number r"
    using rv chain_okD(2) [of s] by (simp add: rv_ok_def)
  note zero = retain_0 [OF this]
  show "reservable_revert_to_block s n = Return (False, s)" if "rv_last_block_number s < n"
    using that by (simp add: reservable_revert_to_block_def)
  show "reservable_revert_to_block s n = Panic"
    if "n \<le> rv_last_block_number s" "0 < n" "diff_index s n = None"
    using that idx by (simp add: reservable_revert_to_block_def Let_def not_less)
  show "\<exists>s'. reservable_revert_to_block s n = Return (True, s')
        \<and> rv_storage s' = sparse_revert_to_block (rv_storage s) n \<and> rv_last_block_number s' = n
        \<and> rv_reservations s' = List.map_filter (retain_reservation n) (rv_reservations s)
        \<and> rv_state_diffs s' = take (if n = 0 then 1 else unat (the (diff_index s n) + 1)) (rv_state_diffs s)
        \<and> rv_number_to_diff_index s' =
            (if n = 0 then [0 \<mapsto> 0] else (\<lambda>k. if k \<le> n then rv_number_to_diff_index s k else None))"
    if "n \<le> rv_last_block_number s" "n = 0 \<or> diff_index s n \<noteq> None"
  proof (cases "n = 0")
    case True
    with that zero show ?thesis by (simp add: reservable_revert_to_block_def not_less)
  next
    case False
    with that obtain i where "diff_index s n = Some i" by auto
    with that False idx show ?thesis by (auto simp: reservable_revert_to_block_def Let_def not_less fun_eq_iff)
  qed
qed

lemma index_for_prefix:
  assumes "index_for ks n j" and "index_for ks m i" and "m \<le> n"
  shows "index_for (take (Suc (unat j)) ks) m i"
proof -
  have "\<not> unat j < unat i"
  proof
    assume "unat j < unat i"
    with assms have "n < ks ! unat i" "ks ! unat i \<le> m" by (simp_all add: index_for_def)
    with assms(3) show False by simp
  qed
  with assms show ?thesis by (auto simp: index_for_def)
qed

lemma diffs_ok_revert:
  assumes rv: "rv_ok env s" and ok: "diffs_ok s" and revert: "reservable_revert_to_block s n = Return (True, s')"
  shows "diffs_ok s'" and "rv_state_diffs s' = filter (\<lambda>p. fst p \<le> n) (rv_state_diffs s)"
    and "m \<le> n \<Longrightarrow> diff_index s' m = diff_index s m"
proof -
  let ?ds = "rv_state_diffs s" and ?l = "rv_last_block_number s"
  have n: "n \<le> ?l" using revert_cases(1) [OF rv, of n] revert by (cases "?l < n") auto
  obtain j where j: "diff_index s n = Some j"
    using revert_cases(2) [OF rv n] revert diffs_okD(8) [OF ok] by (cases "n = 0"; cases "diff_index s n") (auto simp: word_neq_0_conv)
  have idx: "index_for (map fst ?ds) n j" by (rule diffs_okD(5) [OF ok j])
  then have "unat j + 1 < 2 ^ 64" using diffs_okD(6,9) [OF ok] by (simp add: index_for_def)
  then have j1: "unat (j + 1) = Suc (unat j)" by (simp add: unat_add_no_overflow)
  obtain s2 where "reservable_revert_to_block s n = Return (True, s2)"
    and s2: "rv_storage s2 = sparse_revert_to_block (rv_storage s) n" "rv_last_block_number s2 = n"
      "rv_reservations s2 = List.map_filter (retain_reservation n) (rv_reservations s)"
      "rv_state_diffs s2 = take (if n = 0 then 1 else unat (the (diff_index s n) + 1)) ?ds"
      "rv_number_to_diff_index s2 =
            (if n = 0 then [0 \<mapsto> 0] else (\<lambda>k. if k \<le> n then rv_number_to_diff_index s k else None))"
    using revert_cases(3) [OF rv n] j by auto
  with revert have s': "s' = s2" by simp
  have index: "rv_number_to_diff_index s' = (\<lambda>k. if k \<le> n then rv_number_to_diff_index s k else None)"
    using diffs_okD(7) [OF ok] by (auto simp: s' s2 fun_eq_iff)
  have diffs: "rv_state_diffs s' = take (Suc (unat j)) ?ds"
    using j j1 diffs_okD(8) [OF ok] by (auto simp: s' s2)
  then show filter: "rv_state_diffs s' = filter (\<lambda>p. fst p \<le> n) ?ds"
    using index_for_take [OF diffs_okD(2) [OF ok] idx] by simp
  have same: "diff_index s' m = diff_index s m" if "m \<le> n" for m
    by (rule diff_index_retain [OF that]) (simp_all add: s' s2(3) index [unfolded s'] that)
  then show "diff_index s' m = diff_index s m" if "m \<le> n" using that .
  have cut: "m \<le> n" if "diff_index s' m = Some i" for m i
  proof (rule ccontr)
    assume m: "\<not> m \<le> n"
    have "rv_ok env s'" by (rule revert_ok(1) [OF rv n]) (simp_all add: s' s2)
    then have "cover_count (rv_reservations s') m = 0"
      using m chain_okD(5) [of s' m] by (auto simp: rv_ok_def s' s2(2))
    then have "find_reservation (rv_reservations s') m = None" by (simp add: find_reservation_None)
    with that m show False by (simp add: diff_index_def index)
  qed
  have "index_for (map fst (rv_state_diffs s')) m i" if "diff_index s' m = Some i" for m i
    using index_for_prefix [OF idx diffs_okD(5) [OF ok]] same [OF cut [OF that]] that cut [OF that]
    by (simp add: diffs take_map)
  moreover have "sorted_wrt (<) (map fst (rv_state_diffs s'))"
    using diffs_okD(2) [OF ok] by (simp add: filter sorted_wrt_map sorted_wrt_filter)
  moreover have "rv_state_diffs s' \<noteq> []" using diffs_okD(1) [OF ok] by (simp add: diffs)
  moreover have "unat n + 1 < 2 ^ 64" using n diffs_okD(9) [OF ok] by (simp add: word_le_nat_alt)
  moreover have "rv_last_block_number s' = n" by (simp add: s' s2(2))
  ultimately show "diffs_ok s'"
    using filter diffs_okD(7) [OF ok] by (auto simp: diffs_ok_def index)
qed

section \<open>Reachable storages\<close>

text \<open>
  One step per operation that changes the storage: the next block is inserted, blocks are reserved,
  the chain is reverted, a block is asked for.
\<close>

inductive reservable_step ::
  "('w, 'bp, 'bx) header_env \<Rightarrow> ('w, 'bp) reservable_storage \<Rightarrow> ('w, 'bp) reservable_storage \<Rightarrow> bool" for env where
  insert: "reservable_step env s s'" if "insert_block_and_receipts s b diff td = (Inr b', s')"
    and "unat (block_number b) = unat (rv_last_block_number s) + 1" and "unat (block_number b) + 1 < 2 ^ 64"
    and "lb_hash b = he_header_hash env (lb_header b)"
| reserve: "reservable_step env s (reserve_blocks s additional interval fee root td config)" if "additional \<noteq> 0"
    and "unat (rv_last_block_number s) + unat additional + 1 < 2 ^ 64"
| revert: "reservable_step env s s'" if "reservable_revert_to_block s n = Return (True, s')"
| fetch: "reservable_step env s s'" if "reservable_block_by_number env s n = Return (r, s')"

inductive reservable_reachable ::
  "('w, 'bp, 'bx) header_env \<Rightarrow> ('w, 'bp) reservable_storage \<Rightarrow> bool" for env where
  genesis: "reservable_reachable env (with_genesis_block b diff td)" if "block_number b = 0"
    and "lb_hash b = he_header_hash env (lb_header b)"
| step: "reservable_reachable env s'" if "reservable_reachable env s" and "reservable_step env s s'"

lemma revert_chain:
  assumes "rv_ok env s" and "reservable_revert_to_block s n = Return (True, s')"
  shows "n \<le> rv_last_block_number s" and "rv_ok env s'" and "rv_last_block_number s' = n"
    and "chain_block env s' m = (if m \<le> n then chain_block env s m else None)"
proof -
  show n: "n \<le> rv_last_block_number s"
    using revert_cases(1) [OF assms(1), of n] assms(2) by (cases "rv_last_block_number s < n") auto
  have "n = 0 \<or> diff_index s n \<noteq> None"
    using revert_cases(2) [OF assms(1) n] assms(2) by (cases "n = 0") (auto simp: word_neq_0_conv)
  from revert_cases(3) [OF assms(1) n this] assms(2)
  have s': "rv_storage s' = sparse_revert_to_block (rv_storage s) n" "rv_last_block_number s' = n"
    "rv_reservations s' = List.map_filter (retain_reservation n) (rv_reservations s)" by auto
  then show "rv_ok env s'" "rv_last_block_number s' = n"
    "chain_block env s' m = (if m \<le> n then chain_block env s m else None)"
    using revert_ok [OF assms(1) n s'] by auto
qed

lemma reservable_step_ok:
  assumes "reservable_step env s s'" and "rv_ok env s" and "diffs_ok s" and "hash_separates env"
  shows "rv_ok env s' \<and> diffs_ok s'"
  using assms(1)
proof cases
  case (insert b diff td b')
  with assms show ?thesis using insert_block_chain(1) [OF assms(2) insert(1,2,4)] diffs_ok_insert [OF assms(3,2) insert(1-3)]
    by simp
next
  case (reserve additional interval fee root td config)
  then have "unat (rv_last_block_number s) + unat additional < 2 ^ 64" by simp
  from reserve_blocks_chain(1) [OF assms(2) reserve(2) this reserve(1)] diffs_ok_reserve [OF assms(3) reserve(1-3)]
  show ?thesis by simp
next
  case (revert n)
  with assms show ?thesis using revert_chain(2) [OF assms(2)] diffs_ok_revert(1) [OF assms(2,3)] by simp
next
  case (fetch n r)
  with assms show ?thesis
    using block_by_number_diffs(4) [OF assms(2,4)] diffs_ok_block_by_number [OF assms(2,4) _ assms(3)] by simp
qed

lemma reservable_reachable_ok:
  assumes "reservable_reachable env s" and "hash_separates env"
  shows "rv_ok env s" and "diffs_ok s"
proof -
  have "rv_ok env s \<and> diffs_ok s"
    using assms(1) by induction (use assms(2) reservable_step_ok with_genesis_block_ok diffs_ok_genesis in blast)+
  then show "rv_ok env s" "diffs_ok s" by simp_all
qed

section \<open>The history of a storage\<close>

text \<open>
  The steps with what they have recorded: the numbers and the diffs of the blocks that were inserted
  and not reverted, and the numbers of the reserved blocks that were built because they were asked for.
\<close>

inductive reservable_history ::
  "('w, 'bp, 'bx) header_env \<Rightarrow> ('w, 'bp) reservable_storage \<Rightarrow> (u64 \<times> state_diff) list \<Rightarrow> u64 set \<Rightarrow> bool" for env where
  genesis: "reservable_history env (with_genesis_block b diff td) [(0, diff)] {}" if "block_number b = 0"
    and "lb_hash b = he_header_hash env (lb_header b)"
| insert: "reservable_history env s' (ds @ [(block_number b, diff)]) built" if "reservable_history env s ds built"
    and "insert_block_and_receipts s b diff td = (Inr b', s')"
    and "unat (block_number b) = unat (rv_last_block_number s) + 1" and "unat (block_number b) + 1 < 2 ^ 64"
    and "lb_hash b = he_header_hash env (lb_header b)"
| reserve: "reservable_history env (reserve_blocks s additional interval fee root td config) ds built"
    if "reservable_history env s ds built" and "additional \<noteq> 0"
    and "unat (rv_last_block_number s) + unat additional + 1 < 2 ^ 64"
| revert: "reservable_history env s' (filter (\<lambda>p. fst p \<le> n) ds) {m \<in> built. m \<le> n}"
    if "reservable_history env s ds built" and "reservable_revert_to_block s n = Return (True, s')"
| fetch: "reservable_history env s' ds (if find_reservation (rv_reservations s) n = None then built else insert n built)"
    if "reservable_history env s ds built" and "reservable_block_by_number env s n = Return (r, s')"

lemma history_reachable: "reservable_history env s ds built \<Longrightarrow> reservable_reachable env s"
  by (induction rule: reservable_history.induct)
    (blast intro: reservable_reachable.genesis reservable_reachable.step reservable_step.intros)+

lemma reachable_history: "reservable_reachable env s \<Longrightarrow> \<exists>ds built. reservable_history env s ds built"
proof (induction rule: reservable_reachable.induct)
  case (genesis b diff td)
  then show ?case by (blast intro: reservable_history.genesis)
next
  case (step s s')
  then obtain ds built where "reservable_history env s ds built" by blast
  with step(2) show ?case by cases (blast intro: reservable_history.intros)+
qed

definition history_ok :: "('w, 'bp) reservable_storage \<Rightarrow> (u64 \<times> state_diff) list \<Rightarrow> u64 set \<Rightarrow> bool" where
  "history_ok s ds built \<longleftrightarrow>
     rv_state_diffs s = ds
     \<and> (\<forall>n. diff_index s n = None \<longleftrightarrow> rv_last_block_number s < n \<or> n \<in> built)
     \<and> (\<forall>n \<in> built. n \<le> rv_last_block_number s)
     \<and> (\<forall>n. rv_number_to_diff_index s n \<noteq> None \<longrightarrow> find_reservation (rv_reservations s) n = None)"

lemma history_okD:
  assumes "history_ok s ds built"
  shows "rv_state_diffs s = ds" and "diff_index s n = None \<longleftrightarrow> rv_last_block_number s < n \<or> n \<in> built"
    and "n \<in> built \<Longrightarrow> n \<le> rv_last_block_number s"
    and "find_reservation (rv_reservations s) n \<noteq> None \<Longrightarrow> rv_number_to_diff_index s n = None"
  using assms by (auto simp: history_ok_def)

lemma not_reserved_above:
  assumes "rv_ok env s" and "rv_last_block_number s < n"
  shows "find_reservation (rv_reservations s) n = None"
proof -
  have "chain_ok s" using assms(1) by (simp add: rv_ok_def)
  then have "cover_count (rv_reservations s) n = 0" using chain_okD(5) [of s n] leD [of n "rv_last_block_number s"] assms(2) by blast
  then show ?thesis by (simp add: find_reservation_None)
qed

lemma no_diffs_above:
  assumes "rv_ok env s" and "diffs_ok s" and "rv_last_block_number s < n"
  shows "diff_index s n = None"
  using not_reserved_above [OF assms(1,3)] diffs_okD(4) [OF assms(2,3)] by (simp add: diff_index_def)

lemma history_okI:
  assumes "rv_ok env s" and "diffs_ok s" and "rv_state_diffs s = ds"
    and "\<And>n. n \<le> rv_last_block_number s \<Longrightarrow> diff_index s n = None \<longleftrightarrow> n \<in> built"
    and "\<And>n. n \<in> built \<Longrightarrow> n \<le> rv_last_block_number s"
    and "\<And>n. find_reservation (rv_reservations s) n \<noteq> None \<Longrightarrow> rv_number_to_diff_index s n = None"
  shows "history_ok s ds built"
  using assms no_diffs_above [OF assms(1,2)] unfolding history_ok_def by (metis not_le)

lemma history_ok_genesis: "history_ok (with_genesis_block b diff td) [(0, diff)] {}"
  by (auto simp: history_ok_def with_genesis_block_def diff_index_def find_reservation_def word_gt_0)

lemma history_ok_insert:
  assumes "rv_ok env s" and "rv_ok env s'" and "diffs_ok s'" and h: "history_ok s ds built"
    and "insert_block_and_receipts s b diff td = (Inr b', s')"
    and "unat (block_number b) = unat (rv_last_block_number s) + 1"
  shows "history_ok s' (ds @ [(block_number b, diff)]) built"
proof -
  have s': "rv_state_diffs s' = ds @ [(block_number b, diff)]" "rv_last_block_number s' = block_number b"
    "rv_reservations s' = rv_reservations s"
    "rv_number_to_diff_index s' = (rv_number_to_diff_index s)(block_number b \<mapsto> of_nat (length (rv_state_diffs s)))"
    using assms(5) h by (auto simp: insert_block_and_receipts_def history_ok_def Let_def split: prod.splits sum.splits)
  have above: "rv_last_block_number s < block_number b" using assms(6) by (simp add: word_less_nat_alt)
  have below: "n \<le> rv_last_block_number s" if "n \<le> block_number b" "n \<noteq> block_number b" for n
    using that assms(6) by (simp add: word_le_nat_alt word_unat_eq_iff)
  have idx: "diff_index s' n = (if n = block_number b then Some (of_nat (length (rv_state_diffs s))) else diff_index s n)" for n
    by (simp add: diff_index_def s' cong: option.case_cong)
  show ?thesis
  proof (rule history_okI [OF assms(2,3) s'(1)])
    show "diff_index s' n = None \<longleftrightarrow> n \<in> built" if "n \<le> rv_last_block_number s'" for n
      using that below [of n] h above by (auto simp: idx s' history_ok_def)
    show "n \<le> rv_last_block_number s'" if "n \<in> built" for n
      using that h above by (auto simp: s' history_ok_def intro: order_trans less_imp_le)
    show "rv_number_to_diff_index s' n = None" if "find_reservation (rv_reservations s') n \<noteq> None" for n
      using that h not_reserved_above [OF assms(1) above] by (auto simp: s' history_ok_def)
  qed
qed

lemma history_ok_reserve:
  assumes "diffs_ok s" and "rv_ok env s'" and "diffs_ok s'" and h: "history_ok s ds built"
    and s': "s' = reserve_blocks s additional interval fee root td config"
    and "unat (rv_last_block_number s) + unat additional + 1 < 2 ^ 64"
  shows "history_ok s' ds built"
proof -
  let ?l = "rv_last_block_number s"
  have last: "?l \<le> ?l + additional" "unat (?l + 1) = unat ?l + 1"
    using assms(6) by (simp_all add: word_le_nat_alt unat_add_no_overflow)
  have new: "find_reservation (rv_reservations s') n = (case find_reservation (rv_reservations s) n of Some r \<Rightarrow> Some r
      | None \<Rightarrow> if ?l < n \<and> n \<le> ?l + additional then Some (last (rv_reservations s')) else None)" for n
    using last(2) by (simp add: s' reserve_blocks_def find_reservation_append find_reservation_single covers_def
        word_le_nat_alt word_less_nat_alt Suc_le_eq split: option.split)
  have same: "rv_number_to_diff_index s' = rv_number_to_diff_index s" by (simp add: s' reserve_blocks_def)
  have idx: "diff_index s' n = None \<longleftrightarrow> diff_index s n = None \<and> \<not> (?l < n \<and> n \<le> ?l + additional)" for n
    by (auto simp: diff_index_def same new split: option.split)
  show ?thesis
  proof (rule history_okI [OF assms(2,3)])
    show "rv_state_diffs s' = ds" using h by (simp add: s' reserve_blocks_def history_ok_def)
    show "diff_index s' n = None \<longleftrightarrow> n \<in> built" if "n \<le> rv_last_block_number s'" for n
      using that h unfolding idx by (auto simp: s' reserve_blocks_def history_ok_def)
    show "n \<le> rv_last_block_number s'" if "n \<in> built" for n
      using that h last(1) by (auto simp: s' reserve_blocks_def history_ok_def intro: order_trans)
    show "rv_number_to_diff_index s' n = None" if "find_reservation (rv_reservations s') n \<noteq> None" for n
      using that h diffs_okD(4) [OF assms(1), of n]
      by (cases "find_reservation (rv_reservations s) n") (auto simp: new same history_ok_def split: if_splits)
  qed
qed

lemma find_retain_None:
  assumes "find_reservation (List.map_filter (retain_reservation n) rs) m \<noteq> None"
  shows "find_reservation rs m \<noteq> None"
proof -
  from assms obtain r' where r': "r' \<in> set (List.map_filter (retain_reservation n) rs)" "covers r' m"
    by (auto simp: find_reservation_def find_Some_iff in_set_conv_nth)
  then obtain r where r: "r \<in> set rs" "retain_reservation n r = Some r'"
    by (auto simp: List.map_filter_def)
  with r'(2) have "covers r m"
    by (auto simp: retain_reservation_def covers_def split: if_splits intro: order_trans less_imp_le)
  with r(1) show ?thesis by (auto simp: find_reservation_def find_None_iff)
qed

lemma history_ok_revert:
  assumes rv: "rv_ok env s" and ok: "diffs_ok s" and h: "history_ok s ds built"
    and revert: "reservable_revert_to_block s n = Return (True, s')"
  shows "history_ok s' (filter (\<lambda>p. fst p \<le> n) ds) {m \<in> built. m \<le> n}"
proof -
  note D = diffs_ok_revert [OF rv ok revert] and C = revert_chain [OF rv revert]
  have "n = 0 \<or> diff_index s n \<noteq> None"
    using revert_cases(2) [OF rv C(1)] revert by (cases "n = 0") (auto simp: word_neq_0_conv)
  from revert_cases(3) [OF rv C(1) this] revert
  have s': "rv_reservations s' = List.map_filter (retain_reservation n) (rv_reservations s)"
    "rv_number_to_diff_index s' =
      (if n = 0 then [0 \<mapsto> 0] else (\<lambda>k. if k \<le> n then rv_number_to_diff_index s k else None))" by auto
  show ?thesis
  proof (rule history_okI [OF C(2) D(1)])
    show "rv_state_diffs s' = filter (\<lambda>p. fst p \<le> n) ds" using D(2) h by (simp add: history_ok_def)
    show "diff_index s' m = None \<longleftrightarrow> m \<in> {m \<in> built. m \<le> n}" if "m \<le> rv_last_block_number s'" for m
      using that D(3) [of m] history_okD(2) [OF h, of m] order_trans [OF _ C(1), of m] leD [of m "rv_last_block_number s"]
      by (auto simp: C(3))
    show "m \<le> rv_last_block_number s'" if "m \<in> {m \<in> built. m \<le> n}" for m using that by (simp add: C(3))
    show "rv_number_to_diff_index s' m = None" if "find_reservation (rv_reservations s') m \<noteq> None" for m
    proof -
      have "rv_number_to_diff_index s m = None"
        using find_retain_None [of n "rv_reservations s" m] that h by (auto simp: s' history_ok_def)
      moreover from this diffs_okD(7) [OF ok] have "m \<noteq> 0" by auto
      ultimately show ?thesis by (simp add: s')
    qed
  qed
qed

lemma history_ok_fetch:
  assumes rv: "rv_ok env s" and sep: "hash_separates env" and ok: "diffs_ok s" and h: "history_ok s ds built"
    and fetch: "reservable_block_by_number env s n = Return (r, s')"
  shows "history_ok s' ds (if find_reservation (rv_reservations s) n = None then built else insert n built)"
proof -
  note D = block_by_number_diffs [OF rv sep fetch]
  have ok': "diffs_ok s'" by (rule diffs_ok_block_by_number [OF rv sep fetch ok])
  have index: "rv_number_to_diff_index s n = None \<longleftrightarrow>
      find_reservation (rv_reservations s) n \<noteq> None \<or> diff_index s n = None"
    using history_okD(4) [OF h, of n]
    by (cases "rv_number_to_diff_index s n"; cases "find_reservation (rv_reservations s) n") (simp_all add: diff_index_def)
  have reserved: "n \<le> rv_last_block_number s" if "find_reservation (rv_reservations s) n \<noteq> None"
    using that not_reserved_above [OF rv, of n] by (cases "rv_last_block_number s < n") simp_all
  show ?thesis
  proof (rule history_okI [OF D(4) ok'])
    show "rv_state_diffs s' = ds" using D(1) h by (simp add: history_ok_def)
    show "diff_index s' m = None \<longleftrightarrow> m \<in> (if find_reservation (rv_reservations s) n = None then built else insert n built)"
      if "m \<le> rv_last_block_number s'" for m
      using that D(5) [of m] index history_okD(2) [OF h, of m] leD [of m "rv_last_block_number s"] by (auto simp: D(3))
    show "m \<le> rv_last_block_number s'"
      if "m \<in> (if find_reservation (rv_reservations s) n = None then built else insert n built)" for m
      using that h reserved by (auto simp: D(3) history_ok_def split: if_splits)
    show "rv_number_to_diff_index s' m = None" if "find_reservation (rv_reservations s') m \<noteq> None" for m
      using that D(2,6) h fetched_reservation [OF rv sep fetch, of m] by (auto simp: history_ok_def)
  qed
qed

lemma reservable_history_ok:
  assumes "reservable_history env s ds built" and sep: "hash_separates env"
  shows "history_ok s ds built"
  using assms(1)
proof induction
  case (genesis b diff td)
  then show ?case by (simp add: history_ok_genesis)
next
  case (insert s ds built b diff td b' s')
  note ok = reservable_reachable_ok [OF history_reachable [OF insert(1)] sep]
  note ok' = reservable_reachable_ok [OF history_reachable [OF reservable_history.insert [OF insert(1-5)]] sep]
  show ?case by (rule history_ok_insert [OF ok(1) ok' insert.IH insert(2,3)])
next
  case (reserve s ds built additional interval fee root td config)
  note ok = reservable_reachable_ok [OF history_reachable [OF reserve(1)] sep]
  note ok' = reservable_reachable_ok [OF history_reachable [OF reservable_history.reserve [OF reserve(1-3)]] sep]
  show ?case by (rule history_ok_reserve [OF ok(2) ok' reserve.IH refl reserve(3)])
next
  case (revert s ds built n s')
  note ok = reservable_reachable_ok [OF history_reachable [OF revert(1)] sep]
  show ?case by (rule history_ok_revert [OF ok revert.IH revert(2)])
next
  case (fetch s ds built n r s')
  note ok = reservable_reachable_ok [OF history_reachable [OF fetch(1)] sep]
  show ?case by (rule history_ok_fetch [OF ok(1) sep ok(2) fetch.IH fetch(2)])
qed

lemma history_diffs:
  assumes "reservable_history env s ds built" and "hash_separates env"
  shows "state_diffs_until_block s n =
    Return (if rv_last_block_number s < n \<or> n \<in> built then None else Some (filter (\<lambda>p. fst p \<le> n) ds))"
  using history_okD(1) [OF reservable_history_ok [OF assms]] history_okD(2) [OF reservable_history_ok [OF assms], of n] state_diffs_until_block_ok
      [OF reservable_reachable_ok(2) [OF history_reachable [OF assms(1)] assms(2)], of n]
  by (cases "diff_index s n") auto

section \<open>Properties\<close>

text \<open>C19. A storage starts with a genesis block; then blocks are inserted with success, blocks are
  reserved, the chain is reverted and blocks are asked for, in any order. The storage holds a
  chain: there is a block under exactly the numbers up to the last one. The diffs that lead to the state of a block
  are those of the inserted blocks up to it, in ascending order, and nothing is lost of them. The only
  blocks of the chain without diffs are the reserved blocks that were asked for and built since
  (which is a bug). A block whose insertion fails is not covered: the storage is then left without its last block.\<close>

theorem reservable_reachable_chain:
  assumes "reservable_history env s ds built" and "hash_separates env"
  shows "(\<forall>n. chain_block env s n = None \<longleftrightarrow> rv_last_block_number s < n)
    \<and> (\<forall>n b. chain_block env s n = Some b \<longrightarrow> block_number b = n)
    \<and> sorted_wrt (<) (map fst ds)
    \<and> (\<forall>n. state_diffs_until_block s n =
          Return (if rv_last_block_number s < n \<or> n \<in> built then None else Some (filter (\<lambda>p. fst p \<le> n) ds)))"
proof -
  note ok = reservable_reachable_ok [OF history_reachable [OF assms(1)] assms(2)]
  have chain: "chain_ok s" using ok(1) by (simp add: rv_ok_def)
  have "sorted_wrt (<) (map fst ds)"
    using diffs_okD(2) [OF ok(2)] reservable_history_ok [OF assms] by (simp add: history_ok_def)
  with chain_block_None_iff [OF chain] chain_block_number [OF chain] history_diffs [OF assms] show ?thesis by blast
qed

lemma sample_chain_reachable: "reservable_reachable sample_env sample_chain"
  unfolding sample_chain_def
  by (rule reservable_reachable.step [OF reservable_reachable.genesis reservable_step.reserve])
    (simp_all add: genesis_block_def sample_env_def with_genesis_block_def)

lemma sample_chain_fields:
  "rv_last_block_number sample_chain = 10" "rv_state_diffs sample_chain = [(0, [])]"
  "rv_number_to_diff_index sample_chain = [0 \<mapsto> 0]"
  "map_option rs_previous_diff_index (find_reservation (rv_reservations sample_chain) 4) = Some 0"
  by (simp_all add: sample_chain_def reserve_blocks_def with_genesis_block_def find_reservation_single covers_def)

lemma sample_chain_diff_index: "diff_index sample_chain 4 = Some 0"
  by (simp add: diff_index_def sample_chain_fields)

lemma sample_chain_history: "reservable_history sample_env sample_chain [(0, [])] {}"
  unfolding sample_chain_def
  by (rule reservable_history.reserve [OF reservable_history.genesis])
    (simp_all add: genesis_block_def sample_env_def with_genesis_block_def)

theorem reservable_reachable_chain_witness:
  "chain_block sample_env sample_chain 10 \<noteq> None \<and> chain_block sample_env sample_chain 11 = None
   \<and> state_diffs_until_block sample_chain 4 = Return (Some [(0, [])])
   \<and> state_diffs_until_block sample_chain 11 = Return None"
  using reservable_reachable_chain [OF sample_chain_history sample_env_separates]
  by (simp add: sample_chain_fields)

text \<open>C20. Reverting to a block beyond the end of the chain changes nothing and says so. Reverting to
  a block of the chain keeps exactly the blocks and the diffs up to it; it panics only if the
  block, which is not the genesis block, has no state.\<close>

theorem reservable_revert_cuts_chain:
  assumes "reservable_reachable env s" and "hash_separates env"
  shows "case reservable_revert_to_block s n of
      Panic \<Rightarrow> 0 < n \<and> n \<le> rv_last_block_number s \<and> diff_index s n = None
    | Return (False, s') \<Rightarrow> rv_last_block_number s < n \<and> s' = s
    | Return (True, s') \<Rightarrow> n \<le> rv_last_block_number s \<and> rv_last_block_number s' = n
        \<and> (\<forall>m. chain_block env s' m = (if m \<le> n then chain_block env s m else None))
        \<and> rv_state_diffs s' = filter (\<lambda>p. fst p \<le> n) (rv_state_diffs s)
        \<and> (\<forall>m \<le> n. state_diffs_until_block s' m = state_diffs_until_block s m)"
proof -
  note ok = reservable_reachable_ok [OF assms]
  consider "rv_last_block_number s < n" | "n \<le> rv_last_block_number s" "0 < n" "diff_index s n = None"
    | "n \<le> rv_last_block_number s" "n = 0 \<or> diff_index s n \<noteq> None"
    by (cases "rv_last_block_number s < n"; cases "n = 0"; cases "diff_index s n") (auto simp: not_less word_neq_0_conv)
  then show ?thesis
  proof cases
    case 3
    then obtain s' where s': "reservable_revert_to_block s n = Return (True, s')"
      using revert_cases(3) [OF ok(1)] by blast
    note D = diffs_ok_revert [OF ok s']
    have "state_diffs_until_block s' m = state_diffs_until_block s m" if "m \<le> n" for m
    proof -
      have "filter (\<lambda>p. fst p \<le> m) (rv_state_diffs s') = filter (\<lambda>p. fst p \<le> m) (rv_state_diffs s)"
        unfolding D(2) filter_filter by (rule filter_cong) (use that in auto)
      then show ?thesis
        by (simp add: state_diffs_until_block_ok [OF ok(2)] state_diffs_until_block_ok [OF D(1)] D(3) [OF that])
    qed
    with s' D(2) revert_chain [OF ok(1) s'] show ?thesis by simp
  qed (simp_all add: revert_cases [OF ok(1)])
qed

theorem reservable_revert_cuts_chain_witness:
  "\<exists>s'. reservable_revert_to_block sample_chain 4 = Return (True, s') \<and> rv_last_block_number s' = 4
     \<and> chain_block sample_env s' 5 = None \<and> state_diffs_until_block s' 4 = state_diffs_until_block sample_chain 4"
proof -
  obtain s' where "reservable_revert_to_block sample_chain 4 = Return (True, s')"
    using revert_cases(3) [OF sample_chain_ok, of 4] sample_chain_diff_index by (auto simp: sample_chain_fields)
  with reservable_revert_cuts_chain [OF sample_chain_reachable sample_env_separates, of 4]
  show ?thesis by (auto simp: sample_chain_fields)
qed

text \<open>Asking for a reserved block loses its state: the storage has no diffs for the block any
  more, as if it did not exist, and reverting to it panics.\<close>

theorem fetched_reserved_block_loses_state:
  assumes "reservable_reachable env s" and "hash_separates env" and "0 < n"
    and "find_reservation (rv_reservations s) n = Some r" and "rv_number_to_diff_index s n = None"
  shows "\<exists>b s'. reservable_block_by_number env s n = Return (Inr (Some b), s')
    \<and> state_diffs_until_block s n \<noteq> Return None \<and> state_diffs_until_block s' n = Return None
    \<and> reservable_revert_to_block s' n = Panic"
proof -
  note ok = reservable_reachable_ok [OF assms(1,2)]
  have "chain_ok s" using ok(1) by (simp add: rv_ok_def)
  then have last: "n \<le> rv_last_block_number s"
    using chain_okD(5) [of s n] find_reservation_None [of "rv_reservations s" n] assms(4) by auto
  from ok(1) assms(2,4) obtain b s' where f: "try_fulfilling_reservation env s n = Return (Inr (Some b), s')"
    by (rule fulfil_reserved)
  then have b: "reservable_block_by_number env s n = Return (Inr (Some b), s')"
    by (simp add: reservable_block_by_number_def)
  note D = block_by_number_diffs [OF ok(1) assms(2) b]
  have s': "diff_index s' n = None" using D(5) [of n] assms(5) by simp
  have "state_diffs_until_block s n \<noteq> Return None"
    by (simp add: state_diffs_until_block_ok [OF ok(2)] diff_index_def assms(4,5))
  moreover have "state_diffs_until_block s' n = Return None" by (simp add: state_diffs_until_block_def s')
  moreover have "reservable_revert_to_block s' n = Panic"
    using revert_cases(2) [OF D(4) _ assms(3) s'] last D(3) by simp
  ultimately show ?thesis using b by blast
qed

theorem fetched_reserved_block_loses_state_witness:
  "\<exists>b s'. reservable_block_by_number sample_env sample_chain 4 = Return (Inr (Some b), s')
     \<and> state_diffs_until_block s' 4 = Return None \<and> reservable_revert_to_block s' 4 = Panic"
proof -
  obtain r where "find_reservation (rv_reservations sample_chain) 4 = Some r" using sample_chain_fields(4) by auto
  from fetched_reserved_block_loses_state [OF sample_chain_reachable sample_env_separates _ this]
  show ?thesis by (auto simp: sample_chain_fields)
qed

end
