(* ===== verification/Local_Blockchain.thy ===== *)
theory Local_Blockchain
  imports Reservable_Reach State_Code
begin

text \<open>
  The local blockchain (\<^verbatim>\<open>crates/blockchain/local/src/lib.rs\<close>) and the computation of the state
  at a block (\<^verbatim>\<open>crates/blockchain/api/src/utils.rs\<close>). An operation that asks the storage for a
  block through a shared reference returns the changed blockchain, because the storage builds
  reserved blocks when they are asked for.
\<close>

section \<open>Ordered maps\<close>

text \<open>\<^verbatim>\<open>BTreeMap\<close>: an association list in strictly ascending order of its keys.\<close>

definition btree_ok :: "('k::linorder \<times> 'v) list \<Rightarrow> bool" where
  "btree_ok m \<longleftrightarrow> sorted_wrt (<) (map fst m)"

fun btree_insert :: "'k::linorder \<Rightarrow> 'v \<Rightarrow> ('k \<times> 'v) list \<Rightarrow> ('k \<times> 'v) list" where
  "btree_insert k v [] = [(k, v)]"
| "btree_insert k v ((k', v') # m) =
     (if k < k' then (k, v) # (k', v') # m
      else if k = k' then (k, v) # m
      else (k', v') # btree_insert k v m)"

definition btree_collect :: "('k::linorder \<times> 'v) list \<Rightarrow> ('k \<times> 'v) list" where
  "btree_collect entries = foldl (\<lambda>m (k, v). btree_insert k v m) [] entries"

text \<open>\<^verbatim>\<open>BTreeMap::range\<close> with two included bounds: it panics if they are in the wrong order.\<close>

definition btree_range :: "('k::linorder \<times> 'v) list \<Rightarrow> 'k \<Rightarrow> 'k \<Rightarrow> ('k \<times> 'v) list outcome" where
  "btree_range m lo hi =
     (if hi < lo then Panic else Return (filter (\<lambda>(k, _). lo \<le> k \<and> k \<le> hi) m))"

section \<open>The state at a block\<close>

text \<open>The body of the loop over the overrides.\<close>

definition override_diff :: "(u64 \<times> state_diff) list \<Rightarrow> u64 \<Rightarrow> state_override \<Rightarrow> (u64 \<times> state_diff) list" where
  "override_diff m n ov =
     btree_insert n
       (case map_of m n of
          Some diff \<Rightarrow> apply_diff diff (so_diff ov)
        | None \<Rightarrow> so_diff ov) m"

text \<open>The state is changed through its interface \<^verbatim>\<open>StateCommit\<close>, here a function.\<close>

definition compute_state_at_block ::
  "('s \<Rightarrow> evm_state \<Rightarrow> 's) \<Rightarrow> 's \<Rightarrow> ('w, 'bp) reservable_storage \<Rightarrow> u64 \<Rightarrow> u64
     \<Rightarrow> (u64 \<times> state_override) list \<Rightarrow> 's outcome" where
  "compute_state_at_block commit state storage first_local_block_number last_local_block_number overrides =
     bind_outcome (state_diffs_until_block storage last_local_block_number) (\<lambda>diffs.
       bind_outcome (btree_range overrides first_local_block_number last_local_block_number) (\<lambda>range.
         let state_diffs = btree_collect (case diffs of Some diffs \<Rightarrow> diffs | None \<Rightarrow> []);
             overridden = foldl (\<lambda>m (n, ov). override_diff m n ov) state_diffs range
         in Return (foldl (\<lambda>state (_, diff). commit state diff) state overridden)))"

section \<open>The blockchain\<close>

datatype invalid_genesis_block = GenesisInvalidBlockNumber u64 | GenesisMissingWithdrawals

datatype local_blockchain_error =
    BlockAndReceiptInsertion insert_block_and_receipts_error
  | BlockInsertion insert_block_error
  | InvalidNextBlock block_validity_error
  | UnknownBlockNumber

record ('w, 'bp) local_blockchain =
  lc_chain_id :: u64
  lc_hardfork :: l1_hardfork
  lc_storage :: "('w, 'bp) reservable_storage"

definition local_blockchain_new ::
  "'w local_block \<Rightarrow> state_diff \<Rightarrow> u64 \<Rightarrow> l1_hardfork \<Rightarrow> invalid_genesis_block + ('w, 'bp) local_blockchain" where
  "local_blockchain_new block genesis_diff chain_id hardfork =
     (let genesis_header = lb_header block
      in if bh_number genesis_header \<noteq> 0 then Inl (GenesisInvalidBlockNumber (bh_number genesis_header))
         else if SHANGHAI \<le> into_evm_spec hardfork \<and> bh_withdrawals_root genesis_header = None
         then Inl GenesisMissingWithdrawals
         else Inr \<lparr>lc_chain_id = chain_id, lc_hardfork = hardfork,
                   lc_storage = with_genesis_block block genesis_diff (bh_difficulty genesis_header)\<rparr>)"

definition lc_block_by_number ::
  "('w, 'bp, 'bx) header_env \<Rightarrow> ('w, 'bp) local_blockchain \<Rightarrow> u64
     \<Rightarrow> ((local_blockchain_error + 'w local_block option) \<times> ('w, 'bp) local_blockchain) outcome" where
  "lc_block_by_number env lc n =
     bind_outcome (reservable_block_by_number env (lc_storage lc) n) (\<lambda>(r, storage).
       Return (map_sum BlockInsertion id r, lc\<lparr>lc_storage := storage\<rparr>))"

definition last_local_block ::
  "('w, 'bp, 'bx) header_env \<Rightarrow> ('w, 'bp) local_blockchain
     \<Rightarrow> ((local_blockchain_error + 'w local_block) \<times> ('w, 'bp) local_blockchain) outcome" where
  "last_local_block env lc =
     bind_outcome (lc_block_by_number env lc (rv_last_block_number (lc_storage lc))) (\<lambda>(r, lc).
       case r of
         Inl e \<Rightarrow> Return (Inl e, lc)
       | Inr None \<Rightarrow> Panic
       | Inr (Some block) \<Rightarrow> Return (Inr block, lc))"

definition block_hash_by_number ::
  "('w, 'bp, 'bx) header_env \<Rightarrow> ('w, 'bp) local_blockchain \<Rightarrow> u64
     \<Rightarrow> ((local_blockchain_error + b256) \<times> ('w, 'bp) local_blockchain) outcome" where
  "block_hash_by_number env lc n =
     bind_outcome (lc_block_by_number env lc n) (\<lambda>(r, lc).
       Return (case r of
                 Inl e \<Rightarrow> Inl e
               | Inr None \<Rightarrow> Inl UnknownBlockNumber
               | Inr (Some block) \<Rightarrow> Inr (lb_hash block), lc))"

definition lc_last_block_number :: "('w, 'bp) local_blockchain \<Rightarrow> u64" where
  "lc_last_block_number lc = rv_last_block_number (lc_storage lc)"

definition chain_id_at_block_number :: "('w, 'bp) local_blockchain \<Rightarrow> u64 \<Rightarrow> local_blockchain_error + u64" where
  "chain_id_at_block_number lc n = Inr (lc_chain_id lc)"

definition spec_at_block_number :: "('w, 'bp) local_blockchain \<Rightarrow> u64 \<Rightarrow> local_blockchain_error + l1_hardfork" where
  "spec_at_block_number lc n =
     (if lc_last_block_number lc < n then Inl UnknownBlockNumber else Inr (lc_hardfork lc))"

definition network_id :: "('w, 'bp) local_blockchain \<Rightarrow> u64" where
  "network_id lc = lc_chain_id lc"

definition lc_block_by_hash :: "('w, 'bp) local_blockchain \<Rightarrow> b256 \<Rightarrow> local_blockchain_error + 'w local_block option" where
  "lc_block_by_hash lc h = Inr (reservable_block_by_hash (lc_storage lc) h)"

definition lc_block_by_transaction_hash ::
  "('w, 'bp) local_blockchain \<Rightarrow> b256 \<Rightarrow> local_blockchain_error + 'w local_block option" where
  "lc_block_by_transaction_hash lc h = Inr (reservable_block_by_transaction_hash (lc_storage lc) h)"

definition lc_logs ::
  "('w, 'bp) local_blockchain \<Rightarrow> u64 \<Rightarrow> u64 \<Rightarrow> address list \<Rightarrow> b256 list option list
     \<Rightarrow> local_blockchain_error + filter_log list" where
  "lc_logs lc from_block to_block addresses topics =
     Inr (reservable_logs (lc_storage lc) from_block to_block addresses topics)"

definition lc_receipt_by_transaction_hash ::
  "('w, 'bp) local_blockchain \<Rightarrow> b256 \<Rightarrow> local_blockchain_error + block_receipt option" where
  "lc_receipt_by_transaction_hash lc h = Inr (reservable_receipt_by_transaction_hash (lc_storage lc) h)"

definition lc_total_difficulty_by_hash :: "('w, 'bp) local_blockchain \<Rightarrow> b256 \<Rightarrow> u256 option" where
  "lc_total_difficulty_by_hash lc h = reservable_total_difficulty_by_hash (lc_storage lc) h"

definition lc_insert_block ::
  "('w, 'bp, 'bx) header_env \<Rightarrow> ('w, 'bp) local_blockchain \<Rightarrow> 'w local_block \<Rightarrow> state_diff
     \<Rightarrow> ((local_blockchain_error + 'w local_block \<times> u256) \<times> ('w, 'bp) local_blockchain) outcome" where
  "lc_insert_block env lc block diff =
     bind_outcome (last_local_block env lc) (\<lambda>(r, lc).
       case r of
         Inl e \<Rightarrow> Return (Inl e, lc)
       | Inr last_block \<Rightarrow>
           (case validate_next_block (lc_hardfork lc) last_block block of
              Inl e \<Rightarrow> Return (Inl (InvalidNextBlock e), lc)
            | Inr _ \<Rightarrow>
                (case lc_total_difficulty_by_hash lc (lb_hash last_block) of
                   None \<Rightarrow> Panic
                 | Some previous_total_difficulty \<Rightarrow>
                     (let total_difficulty = previous_total_difficulty + bh_difficulty (lb_header block);
                          (r, storage) = insert_block_and_receipts (lc_storage lc) block diff total_difficulty
                      in Return (map_sum BlockAndReceiptInsertion (\<lambda>b. (b, total_difficulty)) r,
                           lc\<lparr>lc_storage := storage\<rparr>)))))"

definition lc_reserve_blocks ::
  "('w, 'bp, 'bx) header_env \<Rightarrow> ('w, 'bp) local_blockchain \<Rightarrow> 'bp block_config \<Rightarrow> u64 \<Rightarrow> u64
     \<Rightarrow> ((local_blockchain_error + unit) \<times> ('w, 'bp) local_blockchain) outcome" where
  "lc_reserve_blocks env lc config additional interval =
     (if additional = 0 then Return (Inr (), lc)
      else
        bind_outcome (last_local_block env lc) (\<lambda>(r, lc).
          case r of
            Inl e \<Rightarrow> Return (Inl e, lc)
          | Inr last_block \<Rightarrow>
              (case lc_total_difficulty_by_hash lc (lb_hash last_block) of
                 None \<Rightarrow> Panic
               | Some previous_total_difficulty \<Rightarrow>
                   (let last_header = lb_header last_block
                    in Return (Inr (),
                         lc\<lparr>lc_storage :=
                              reserve_blocks (lc_storage lc) additional interval
                                (bh_base_fee_per_gas last_header) (bh_state_root last_header)
                                previous_total_difficulty config\<rparr>)))))"

definition lc_revert_to_block ::
  "('w, 'bp) local_blockchain \<Rightarrow> u64 \<Rightarrow> ((local_blockchain_error + unit) \<times> ('w, 'bp) local_blockchain) outcome" where
  "lc_revert_to_block lc n =
     bind_outcome (reservable_revert_to_block (lc_storage lc) n) (\<lambda>(reverted, storage).
       Return (if reverted then Inr () else Inl UnknownBlockNumber, lc\<lparr>lc_storage := storage\<rparr>))"

definition state_at_block_number ::
  "state_env \<Rightarrow> ('w, 'bp) local_blockchain \<Rightarrow> u64 \<Rightarrow> (u64 \<times> state_override) list
     \<Rightarrow> (local_blockchain_error + state_trie) outcome" where
  "state_at_block_number senv lc n overrides =
     (if lc_last_block_number lc < n then Return (Inl UnknownBlockNumber)
      else
        bind_outcome
          (compute_state_at_block (state_commit senv) (state_default senv) (lc_storage lc) 0 n overrides)
          (\<lambda>state. Return (Inr state)))"

end
