(* ===== verification/Local_Blockchain_Facts.thy ===== *)
theory Local_Blockchain_Facts
  imports Local_Blockchain
begin

text \<open>
  What the local blockchain promises: blocks are appended only if they fit on the last block, total
  difficulties add up, and the state at a block is the composition of the diffs and overrides of
  the blocks up to it.
\<close>

section \<open>Ordered maps\<close>

lemma btree_insert_keys: "set (map fst (btree_insert k v m)) = insert k (set (map fst m))"
  by (induction k v m rule: btree_insert.induct) auto

lemma btree_ok_insert: "btree_ok m \<Longrightarrow> btree_ok (btree_insert k v m)"
proof (induction k v m rule: btree_insert.induct)
  case (2 k v k' v' m)
  then have ok: "btree_ok m" and above: "\<forall>x \<in> set (map fst m). k' < x" by (simp_all add: btree_ok_def)
  show ?case
  proof (cases k k' rule: linorder_cases)
    case greater
    then have "btree_ok (btree_insert k v m)" using "2.IH" ok by simp
    moreover have "\<forall>x \<in> set (map fst (btree_insert k v m)). k' < x"
      using above greater unfolding btree_insert_keys by simp
    ultimately show ?thesis using greater by (auto simp: btree_ok_def)
  qed (use ok above in \<open>auto simp: btree_ok_def\<close>)
qed (simp add: btree_ok_def)

lemma map_of_btree_insert: "btree_ok m \<Longrightarrow> map_of (btree_insert k v m) = (map_of m)(k \<mapsto> v)"
proof (induction k v m rule: btree_insert.induct)
  case (2 k v k' v' m)
  then have "btree_ok m" by (simp add: btree_ok_def)
  with 2 show ?case by (auto simp: fun_eq_iff)
qed simp

lemma btree_insert_last:
  "sorted_wrt (<) (map fst m @ [k]) \<Longrightarrow> btree_insert k v m = m @ [(k, v)]"
  by (induction k v m rule: btree_insert.induct) (auto simp: sorted_wrt_append)

lemma btree_collect_sorted:
  assumes "sorted_wrt (<) (map fst xs)"
  shows "btree_collect xs = xs"
  using assms
proof (induction xs rule: rev_induct)
  case (snoc p xs)
  then have "btree_collect xs = xs" by (simp add: sorted_wrt_append)
  with snoc.prems show ?case
    using btree_insert_last [of xs "fst p" "snd p"] by (simp add: btree_collect_def prod.case_eq_if)
qed (simp add: btree_collect_def)

section \<open>The state at a block\<close>

text \<open>The diff of a block with the override of that block.\<close>

definition merged_diff :: "state_diff option \<Rightarrow> state_override option \<Rightarrow> state_diff option" where
  "merged_diff diff ov =
     (case ov of
        None \<Rightarrow> diff
      | Some ov \<Rightarrow> Some (case diff of Some d \<Rightarrow> apply_diff d (so_diff ov) | None \<Rightarrow> so_diff ov))"

lemma override_fold:
  assumes "btree_ok m" and "distinct (map fst ovs)"
  shows "btree_ok (foldl (\<lambda>m (n, ov). override_diff m n ov) m ovs)
    \<and> map_of (foldl (\<lambda>m (n, ov). override_diff m n ov) m ovs) k = merged_diff (map_of m k) (map_of ovs k)"
  using assms
proof (induction ovs arbitrary: m)
  case (Cons p ovs)
  obtain n ov where p: "p = (n, ov)" by (cases p)
  have ok: "btree_ok (override_diff m n ov)" using Cons.prems(1) by (simp add: override_diff_def btree_ok_insert)
  have at: "map_of (override_diff m n ov) k = (if k = n then merged_diff (map_of m k) (Some ov) else map_of m k)"
    using Cons.prems(1) by (simp add: override_diff_def map_of_btree_insert merged_diff_def)
  have "k = n \<Longrightarrow> map_of ovs k = None" using Cons.prems(2) by (simp add: p map_of_eq_None_iff)
  with Cons.IH [OF ok] Cons.prems(2) at show ?case by (auto simp: p merged_diff_def)
qed (simp add: merged_diff_def)

lemma map_of_filter_key: "map_of (filter (\<lambda>p. P (fst p)) xs) k = (if P k then map_of xs k else None)"
  by (induction xs) auto

text \<open>The diffs that are committed for a block, by block number.\<close>

definition effective_diffs ::
  "('w, 'bp) reservable_storage \<Rightarrow> u64 \<Rightarrow> u64 \<Rightarrow> (u64 \<times> state_override) list \<Rightarrow> u64 \<Rightarrow> state_diff option" where
  "effective_diffs s lo n overrides k =
     merged_diff (if k \<le> n \<and> diff_index s n \<noteq> None then map_of (rv_state_diffs s) k else None)
       (if lo \<le> k \<and> k \<le> n then map_of overrides k else None)"

lemma compute_state_spec:
  assumes "diffs_ok s" and "btree_ok overrides" and "lo \<le> n"
  obtains m where "compute_state_at_block commit st s lo n overrides = Return (foldl (\<lambda>st (_, d). commit st d) st m)"
    and "btree_ok m" and "\<And>k. map_of m k = effective_diffs s lo n overrides k"
proof -
  define ds where "ds = (if diff_index s n = None then [] else filter (\<lambda>p. fst p \<le> n) (rv_state_diffs s))"
  define range where "range = filter (\<lambda>p. lo \<le> fst p \<and> fst p \<le> n) overrides"
  define m where "m = foldl (\<lambda>m (n, ov). override_diff m n ov) ds range"
  have sorted: "sorted_wrt (<) (map fst ds)"
    using diffs_okD(2) [OF assms(1)] by (simp add: ds_def sorted_wrt_map sorted_wrt_filter)
  have r: "btree_range overrides lo n = Return range"
    using assms(3) by (simp add: btree_range_def range_def split_def not_less)
  have "compute_state_at_block commit st s lo n overrides = Return (foldl (\<lambda>st (_, d). commit st d) st m)"
    using btree_collect_sorted [OF sorted] unfolding compute_state_at_block_def r state_diffs_until_block_ok [OF assms(1)]
    by (cases "diff_index s n") (simp_all add: m_def ds_def)
  moreover have "distinct (map fst range)"
  proof -
    have "sorted_wrt (<) (map fst range)"
      using assms(2) by (simp add: range_def btree_ok_def sorted_wrt_map sorted_wrt_filter)
    then show ?thesis by (simp add: strict_sorted_iff)
  qed
  with sorted have m: "btree_ok m" "map_of m k = merged_diff (map_of ds k) (map_of range k)" for k
    using override_fold [of ds range] unfolding m_def by (simp_all add: btree_ok_def)
  have "map_of m k = effective_diffs s lo n overrides k" for k
    unfolding m(2) effective_diffs_def ds_def range_def
    using map_of_filter_key [of "\<lambda>x. x \<le> n" "rv_state_diffs s" k]
      map_of_filter_key [of "\<lambda>x. lo \<le> x \<and> x \<le> n" overrides k] by (cases "diff_index s n") simp_all
  with m(1) show thesis using calculation that by blast
qed

text \<open>An ordered map is determined by its entries.\<close>

lemma btree_ok_inject:
  assumes "btree_ok m" and "btree_ok m'" and "map_of m = map_of m'"
  shows "m = m'"
proof -
  have d: "distinct (map fst m)" "distinct (map fst m')" "sorted (map fst m)" "sorted (map fst m')"
    using assms(1,2) by (simp_all add: btree_ok_def strict_sorted_iff)
  have "set m = set m'" using map_of_inject_set [OF d(1,2)] assms(3) by simp
  moreover from this d(1) have "inj_on fst (set m \<union> set m')" by (simp add: distinct_map)
  ultimately show ?thesis using map_sorted_distinct_set_unique [of fst m m'] d by simp
qed

section \<open>The last block\<close>

lemma fetched_block:
  assumes "rv_ok env s" and "hash_separates env" and "n \<le> rv_last_block_number s"
  obtains b s' where "reservable_block_by_number env s n = Return (Inr (Some b), s')"
    and "chain_block env s n = Some b" and "sparse_block_by_number (rv_storage s') n = Some b"
    and "rv_ok env s'" and "chain_block env s' = chain_block env s"
proof -
  have chain: "chain_ok s" using assms(1) by (simp add: rv_ok_def)
  obtain b where b: "chain_block env s n = Some b"
    using chain_block_None_iff [OF chain, of env n] assms(3) by (cases "chain_block env s n") auto
  show thesis
  proof (cases "find_reservation (rv_reservations s) n")
    case None
    then have "reservable_block_by_number env s n = Return (Inr (Some b), s)"
      and "sparse_block_by_number (rv_storage s) n = Some b" using b
      by (simp_all add: reservable_block_by_number_def try_fulfilling_reservation_def find_enum_no_reservation
          chain_block_def)
    with b assms(1) show thesis by (intro that) simp_all
  next
    case (Some r)
    from assms(1,2) Some obtain b' s' where f: "try_fulfilling_reservation env s n = Return (Inr (Some b'), s')"
      and b': "chain_block env s n = Some b'" and "block_number b' = n"
      and s': "rv_ok env s'" "chain_block env s' = chain_block env s"
      and "rv_last_block_number s' = rv_last_block_number s" "rv_state_diffs s' = rv_state_diffs s"
        "rv_number_to_diff_index s' = rv_number_to_diff_index s"
      and free: "find_reservation (rv_reservations s') n = None"
      and "\<forall>m. m \<noteq> n \<longrightarrow> map_option rs_previous_diff_index (find_reservation (rv_reservations s') m) =
        map_option rs_previous_diff_index (find_reservation (rv_reservations s) m)"
      by (rule fulfil_reserved)
    have "reservable_block_by_number env s n = Return (Inr (Some b'), s')"
      using f by (simp add: reservable_block_by_number_def)
    moreover have "sparse_block_by_number (rv_storage s') n = Some b'"
      using fun_cong [OF s'(2), of n] b' free by (simp add: chain_block_def)
    ultimately show thesis using b' s' by (intro that)
  qed
qed

lemma stored_total_difficulty:
  assumes "rv_ok env s" and "sparse_block_by_number (rv_storage s) n = Some b"
  obtains td where "reservable_total_difficulty_by_hash s (lb_hash b) = Some td"
proof -
  have inv: "sparse_inv (rv_storage s)" using assms(1) chain_okD(1) [of s] by (simp add: rv_ok_def)
  have "b \<in> sparse_blocks (rv_storage s)" using assms(2) by (simp add: sparse_by_number_iff [OF inv])
  then have "lb_hash b \<in> dom (ss_hash_to_block (rv_storage s))" using sparse_invD(3) [OF inv] by blast
  then show thesis using sparse_invD(4) [OF inv] that
    by (auto simp: reservable_total_difficulty_by_hash_def sparse_total_difficulty_by_hash_def)
qed

lemma last_local_block_ok:
  assumes "reservable_reachable env (lc_storage lc)" and "hash_separates env"
  obtains b s' td where "last_local_block env lc = Return (Inr b, lc\<lparr>lc_storage := s'\<rparr>)"
    and "reservable_block_by_number env (lc_storage lc) (rv_last_block_number (lc_storage lc)) = Return (Inr (Some b), s')"
    and "chain_block env (lc_storage lc) (rv_last_block_number (lc_storage lc)) = Some b"
    and "reservable_reachable env s'" and "chain_block env s' = chain_block env (lc_storage lc)"
    and "rv_last_block_number s' = rv_last_block_number (lc_storage lc)"
    and "reservable_total_difficulty_by_hash s' (lb_hash b) = Some td"
proof -
  let ?s = "lc_storage lc" and ?l = "rv_last_block_number (lc_storage lc)"
  note ok = reservable_reachable_ok [OF assms]
  from ok(1) assms(2) order.refl [of ?l] obtain b s' where f: "reservable_block_by_number env ?s ?l = Return (Inr (Some b), s')"
    and b: "chain_block env ?s ?l = Some b" and stored: "sparse_block_by_number (rv_storage s') ?l = Some b"
    and s': "rv_ok env s'" "chain_block env s' = chain_block env ?s" by (rule fetched_block)
  obtain td where td: "reservable_total_difficulty_by_hash s' (lb_hash b) = Some td"
    using s'(1) stored by (rule stored_total_difficulty)
  have "last_local_block env lc = Return (Inr b, lc\<lparr>lc_storage := s'\<rparr>)"
    using f by (simp add: last_local_block_def lc_block_by_number_def)
  moreover have "reservable_reachable env s'"
    by (rule reservable_reachable.step [OF assms(1) reservable_step.fetch [OF f]])
  moreover have "rv_last_block_number s' = ?l" by (rule block_by_number_diffs(3) [OF ok(1) assms(2) f])
  ultimately show thesis using f b s'(2) td by (intro that)
qed

section \<open>Appending blocks\<close>

lemma insert_and_receipts_err:
  assumes "insert_block_and_receipts s b diff td = (Inl e, s')"
  shows "rv_reservations s' = rv_reservations s" and "rv_last_block_number s' = block_number b"
    and "sparse_block_by_number (rv_storage s') = sparse_block_by_number (rv_storage s)"
proof -
  obtain r1 storage where r1: "sparse_insert_receipts (rv_storage s) (lb_transaction_receipts b) = (r1, storage)"
    by (cases "sparse_insert_receipts (rv_storage s) (lb_transaction_receipts b)")
  obtain r2 storage' where r2: "sparse_insert_block storage b td = (r2, storage')"
    by (cases "sparse_insert_block storage b td")
  have "ss_number_to_block storage = ss_number_to_block (rv_storage s)"
    using r1 by (auto simp: sparse_insert_receipts_def split: option.splits)
  then have storage: "sparse_block_by_number storage = sparse_block_by_number (rv_storage s)"
    by (simp add: sparse_block_by_number_def fun_eq_iff)
  show "rv_reservations s' = rv_reservations s" "rv_last_block_number s' = block_number b"
    using assms r1 r2 by (auto simp: insert_block_and_receipts_def Let_def split: sum.splits)
  show "sparse_block_by_number (rv_storage s') = sparse_block_by_number (rv_storage s)"
  proof (cases r1)
    case (Inl e)
    with assms r1 storage show ?thesis by (auto simp: insert_block_and_receipts_def Let_def)
  next
    case (Inr u)
    with assms r1 r2 obtain e' where "r2 = Inl e'" and s': "rv_storage s' = storage'"
      by (cases r2) (auto simp: insert_block_and_receipts_def Let_def)
    with r2 sparse_insert_err have "storage' = storage" by blast
    with s' storage show ?thesis by simp
  qed
qed

lemma sparse_insert_difficulty:
  "sparse_insert_block s b td = (Inr b', s') \<Longrightarrow>
     ss_hash_to_total_difficulty s (lb_hash b) = None \<and> b' = b
     \<and> ss_hash_to_total_difficulty s' = (ss_hash_to_total_difficulty s)(lb_hash b \<mapsto> td)"
  by (auto simp: sparse_insert_block_def split: if_splits option.splits)

lemma insert_total_difficulty:
  assumes "insert_block_and_receipts s b diff td = (Inr b', s')"
  shows "reservable_total_difficulty_by_hash s' h =
      (if h = lb_hash b then Some td else reservable_total_difficulty_by_hash s h)"
    and "reservable_total_difficulty_by_hash s (lb_hash b) = None" and "b' = b" and "rv_last_block_number s' = block_number b"
proof -
  from assms obtain storage where receipts: "sparse_insert_receipts (rv_storage s) (lb_transaction_receipts b) = (Inr (), storage)"
    and block: "sparse_insert_block storage b td = (Inr b', rv_storage s')" and "rv_reservations s' = rv_reservations s"
    and last: "rv_last_block_number s' = block_number b"
    and "rv_state_diffs s' = rv_state_diffs s @ [(block_number b, diff)]"
    and "rv_number_to_diff_index s' = (rv_number_to_diff_index s)(block_number b \<mapsto> of_nat (length (rv_state_diffs s)))"
    by (rule insert_and_receipts_fields)
  have storage: "ss_hash_to_total_difficulty storage = ss_hash_to_total_difficulty (rv_storage s)"
    using receipts by (auto simp: sparse_insert_receipts_def split: option.splits)
  have "ss_hash_to_total_difficulty storage (lb_hash b) = None \<and> b' = b
      \<and> ss_hash_to_total_difficulty (rv_storage s') = (ss_hash_to_total_difficulty storage)(lb_hash b \<mapsto> td)"
    using block by (rule sparse_insert_difficulty)
  then show "reservable_total_difficulty_by_hash s' h =
      (if h = lb_hash b then Some td else reservable_total_difficulty_by_hash s h)"
    "reservable_total_difficulty_by_hash s (lb_hash b) = None" "b' = b"
    by (simp_all add: storage reservable_total_difficulty_by_hash_def sparse_total_difficulty_by_hash_def)
  show "rv_last_block_number s' = block_number b" by (rule last)
qed

lemma next_block_number:
  fixes l b :: u64
  assumes "b = l + 1" and "unat l + 1 < 2 ^ 64"
  shows "unat b = unat l + 1"
  using assms by (simp add: unat_add_no_overflow)

lemma validate_next_block_number:
  "validate_next_block hardfork l b = Inr () \<Longrightarrow> block_number b = block_number l + 1"
  by (simp add: validate_next_block_def Let_def split: if_splits)

lemma broken_last_block:
  assumes "rv_ok env s" and "block_number b = rv_last_block_number s + 1" and "unat (rv_last_block_number s) + 1 < 2 ^ 64"
    and "insert_block_and_receipts s b diff td = (Inl e, lc_storage lc)"
  shows "last_local_block env lc = Panic"
proof -
  note E = insert_and_receipts_err [OF assms(4)]
  have chain: "chain_ok s" using assms(1) by (simp add: rv_ok_def)
  have "rv_last_block_number s < block_number b"
    using next_block_number [OF assms(2,3)] by (simp add: word_less_nat_alt)
  then have "chain_block env s (block_number b) = None" and "\<not> block_number b \<le> rv_last_block_number s"
    using chain_block_None_iff [OF chain] by auto
  then have "find_reservation (rv_reservations s) (block_number b) = None"
    using chain_okD(5) [OF chain, of "block_number b"] find_reservation_None [of "rv_reservations s" "block_number b"] by blast
  moreover from this \<open>chain_block env s (block_number b) = None\<close>
  have "sparse_block_by_number (rv_storage s) (block_number b) = None" by (simp add: chain_block_def)
  ultimately show ?thesis
    by (simp add: last_local_block_def lc_block_by_number_def reservable_block_by_number_def E
        try_fulfilling_reservation_def find_enum_no_reservation)
qed

lemma inserted_block_extends:
  assumes "reservable_reachable env s" and "hash_separates env" and "insert_block_and_receipts s b diff td = (Inr b', s')"
    and "block_number b = rv_last_block_number s + 1" and "unat (rv_last_block_number s) + 2 < 2 ^ 64"
    and "lb_hash b = he_header_hash env (lb_header b)"
  shows "reservable_reachable env s'"
    and "chain_block env s' = (chain_block env s)(rv_last_block_number s + 1 \<mapsto> b)"
proof -
  have n: "unat (block_number b) = unat (rv_last_block_number s) + 1"
    using next_block_number [OF assms(4)] assms(5) by simp
  then have "unat (block_number b) + 1 < 2 ^ 64" using assms(5) by simp
  then show "reservable_reachable env s'"
    by (intro reservable_reachable.step [OF assms(1) reservable_step.insert [OF assms(3) n _ assms(6)]])
  show "chain_block env s' = (chain_block env s)(rv_last_block_number s + 1 \<mapsto> b)"
    using insert_block_chain(2) [OF reservable_reachable_ok(1) [OF assms(1,2)] assms(3) n assms(6)] assms(4)
    by (simp add: fun_eq_iff)
qed

text \<open>A transaction or a receipt of the block is in the storage already.\<close>

definition known_transactions :: "('w, 'bp) reservable_storage \<Rightarrow> 'w local_block \<Rightarrow> bool" where
  "known_transactions s b \<longleftrightarrow>
     (\<exists>h \<in> set (tx_hashes b). reservable_block_by_transaction_hash s h \<noteq> None)
     \<or> (\<exists>r \<in> set (lb_transaction_receipts b). reservable_receipt_by_transaction_hash s (receipt_hash r) \<noteq> None)"

lemma insert_accepted_iff:
  assumes "rv_ok env s" and "hash_separates env" and "block_number b = rv_last_block_number s + 1"
    and "unat (rv_last_block_number s) + 1 < 2 ^ 64" and "lb_hash b = he_header_hash env (lb_header b)"
  shows "(\<exists>b' s'. insert_block_and_receipts s b diff td = (Inr b', s')) \<longleftrightarrow> \<not> known_transactions s b"
proof -
  have chain: "chain_ok s" and hashes: "hashes_ok env (rv_storage s)" using assms(1) by (simp_all add: rv_ok_def)
  have "\<not> block_number b \<le> rv_last_block_number s"
    using next_block_number [OF assms(3,4)] by (simp add: word_le_nat_alt)
  then have number: "sparse_block_by_number (rv_storage s) (block_number b) = None"
    using chain_okD(4) [OF chain, of "block_number b"] by (auto simp: stored_def)
  note fresh = sparse_hash_fresh [OF chain_okD(1) [OF chain] hashes assms(2,5) number]
  have "insert_block_and_receipts s b diff td = (Inr b', s') \<Longrightarrow> \<not> known_transactions s b" for b' s'
    by (auto simp: insert_block_and_receipts_def sparse_insert_receipts_def sparse_insert_block_def known_transactions_def
        reservable_block_by_transaction_hash_def sparse_block_by_transaction_hash_def Let_def
        reservable_receipt_by_transaction_hash_def sparse_receipt_by_transaction_hash_def find_None_iff
        split: option.splits if_splits)
  moreover have "\<exists>b' s'. insert_block_and_receipts s b diff td = (Inr b', s')" if k: "\<not> known_transactions s b"
  proof -
    have "find (\<lambda>r. ss_transaction_hash_to_receipt (rv_storage s) (receipt_hash r) \<noteq> None) (lb_transaction_receipts b) = None"
      "find (\<lambda>h. ss_transaction_hash_to_block (rv_storage s) h \<noteq> None) (tx_hashes b) = None"
      using k unfolding find_None_iff known_transactions_def reservable_block_by_transaction_hash_def
        sparse_block_by_transaction_hash_def reservable_receipt_by_transaction_hash_def
        sparse_receipt_by_transaction_hash_def by blast+
    with fresh number show ?thesis
      by (simp add: insert_block_and_receipts_def sparse_insert_receipts_def sparse_insert_block_def
          sparse_block_by_number_def Let_def)
  qed
  ultimately show ?thesis by blast
qed

lemma reserved_block_empty: "reserved_block env r n t slot = Return b \<Longrightarrow> lb_transactions b = []"
  by (auto simp: reserved_block_def local_block_empty_def Let_def)

lemma sparse_insert_no_transactions:
  assumes "lb_transactions b = []"
  shows "ss_transaction_hash_to_block (snd (sparse_insert_block storage b d)) = ss_transaction_hash_to_block storage"
    and "ss_transaction_hash_to_receipt (snd (sparse_insert_block storage b d)) = ss_transaction_hash_to_receipt storage"
  using assms by (auto simp: sparse_insert_block_def index_transactions_def tx_hashes_def)

lemma fulfil_keeps_transactions:
  assumes "try_fulfilling_reservation env s n = Return (r, s')"
  shows "ss_transaction_hash_to_block (rv_storage s') = ss_transaction_hash_to_block (rv_storage s)
    \<and> ss_transaction_hash_to_receipt (rv_storage s') = ss_transaction_hash_to_receipt (rv_storage s)"
  using assms
  by (auto simp: try_fulfilling_reservation_def Let_def split_beta sparse_insert_no_transactions reserved_block_empty
      simp del: calculate_timestamp_for_reserved_block.simps calculate_slot_number_for_reserved_block.simps
      split: option.splits)

lemma fetch_keeps_transactions:
  assumes "reservable_block_by_number env s n = Return (r, s')"
  shows "known_transactions s' b \<longleftrightarrow> known_transactions s b"
proof -
  have "ss_transaction_hash_to_block (rv_storage s') = ss_transaction_hash_to_block (rv_storage s)
      \<and> ss_transaction_hash_to_receipt (rv_storage s') = ss_transaction_hash_to_receipt (rv_storage s)"
    using assms fulfil_keeps_transactions [of env s n]
    by (auto simp: reservable_block_by_number_def)
  then show ?thesis
    by (simp add: known_transactions_def reservable_block_by_transaction_hash_def sparse_block_by_transaction_hash_def
        reservable_receipt_by_transaction_hash_def sparse_receipt_by_transaction_hash_def)
qed

text \<open>The diffs of the chain after a block was inserted.\<close>

lemma inserted_block_diffs:
  assumes "reservable_reachable env s" and "reservable_reachable env s'" and "hash_separates env"
    and "insert_block_and_receipts s b diff td = (Inr b', s')"
  shows "state_diffs_until_block s' (block_number b) = Return (Some (rv_state_diffs s @ [(block_number b, diff)]))"
proof -
  note ok = reservable_reachable_ok(2) [OF assms(2,3)]
  from assms(4) have s': "rv_state_diffs s' = rv_state_diffs s @ [(block_number b, diff)]"
    "rv_number_to_diff_index s' = (rv_number_to_diff_index s)(block_number b \<mapsto> of_nat (length (rv_state_diffs s)))"
    "rv_last_block_number s' = block_number b"
    by (rule insert_and_receipts_fields, simp)+
  have "filter (\<lambda>p. fst p \<le> block_number b) (rv_state_diffs s') = rv_state_diffs s'"
    using diffs_okD(3) [OF ok] by (simp add: s'(3))
  then show ?thesis
    unfolding state_diffs_until_block_ok [OF ok] by (simp add: diff_index_def s')
qed

text \<open>
  Inserting a block that is valid on the last block: it is refused exactly if one of its
  transactions or receipts is known.
\<close>

definition valid_insert ::
  "('w, 'bp, 'bx) header_env \<Rightarrow> ('w, 'bp) local_blockchain \<Rightarrow> 'w local_block \<Rightarrow> 'w local_block \<Rightarrow> state_diff
     \<Rightarrow> local_blockchain_error + 'w local_block \<times> u256 \<Rightarrow> ('w, 'bp) local_blockchain \<Rightarrow> bool" where
  "valid_insert env lc l b diff r lc' \<longleftrightarrow>
     (if known_transactions (lc_storage lc) b
      then (\<exists>e. r = Inl (BlockAndReceiptInsertion e)) \<and> last_local_block env lc' = Panic
      else
        \<exists>td td'. r = Inr (b, td) \<and> reservable_reachable env (lc_storage lc')
          \<and> chain_block env (lc_storage lc') = (chain_block env (lc_storage lc))(lc_last_block_number lc + 1 \<mapsto> b)
          \<and> lc_last_block_number lc' = lc_last_block_number lc + 1
          \<and> lc_total_difficulty_by_hash lc' (lb_hash l) = Some td' \<and> td = td' + bh_difficulty (lb_header b)
          \<and> lc_total_difficulty_by_hash lc' (lb_hash b) = Some td
          \<and> state_diffs_until_block (lc_storage lc') (lc_last_block_number lc + 1) =
              Return (Some (rv_state_diffs (lc_storage lc) @ [(lc_last_block_number lc + 1, diff)])))"

lemma insert_block_cases:
  assumes "reservable_reachable env (lc_storage lc)" and "hash_separates env"
    and "lb_hash b = he_header_hash env (lb_header b)" and "unat (lc_last_block_number lc) + 2 < 2 ^ 64"
  obtains (invalid) l e s' where "chain_block env (lc_storage lc) (lc_last_block_number lc) = Some l"
      "validate_next_block (lc_hardfork lc) l b = Inl e"
      "lc_insert_block env lc b diff = Return (Inl (InvalidNextBlock e), lc\<lparr>lc_storage := s'\<rparr>)"
      "reservable_reachable env s'" "chain_block env s' = chain_block env (lc_storage lc)"
      "rv_last_block_number s' = lc_last_block_number lc"
  | (valid) l r lc' where "chain_block env (lc_storage lc) (lc_last_block_number lc) = Some l"
      "validate_next_block (lc_hardfork lc) l b = Inr ()" "lc_insert_block env lc b diff = Return (r, lc')"
      "valid_insert env lc l b diff r lc'"
proof -
  let ?s = "lc_storage lc" and ?l = "rv_last_block_number (lc_storage lc)"
  from assms(1,2) obtain l s' td where last: "last_local_block env lc = Return (Inr l, lc\<lparr>lc_storage := s'\<rparr>)"
    and f: "reservable_block_by_number env ?s ?l = Return (Inr (Some l), s')"
    and l: "chain_block env ?s ?l = Some l" and s': "reservable_reachable env s'" "chain_block env s' = chain_block env ?s"
      "rv_last_block_number s' = ?l" and td: "reservable_total_difficulty_by_hash s' (lb_hash l) = Some td"
    by (rule last_local_block_ok)
  have l': "chain_block env ?s (lc_last_block_number lc) = Some l" using l by (simp add: lc_last_block_number_def)
  have diffs: "rv_state_diffs s' = rv_state_diffs ?s"
    by (rule block_by_number_diffs(1) [OF reservable_reachable_ok(1) [OF assms(1,2)] assms(2) f])
  have rv': "rv_ok env s'" using reservable_reachable_ok(1) [OF s'(1) assms(2)] .
  have ln: "block_number l = ?l"
    using chain_block_number [OF _ l] reservable_reachable_ok(1) [OF assms(1,2)] by (simp add: rv_ok_def)
  show thesis
  proof (cases "validate_next_block (lc_hardfork lc) l b")
    case (Inl e)
    then have "lc_insert_block env lc b diff = Return (Inl (InvalidNextBlock e), lc\<lparr>lc_storage := s'\<rparr>)"
      using last by (simp add: lc_insert_block_def)
    with l' Inl s' show thesis by (intro invalid [of l e s']) (simp_all add: lc_last_block_number_def)
  next
    case (Inr u)
    then have nb: "block_number b = ?l + 1" using validate_next_block_number [of "lc_hardfork lc" l b] ln by simp
    obtain r storage where ins: "insert_block_and_receipts s' b diff (td + bh_difficulty (lb_header b)) = (r, storage)"
      by (cases "insert_block_and_receipts s' b diff (td + bh_difficulty (lb_header b))")
    let ?r = "map_sum BlockAndReceiptInsertion (\<lambda>b'. (b', td + bh_difficulty (lb_header b))) r"
      and ?lc = "lc\<lparr>lc_storage := storage\<rparr>"
    have res: "lc_insert_block env lc b diff = Return (?r, ?lc)"
      using last Inr td ins by (simp add: lc_insert_block_def lc_total_difficulty_by_hash_def)
    have bound: "unat ?l + 1 < 2 ^ 64" "unat (block_number b) = unat ?l + 1"
      using assms(4) next_block_number [OF nb] by (simp_all add: lc_last_block_number_def)
    have accepted: "(\<exists>b'. r = Inr b') \<longleftrightarrow> \<not> known_transactions ?s b"
      using insert_accepted_iff [OF rv' assms(2) _ _ assms(3), of diff "td + bh_difficulty (lb_header b)"] ins nb bound s'(3)
        fetch_keeps_transactions [OF f, of b] by simp
    have "valid_insert env lc l b diff ?r ?lc"
    proof (cases r)
      case r: (Inl e)
      have "last_local_block env ?lc = Panic"
        by (rule broken_last_block [OF rv', of b diff "td + bh_difficulty (lb_header b)" e])
          (use nb bound ins r s'(3) in simp_all)
      with r accepted show ?thesis by (simp add: valid_insert_def)
    next
      case r: (Inr b')
      note ins = ins [unfolded r]
      note T = insert_total_difficulty [OF ins]
      have "lb_hash l \<noteq> lb_hash b" using T(2) td by auto
      moreover have reach: "reservable_reachable env storage"
        and "chain_block env storage = (chain_block env ?s)(lc_last_block_number lc + 1 \<mapsto> b)"
        using inserted_block_extends [OF s'(1) assms(2) ins _ _ assms(3)] nb s'(2,3) assms(4)
        by (simp_all add: lc_last_block_number_def)
      moreover note inserted_block_diffs [OF s'(1) reach assms(2) ins, unfolded diffs nb]
      ultimately show ?thesis
        using r accepted T td nb
        by (simp add: valid_insert_def lc_last_block_number_def lc_total_difficulty_by_hash_def)
    qed
    with l' Inr res show thesis by (intro valid [of l ?r ?lc]) simp_all
  qed
qed

text \<open>C12. Inserting a block into a well-formed chain never panics. A block that does not fit on the
  last block is refused with the reason and changes no block. A block that fits is accepted if none of
  its transactions and receipts is known: it becomes the last block of the chain, with the total
  difficulty of its parent plus its own difficulty, and its state diff is recorded after those of the
  blocks before it. If one of its transactions or receipts is known, it is refused, but the blockchain
  is left without a last block: asking for it panics.\<close>

theorem local_insert_block_spec:
  assumes "reservable_reachable env (lc_storage lc)" and "hash_separates env"
    and "lb_hash b = he_header_hash env (lb_header b)" and "unat (lc_last_block_number lc) + 2 < 2 ^ 64"
  shows "\<exists>l r lc'. chain_block env (lc_storage lc) (lc_last_block_number lc) = Some l
    \<and> lc_insert_block env lc b diff = Return (r, lc')
    \<and> (case validate_next_block (lc_hardfork lc) l b of
        Inl e \<Rightarrow>
          r = Inl (InvalidNextBlock e)
          \<and> reservable_reachable env (lc_storage lc')
          \<and> chain_block env (lc_storage lc') = chain_block env (lc_storage lc)
          \<and> lc_last_block_number lc' = lc_last_block_number lc
      | Inr _ \<Rightarrow>
          if known_transactions (lc_storage lc) b
          then (\<exists>e. r = Inl (BlockAndReceiptInsertion e)) \<and> last_local_block env lc' = Panic
          else
            \<exists>td td'. r = Inr (b, td) \<and> reservable_reachable env (lc_storage lc')
              \<and> chain_block env (lc_storage lc') = (chain_block env (lc_storage lc))(lc_last_block_number lc + 1 \<mapsto> b)
              \<and> lc_last_block_number lc' = lc_last_block_number lc + 1
              \<and> lc_total_difficulty_by_hash lc' (lb_hash l) = Some td' \<and> td = td' + bh_difficulty (lb_header b)
              \<and> lc_total_difficulty_by_hash lc' (lb_hash b) = Some td
              \<and> state_diffs_until_block (lc_storage lc') (lc_last_block_number lc + 1) =
                  Return (Some (rv_state_diffs (lc_storage lc) @ [(lc_last_block_number lc + 1, diff)])))"
proof (cases rule: insert_block_cases [OF assms, of diff])
  case (1 l e s')
  then show ?thesis
    by (intro exI [of _ l] exI [of _ "Inl (InvalidNextBlock e)"] exI [of _ "lc\<lparr>lc_storage := s'\<rparr>"])
      (simp add: lc_last_block_number_def)
next
  case (2 l r lc')
  then show ?thesis
    by (intro exI [of _ l] exI [of _ r] exI [of _ lc']) (simp add: valid_insert_def)
qed

section \<open>A sample blockchain\<close>

definition sample_blockchain :: "(unit, nat) local_blockchain" where
  "sample_blockchain = \<lparr>lc_chain_id = 1, lc_hardfork = London, lc_storage = sample_chain\<rparr>"

definition next_block :: "unit local_block" where
  "next_block = sample_block\<lparr>lb_header := sample_header\<lparr>bh_number := 11, bh_parent_hash := 10\<rparr>, lb_hash := 11\<rparr>"

lemma sample_blockchain_reachable: "reservable_reachable sample_env (lc_storage sample_blockchain)"
  by (simp add: sample_blockchain_def sample_chain_reachable)

lemma sample_blockchain_last: "lc_last_block_number sample_blockchain = 10"
  by (simp add: lc_last_block_number_def sample_blockchain_def sample_chain_fields)

lemma chain_block_hash:
  assumes "rv_ok env s" and "hash_separates env" and "chain_block env s n = Some b"
  shows "lb_hash b = he_header_hash env (lb_header b)"
proof -
  have chain: "chain_ok s" using assms(1) by (simp add: rv_ok_def)
  have "n \<le> rv_last_block_number s" using chain_block_None_iff [OF chain, of env n] assms(3) by auto
  with assms(1,2) obtain c s' where "reservable_block_by_number env s n = Return (Inr (Some c), s')"
    and c: "chain_block env s n = Some c" and "sparse_block_by_number (rv_storage s') n = Some c"
    and s': "rv_ok env s'" and "chain_block env s' = chain_block env s" by (rule fetched_block)
  then have "c \<in> sparse_blocks (rv_storage s')" using sparse_by_number_iff [OF chain_okD(1) [of s']] by (simp add: rv_ok_def)
  with s' c assms(3) show ?thesis by (auto simp: rv_ok_def hashes_ok_def)
qed

lemma insert_empty_block:
  assumes "rv_ok env s" and "hash_separates env" and "block_number b = rv_last_block_number s + 1"
    and "unat (rv_last_block_number s) + 1 < 2 ^ 64" and "lb_hash b = he_header_hash env (lb_header b)"
    and "lb_transactions b = []" and "lb_transaction_receipts b = []"
  shows "\<exists>s'. insert_block_and_receipts s b diff td = (Inr b, s')"
proof -
  have chain: "chain_ok s" and hashes: "hashes_ok env (rv_storage s)" using assms(1) by (simp_all add: rv_ok_def)
  have "\<not> block_number b \<le> rv_last_block_number s"
    using next_block_number [OF assms(3,4)] by (simp add: word_le_nat_alt)
  then have "sparse_block_by_number (rv_storage s) (block_number b) = None"
    using chain_okD(4) [OF chain, of "block_number b"] by (auto simp: stored_def)
  from sparse_insert_empty_block [OF chain_okD(1) [OF chain] hashes assms(2,5,6) this, of td] show ?thesis
    by (auto simp: insert_block_and_receipts_def sparse_insert_receipts_def assms(7) Let_def)
qed

lemma sample_validate:
  assumes "chain_block sample_env (lc_storage sample_blockchain) (lc_last_block_number sample_blockchain) = Some l"
  shows "validate_next_block (lc_hardfork sample_blockchain) l genesis_block = Inl (InvalidBlockNumber 0 11)"
    and "validate_next_block (lc_hardfork sample_blockchain) l next_block = Inr ()"
proof -
  have l: "chain_block sample_env sample_chain 10 = Some l"
    using assms by (simp add: sample_blockchain_last) (simp add: sample_blockchain_def)
  have number: "block_number l = 10" using chain_block_number [OF _ l] sample_chain_ok by (simp add: rv_ok_def)
  then show "validate_next_block (lc_hardfork sample_blockchain) l genesis_block = Inl (InvalidBlockNumber 0 11)"
    by (simp add: validate_next_block_def genesis_block_def)
  have "lb_hash l = 10"
    using chain_block_hash [OF sample_chain_ok sample_env_separates l] number by (simp add: sample_env_def)
  with number show "validate_next_block (lc_hardfork sample_blockchain) l next_block = Inr ()"
    by (simp add: validate_next_block_def next_block_def sample_blockchain_def spec_le_simps)
qed

theorem local_insert_block_spec_witness:
  "(\<exists>lc'. lc_insert_block sample_env sample_blockchain genesis_block [] =
       Return (Inl (InvalidNextBlock (InvalidBlockNumber 0 11)), lc')
     \<and> lc_last_block_number lc' = 10)
   \<and> (\<exists>td lc'. lc_insert_block sample_env sample_blockchain next_block [] = Return (Inr (next_block, td), lc')
     \<and> lc_last_block_number lc' = 11 \<and> chain_block sample_env (lc_storage lc') 11 = Some next_block)"
proof -
  have h: "lb_hash genesis_block = he_header_hash sample_env (lb_header genesis_block)"
    "lb_hash next_block = he_header_hash sample_env (lb_header next_block)"
    and bound: "unat (lc_last_block_number sample_blockchain) + 2 < 2 ^ 64"
    by (simp_all add: genesis_block_def next_block_def sample_env_def sample_blockchain_last)
  have "\<not> known_transactions (lc_storage sample_blockchain) next_block"
    by (simp add: known_transactions_def next_block_def sample_block_def tx_hashes_def)
  with local_insert_block_spec [OF sample_blockchain_reachable sample_env_separates h(1) bound, of "[]"]
    local_insert_block_spec [OF sample_blockchain_reachable sample_env_separates h(2) bound, of "[]"]
  show ?thesis by (auto simp: sample_validate sample_blockchain_last)
qed

section \<open>States of blocks\<close>

lemma state_reachable_commits: "state_reachable senv st \<Longrightarrow> state_reachable senv (foldl (\<lambda>st (_, d). state_commit senv st d) st m)"
  by (induction m arbitrary: st) (auto intro: state_reachable.step state_step.commit)

text \<open>C11. The storage of the chain has come about by inserting, reserving, reverting and asking for blocks
  (\<open>reservable_history\<close>). There is no state beyond the end of the chain. The state at a block of the chain is the empty
  state with the diffs of the inserted blocks up to it committed in ascending order, each merged with
  the override of its block; an override without a diff counts as one. The state is well-formed.
  The exception are the reserved blocks that were asked for and built since: their state is computed from
  the overrides alone (which is a bug).\<close>

theorem state_at_block_number_spec:
  assumes "reservable_history env (lc_storage lc) ds built" and "hash_separates env" and "btree_ok overrides"
  shows "if lc_last_block_number lc < n then state_at_block_number senv lc n overrides = Return (Inl UnknownBlockNumber)
    else \<exists>m st. state_at_block_number senv lc n overrides = Return (Inr st)
      \<and> st = foldl (\<lambda>st (_, d). state_commit senv st d) (state_default senv) m
      \<and> sorted_wrt (<) (map fst m)
      \<and> (\<forall>k. map_of m k = (if n < k then None else merged_diff (if n \<in> built then None else map_of ds k) (map_of overrides k)))
      \<and> tries_ok senv (sx_tries st)"
proof (cases "lc_last_block_number lc < n")
  case False
  note reach = history_reachable [OF assms(1)] and H = reservable_history_ok [OF assms(1,2)]
  from reservable_reachable_ok(2) [OF reach assms(2)] assms(3) word_zero_le [of n] obtain m where
    m: "compute_state_at_block (state_commit senv) (state_default senv) (lc_storage lc) 0 n overrides =
      Return (foldl (\<lambda>st (_, d). state_commit senv st d) (state_default senv) m)" "btree_ok m"
      "\<And>k. map_of m k = effective_diffs (lc_storage lc) 0 n overrides k"
    by (rule compute_state_spec [where commit = "state_commit senv" and st = "state_default senv"]) auto
  have idx: "diff_index (lc_storage lc) n = None \<longleftrightarrow> n \<in> built"
    using history_okD(2) [OF H, of n] False by (simp add: lc_last_block_number_def)
  have "map_of m k = (if n < k then None else merged_diff (if n \<in> built then None else map_of ds k) (map_of overrides k))" for k
    unfolding m(3) effective_diffs_def idx history_okD(1) [OF H] by (auto simp: merged_diff_def not_le)
  moreover have "tries_ok senv (sx_tries (foldl (\<lambda>st (_, d). state_commit senv st d) (state_default senv) m))"
    by (intro state_reachable_tries_ok state_reachable_commits state_reachable.default)
  ultimately show ?thesis using False m(1,2) by (auto simp: state_at_block_number_def btree_ok_def)
qed (simp add: state_at_block_number_def)

theorem state_at_block_number_spec_witness:
  "state_at_block_number sample_state_env sample_blockchain 11 [] = Return (Inl UnknownBlockNumber)
   \<and> (\<exists>m st. state_at_block_number sample_state_env sample_blockchain 4 [] = Return (Inr st)
        \<and> st = foldl (\<lambda>st (_, d). state_commit sample_state_env st d) (state_default sample_state_env) m
        \<and> map_of m 0 = Some [] \<and> map_of m (4 :: u64) = None)"
proof -
  have h: "reservable_history sample_env (lc_storage sample_blockchain) [(0, [])] {}"
    using sample_chain_history by (simp add: sample_blockchain_def)
  from state_at_block_number_spec [OF h sample_env_separates, of "[]" 11 sample_state_env]
    state_at_block_number_spec [OF h sample_env_separates, of "[]" 4 sample_state_env]
  show ?thesis by (auto simp: sample_blockchain_last btree_ok_def merged_diff_def)
qed

lemma state_at_block_cong:
  assumes "diffs_ok (lc_storage lc)" and "diffs_ok (lc_storage lc')" and "btree_ok overrides"
    and "n \<le> lc_last_block_number lc" and "n' \<le> lc_last_block_number lc'"
    and "effective_diffs (lc_storage lc') 0 n' overrides = effective_diffs (lc_storage lc) 0 n overrides"
  shows "state_at_block_number senv lc' n' overrides = state_at_block_number senv lc n overrides"
proof -
  let ?c = "\<lambda>lc n. compute_state_at_block (state_commit senv) (state_default senv) (lc_storage lc) 0 n overrides"
  from assms(1,3) word_zero_le [of n] obtain m where
    m: "?c lc n = Return (foldl (\<lambda>st (_, d). state_commit senv st d) (state_default senv) m)" "btree_ok m"
      "\<And>k. map_of m k = effective_diffs (lc_storage lc) 0 n overrides k"
    by (rule compute_state_spec [where commit = "state_commit senv" and st = "state_default senv"]) auto
  from assms(2,3) word_zero_le [of n'] obtain m' where
    m': "?c lc' n' = Return (foldl (\<lambda>st (_, d). state_commit senv st d) (state_default senv) m')" "btree_ok m'"
      "\<And>k. map_of m' k = effective_diffs (lc_storage lc') 0 n' overrides k"
    by (rule compute_state_spec [where commit = "state_commit senv" and st = "state_default senv"]) auto
  have "map_of m' = map_of m" using m(3) m'(3) assms(6) by (simp add: fun_eq_iff)
  then have "m' = m" by (rule btree_ok_inject [OF m'(2) m(2)])
  with m(1) m'(1) assms(4,5) show ?thesis by (simp add: state_at_block_number_def not_less)
qed

text \<open>Reserving blocks keeps the state: every block that is reserved has the state of the block
  that was the last one before, as long as no override is given for it.\<close>

theorem reserved_blocks_keep_state:
  assumes "reservable_reachable env (lc_storage lc)" and "hash_separates env" and "btree_ok overrides"
    and "diff_index (lc_storage lc) (lc_last_block_number lc) \<noteq> None"
    and "additional \<noteq> 0" and "unat (lc_last_block_number lc) + unat additional + 1 < 2 ^ 64"
    and "lc_last_block_number lc < n" and "n \<le> lc_last_block_number lc + additional"
    and "\<forall>k. lc_last_block_number lc < k \<longrightarrow> map_of overrides k = None"
  shows "\<exists>lc'. lc_reserve_blocks env lc config additional interval = Return (Inr (), lc')
    \<and> state_at_block_number senv lc' n overrides = state_at_block_number senv lc (lc_last_block_number lc) overrides"
proof -
  let ?s = "lc_storage lc" and ?l = "rv_last_block_number (lc_storage lc)"
  from assms(1,2) obtain l s' td where last: "last_local_block env lc = Return (Inr l, lc\<lparr>lc_storage := s'\<rparr>)"
    and f: "reservable_block_by_number env ?s ?l = Return (Inr (Some l), s')"
    and "chain_block env ?s ?l = Some l" and s': "reservable_reachable env s'" "chain_block env s' = chain_block env ?s"
      "rv_last_block_number s' = ?l" and td: "reservable_total_difficulty_by_hash s' (lb_hash l) = Some td"
    by (rule last_local_block_ok)
  note ok = reservable_reachable_ok [OF assms(1,2)]
  define s2 where "s2 = reserve_blocks s' additional interval (bh_base_fee_per_gas (lb_header l))
    (bh_state_root (lb_header l)) td config"
  have res: "lc_reserve_blocks env lc config additional interval = Return (Inr (), lc\<lparr>lc_storage := s2\<rparr>)"
    using last td assms(5) by (simp add: lc_reserve_blocks_def lc_total_difficulty_by_hash_def s2_def Let_def)
  have "reservable_reachable env s2"
    using assms(5,6) s'(3) unfolding s2_def
    by (intro reservable_reachable.step [OF s'(1) reservable_step.reserve]) (simp_all add: lc_last_block_number_def)
  note ok2 = reservable_reachable_ok(2) [OF this assms(2)]
  have ds: "rv_state_diffs s2 = rv_state_diffs ?s"
    using block_by_number_diffs(1) [OF ok(1) assms(2) f] by (simp add: s2_def reserve_blocks_def)
  have "?l + 1 \<le> n" using assms(7) by (simp add: lc_last_block_number_def u64_succ_le)
  then have "find_reservation (rv_reservations s2) n \<noteq> None"
    using assms(8) s'(3)
    by (simp add: s2_def reserve_blocks_def find_reservation_append find_reservation_single covers_def
        lc_last_block_number_def split: option.split)
  then have idx: "diff_index s2 n \<noteq> None" by (auto simp: diff_index_def split: option.split)
  have "effective_diffs s2 0 n overrides k = effective_diffs ?s 0 (lc_last_block_number lc) overrides k" for k
  proof (cases "k \<le> ?l")
    case True
    then have "k \<le> n" using assms(7) by (simp add: lc_last_block_number_def)
    with True idx assms(4) show ?thesis by (simp add: effective_diffs_def ds lc_last_block_number_def)
  next
    case False
    then have "map_of (rv_state_diffs ?s) k = None"
      using diffs_okD(3) [OF ok(2)] by (force simp: map_of_eq_None_iff)
    moreover have "map_of overrides k = None" using assms(9) False by (simp add: lc_last_block_number_def not_le)
    ultimately show ?thesis by (simp add: effective_diffs_def ds)
  qed
  then have "state_at_block_number senv (lc\<lparr>lc_storage := s2\<rparr>) n overrides =
      state_at_block_number senv lc (lc_last_block_number lc) overrides"
    using assms(8) ok(2) ok2 assms(3) s'(3)
    by (intro state_at_block_cong) (simp_all add: lc_last_block_number_def s2_def reserve_blocks_def fun_eq_iff)
  with res show ?thesis by blast
qed

lemma sample_last_reserved:
  "\<exists>r. find_reservation (rv_reservations sample_chain) 10 = Some r" "rv_number_to_diff_index sample_chain 10 = None"
  by (simp_all add: sample_chain_def reserve_blocks_def with_genesis_block_def find_reservation_single covers_def)

theorem reserved_blocks_keep_state_witness:
  "\<exists>lc'. lc_reserve_blocks sample_env sample_blockchain (sample_config London) 5 1 = Return (Inr (), lc')
     \<and> state_at_block_number sample_state_env lc' 12 [] = state_at_block_number sample_state_env sample_blockchain 10 []"
proof -
  have "diff_index (lc_storage sample_blockchain) (lc_last_block_number sample_blockchain) \<noteq> None"
    using sample_last_reserved by (auto simp: sample_blockchain_last diff_index_def) (simp add: sample_blockchain_def)
  from reserved_blocks_keep_state [OF sample_blockchain_reachable sample_env_separates _ this,
      of "[]" 5 12 "sample_config London" 1 sample_state_env]
  show ?thesis by (simp add: sample_blockchain_last btree_ok_def)
qed

text \<open>C36. Mining a block on top of reserved blocks loses the state of the last reserved block: the
  state that is computed for that block from then on is the empty state.\<close>

theorem mining_on_reserved_block_loses_its_state:
  assumes "reservable_reachable env (lc_storage lc)" and "hash_separates env"
    and "find_reservation (rv_reservations (lc_storage lc)) (lc_last_block_number lc) = Some r"
    and "rv_number_to_diff_index (lc_storage lc) (lc_last_block_number lc) = None"
    and "lc_insert_block env lc b diff = Return (Inr x, lc')" and "unat (lc_last_block_number lc) + 1 < 2 ^ 64"
  shows "state_at_block_number senv lc' (lc_last_block_number lc) [] = Return (Inr (state_default senv))"
proof -
  let ?s = "lc_storage lc" and ?l = "rv_last_block_number (lc_storage lc)"
  from assms(1,2) obtain l s' td where last: "last_local_block env lc = Return (Inr l, lc\<lparr>lc_storage := s'\<rparr>)"
    and f: "reservable_block_by_number env ?s ?l = Return (Inr (Some l), s')"
    and l: "chain_block env ?s ?l = Some l" and s': "reservable_reachable env s'" "chain_block env s' = chain_block env ?s"
      "rv_last_block_number s' = ?l" and td: "reservable_total_difficulty_by_hash s' (lb_hash l) = Some td"
    by (rule last_local_block_ok)
  have ok: "rv_ok env ?s" by (rule reservable_reachable_ok(1) [OF assms(1,2)])
  have ln: "block_number l = ?l" using chain_block_number [OF _ l] ok by (simp add: rv_ok_def)
  have idx: "diff_index s' ?l = None"
    using block_by_number_diffs(5) [OF ok assms(2) f, of ?l] assms(4) by (simp add: lc_last_block_number_def)
  have v: "validate_next_block (lc_hardfork lc) l b = Inr ()"
    using assms(5) last by (cases "validate_next_block (lc_hardfork lc) l b") (simp_all add: lc_insert_block_def)
  then have nb: "block_number b = ?l + 1" using validate_next_block_number [of "lc_hardfork lc" l b] ln by simp
  obtain b' where ins: "insert_block_and_receipts s' b diff (td + bh_difficulty (lb_header b)) = (Inr b', lc_storage lc')"
    using assms(5) last v td
    by (cases "insert_block_and_receipts s' b diff (td + bh_difficulty (lb_header b))"; cases "fst
        (insert_block_and_receipts s' b diff (td + bh_difficulty (lb_header b)))")
      (auto simp: lc_insert_block_def lc_total_difficulty_by_hash_def)
  from ins obtain storage where
    "sparse_insert_receipts (rv_storage s') (lb_transaction_receipts b) = (Inr (), storage)"
    "sparse_insert_block storage b (td + bh_difficulty (lb_header b)) = (Inr b', rv_storage (lc_storage lc'))"
    and fields: "rv_reservations (lc_storage lc') = rv_reservations s'"
      "rv_last_block_number (lc_storage lc') = block_number b"
      "rv_state_diffs (lc_storage lc') = rv_state_diffs s' @ [(block_number b, diff)]"
      "rv_number_to_diff_index (lc_storage lc') =
        (rv_number_to_diff_index s')(block_number b \<mapsto> of_nat (length (rv_state_diffs s')))"
    by (rule insert_and_receipts_fields)
  have above: "?l < block_number b" using next_block_number [OF nb] assms(6)
    by (simp add: word_less_nat_alt lc_last_block_number_def)
  then have "diff_index (lc_storage lc') ?l = None"
    using idx by (auto simp: diff_index_def fields split: option.splits)
  then have "state_diffs_until_block (lc_storage lc') ?l = Return None" by (simp add: state_diffs_until_block_def)
  with above show ?thesis
    by (simp add: state_at_block_number_def lc_last_block_number_def fields compute_state_at_block_def btree_range_def
        btree_collect_def)
qed

theorem mining_on_reserved_block_loses_its_state_witness:
  "\<exists>x lc'. lc_insert_block sample_env sample_blockchain next_block [] = Return (Inr x, lc')
     \<and> state_at_block_number sample_state_env lc' 10 [] = Return (Inr (state_default sample_state_env))"
proof -
  let ?s = "lc_storage sample_blockchain"
  from sample_blockchain_reachable sample_env_separates obtain l s' td where
    last: "last_local_block sample_env sample_blockchain = Return (Inr l, sample_blockchain\<lparr>lc_storage := s'\<rparr>)"
    and "reservable_block_by_number sample_env ?s (rv_last_block_number ?s) = Return (Inr (Some l), s')"
    and l: "chain_block sample_env ?s (rv_last_block_number ?s) = Some l"
    and s': "reservable_reachable sample_env s'" "chain_block sample_env s' = chain_block sample_env ?s"
      "rv_last_block_number s' = rv_last_block_number ?s"
    and td: "reservable_total_difficulty_by_hash s' (lb_hash l) = Some td"
    by (rule last_local_block_ok)
  have v: "validate_next_block (lc_hardfork sample_blockchain) l next_block = Inr ()"
    using sample_validate(2) l by (simp add: lc_last_block_number_def)
  have ten: "rv_last_block_number s' = 10" using s'(3) sample_blockchain_last by (simp add: lc_last_block_number_def)
  obtain s2 where "insert_block_and_receipts s' next_block [] (td + bh_difficulty (lb_header next_block)) = (Inr next_block, s2)"
    using insert_empty_block [OF reservable_reachable_ok(1) [OF s'(1) sample_env_separates] sample_env_separates,
        of next_block "[]" "td + bh_difficulty (lb_header next_block)"] ten
    by (auto simp: next_block_def sample_env_def sample_block_def)
  then have "lc_insert_block sample_env sample_blockchain next_block [] =
      Return (Inr (next_block, td + bh_difficulty (lb_header next_block)), sample_blockchain\<lparr>lc_storage := s2\<rparr>)"
    using last v td by (simp add: lc_insert_block_def lc_total_difficulty_by_hash_def)
  moreover obtain r where "find_reservation (rv_reservations ?s) (lc_last_block_number sample_blockchain) = Some r"
    and "rv_number_to_diff_index ?s (lc_last_block_number sample_blockchain) = None"
    using sample_last_reserved by (auto simp: sample_blockchain_last) (auto simp: sample_blockchain_def)
  ultimately show ?thesis
    using mining_on_reserved_block_loses_its_state [OF sample_blockchain_reachable sample_env_separates]
    by (auto simp: sample_blockchain_last)
qed

end
