(* ===== verification/State_Merge.thy ===== *)
theory State_Merge
  imports State_Trie_Facts
begin

text \<open>
  One block, two ways to its state: the block builder commits the changes of one transaction after
  the other (\<open>add_transaction_result\<close> in \<^verbatim>\<open>crates/edr_chain_l1/src/block.rs\<close>), while the
  blockchain later commits the merged diff of the whole block (\<open>StateDiff::apply_diff\<close>). Both give
  the same state, unless a later transaction makes an account again that an earlier one destroyed.
\<close>

section \<open>The changes that the EVM makes to an account\<close>

text \<open>An account without code that has not sent anything: a transaction may create a contract there.\<close>

definition plain_info :: "account_info \<Rightarrow> bool" where
  "plain_info info \<longleftrightarrow> ai_nonce info = 0 \<and> (ai_code_hash info = KECCAK_EMPTY \<or> ai_code_hash info = 0)"

definition plain_account :: "account_info option \<Rightarrow> bool" where
  "plain_account basic \<longleftrightarrow> (case basic of None \<Rightarrow> True | Some info \<Rightarrow> plain_info info)"

text \<open>The slots in a change have the values that the state has.\<close>

definition slots_loaded :: "(u256 \<Rightarrow> u256) \<Rightarrow> account \<Rightarrow> bool" where
  "slots_loaded slots a \<longleftrightarrow> (\<forall>i slot. map_of (ac_storage a) i = Some slot \<longrightarrow> sl_present_value slot = slots i)"

text \<open>
  What a transaction does to an account with the given info and slots, from Spurious Dragon on:
  \<^item> an account that it does not touch is reported as it was loaded, an absent one as an empty one;
  \<^item> a contract is created only where there is no code and no nonce (EIP-684), and has a nonce of its
    own (EIP-161), unless it is destroyed in the same transaction;
  \<^item> an account that is left without code and nonce had none before, so that no code wrote to its slots.
\<close>

definition journal_law :: "state_env \<Rightarrow> account_info option \<Rightarrow> (u256 \<Rightarrow> u256) \<Rightarrow> account \<Rightarrow> bool" where
  "journal_law env basic slots c \<longleftrightarrow>
     (Touched \<notin> ac_status c \<longrightarrow>
        Created \<notin> ac_status c \<and> SelfDestructed \<notin> ac_status c \<and> slots_loaded slots c
        \<and> (case basic of None \<Rightarrow> se_is_empty env (ac_info c) | Some info \<Rightarrow> (ac_info c)\<lparr>ai_code := None\<rparr> = info))
     \<and> (Created \<in> ac_status c \<longrightarrow>
          plain_account basic \<and> (SelfDestructed \<in> ac_status c \<or> ai_nonce (ac_info c) \<noteq> 0))
     \<and> (Touched \<in> ac_status c \<longrightarrow> Created \<notin> ac_status c \<longrightarrow> SelfDestructed \<notin> ac_status c \<longrightarrow>
          plain_info (ac_info c) \<longrightarrow> plain_account basic \<and> slots_loaded slots c)"

text \<open>\<^verbatim>\<open>AccountInfo::is_empty\<close>: no nonce and no code hash; the code itself does not matter.\<close>

definition is_empty_law :: "state_env \<Rightarrow> bool" where
  "is_empty_law env \<longleftrightarrow>
     (\<forall>info. se_is_empty env info \<longrightarrow> plain_info info)
     \<and> (\<forall>info code. se_is_empty env (info\<lparr>ai_code := code\<rparr>) = se_is_empty env info)"

text \<open>An account without code and nonce has no storage (EIP-7610).\<close>

definition storage_law :: "account_info option \<Rightarrow> (u256 \<Rightarrow> u256) \<Rightarrow> bool" where
  "storage_law basic slots \<longleftrightarrow> (plain_account basic \<longrightarrow> slots = (\<lambda>_. 0))"

section \<open>Merging the changes of an account\<close>

lemma merged_account:
  assumes "diff_ok d" and "diff_ok e"
  shows "map_of (apply_diff d e) addr = None \<longleftrightarrow> map_of d addr = None \<and> map_of e addr = None"
    and "map_of d addr = Some a \<Longrightarrow> map_of e addr = Some b \<Longrightarrow>
      \<exists>m. map_of (apply_diff d e) addr = Some m \<and> ac_info m = ac_info b
        \<and> map_of (ac_storage m) = map_of (ac_storage a) ++ map_of (ac_storage b)
        \<and> ac_status m = ac_status a \<union> ac_status b"
    and "map_of d addr = Some a \<Longrightarrow> map_of e addr = None \<Longrightarrow>
      \<exists>m. map_of (apply_diff d e) addr = Some m \<and> account_abs m = account_abs a"
    and "map_of d addr = None \<Longrightarrow> map_of e addr = Some b \<Longrightarrow>
      \<exists>m. map_of (apply_diff d e) addr = Some m \<and> account_abs m = account_abs b"
  using diff_abs_apply_diff [OF assms, of addr]
  by (cases "map_of (apply_diff d e) addr"; cases "map_of d addr"; cases "map_of e addr";
      simp add: diff_abs_def account_abs_def)+

lemma committed_cong:
  assumes "account_abs a = account_abs b"
  shows "committed_info env a = committed_info env b" and "committed_slot env a i old = committed_slot env b i old"
    and "ac_status a = ac_status b"
  using assms by (simp_all add: account_abs_def committed_info_def committed_slot_def)

text \<open>An account after a change was committed.\<close>

definition committed_account ::
  "state_env \<Rightarrow> account \<Rightarrow> account_info option \<times> (u256 \<Rightarrow> u256) \<Rightarrow> account_info option \<times> (u256 \<Rightarrow> u256)" where
  "committed_account env c v =
     (if Touched \<in> ac_status c then (committed_info env c, \<lambda>i. committed_slot env c i (snd v i)) else v)"

text \<open>The merged changes of a block to an account with the given slots before the block.\<close>

definition merged_law :: "(u256 \<Rightarrow> u256) \<Rightarrow> account \<Rightarrow> bool" where
  "merged_law slots a \<longleftrightarrow>
     (Touched \<notin> ac_status a \<longrightarrow> Created \<notin> ac_status a \<and> SelfDestructed \<notin> ac_status a \<and> slots_loaded slots a)
     \<and> (Touched \<in> ac_status a \<longrightarrow> Created \<in> ac_status a \<longrightarrow> SelfDestructed \<notin> ac_status a \<longrightarrow> \<not> plain_info (ac_info a))
     \<and> (Touched \<in> ac_status a \<longrightarrow> Created \<notin> ac_status a \<longrightarrow> SelfDestructed \<notin> ac_status a \<longrightarrow> plain_info (ac_info a) \<longrightarrow>
          slots = (\<lambda>_. 0) \<and> slots_loaded slots a)"

lemma plain_info_code [simp]: "plain_info (info\<lparr>ai_code := code\<rparr>) = plain_info info"
  by (simp add: plain_info_def)

lemma plain_account_committed:
  assumes "is_empty_law env"
  shows "plain_account (committed_info env a) \<longleftrightarrow>
    SelfDestructed \<in> ac_status a \<or> plain_info (ac_info a)"
  using assms by (auto simp: plain_account_def committed_info_def is_empty_law_def)

lemma storage_law_committed:
  assumes "is_empty_law env" and "journal_law env basic slots c" and "storage_law basic slots"
  shows "storage_law (fst (committed_account env c (basic, slots))) (snd (committed_account env c (basic, slots)))"
  using assms plain_account_committed [OF assms(1), of c]
  by (auto simp: storage_law_def committed_account_def journal_law_def committed_slot_def committed_info_def slots_loaded_def
      plain_info_def fun_eq_iff split: option.splits if_splits)

lemma merged_law_first:
  assumes "journal_law env basic slots c" and "storage_law basic slots"
  shows "merged_law slots c"
  using assms by (auto simp: merged_law_def journal_law_def storage_law_def plain_info_def)

text \<open>
  The changes \<open>a\<close> of the transactions before, the change \<open>c\<close> of the next one, and what merging them
  gives. An account that was destroyed is not made again.
\<close>

definition merges ::
  "state_env \<Rightarrow> account_info option \<times> (u256 \<Rightarrow> u256) \<Rightarrow> account \<Rightarrow> account \<Rightarrow> account \<Rightarrow> bool" where
  "merges env v a c m \<longleftrightarrow>
     is_empty_law env \<and> merged_law (snd v) a
     \<and> storage_law (fst (committed_account env a v)) (snd (committed_account env a v))
     \<and> journal_law env (fst (committed_account env a v)) (snd (committed_account env a v)) c
     \<and> (SelfDestructed \<in> ac_status a \<longrightarrow> Touched \<in> ac_status c \<longrightarrow> committed_info env c = None)
     \<and> ac_info m = ac_info c \<and> ac_status m = ac_status a \<union> ac_status c
     \<and> map_of (ac_storage m) = map_of (ac_storage a) ++ map_of (ac_storage c)"

lemma mergesD:
  assumes "merges env v a c m"
  shows "is_empty_law env" and "merged_law (snd v) a"
    and "storage_law (fst (committed_account env a v)) (snd (committed_account env a v))"
    and "journal_law env (fst (committed_account env a v)) (snd (committed_account env a v)) c"
    and "SelfDestructed \<in> ac_status a \<Longrightarrow> Touched \<in> ac_status c \<Longrightarrow> committed_info env c = None"
    and "ac_info m = ac_info c" and "ac_status m = ac_status a \<union> ac_status c"
    and "map_of (ac_storage m) = map_of (ac_storage a) ++ map_of (ac_storage c)"
  using assms by (simp_all add: merges_def)

lemma empty_plain: "is_empty_law env \<Longrightarrow> se_is_empty env info \<Longrightarrow> plain_info info"
  by (simp add: is_empty_law_def)

lemma same_basic:
  assumes "is_empty_law env" and "info\<lparr>ai_code := None\<rparr> = info'\<lparr>ai_code := None\<rparr>"
  shows "se_is_empty env info = se_is_empty env info'" and "plain_info info = plain_info info'"
  using assms by (metis is_empty_law_def, metis plain_info_code)

text \<open>The account was only loaded before.\<close>

lemma merge_after_loading:
  assumes m: "merges env v a c m" and "Touched \<notin> ac_status a"
  shows "committed_account env m v = committed_account env c (committed_account env a v) \<and> merged_law (snd v) m"
proof -
  note M = mergesD(6-8) [OF m]
  have a: "Created \<notin> ac_status a" "SelfDestructed \<notin> ac_status a" "slots_loaded (snd v) a"
    using mergesD(2) [OF m] assms(2) by (simp_all add: merged_law_def)
  have j: "journal_law env (fst v) (snd v) c" and st: "storage_law (fst v) (snd v)"
    using mergesD(3,4) [OF m] assms(2) by (simp_all add: committed_account_def)
  have "committed_info env m = committed_info env c" using a by (simp add: committed_info_def M)
  moreover have "committed_slot env m i (snd v i) = committed_slot env c i (snd v i)" for i
    using a j st calculation
    by (auto simp: committed_slot_def M slots_loaded_def journal_law_def storage_law_def map_add_def split: option.split)
  ultimately have "committed_account env m v = committed_account env c (committed_account env a v)"
    using assms by (simp add: committed_account_def M)
  moreover have "merged_law (snd v) m"
    using merged_law_first [OF j st] a assms(2)
    by (auto simp: merged_law_def M slots_loaded_def map_add_def split: option.splits)
  ultimately show ?thesis ..
qed

text \<open>The next transaction only loads the account.\<close>

lemma merge_loading:
  assumes m: "merges env v a c m" and "Touched \<in> ac_status a" "Touched \<notin> ac_status c"
  shows "committed_account env m v = committed_account env c (committed_account env a v) \<and> merged_law (snd v) m"
proof -
  note M = mergesD(6-8) [OF m]
  have c: "Created \<notin> ac_status c" "SelfDestructed \<notin> ac_status c"
    "\<And>i slot. map_of (ac_storage c) i = Some slot \<Longrightarrow> sl_present_value slot = committed_slot env a i (snd v i)"
    and info: "case committed_info env a of None \<Rightarrow> se_is_empty env (ac_info c) | Some info \<Rightarrow> (ac_info c)\<lparr>ai_code := None\<rparr> = info"
    using mergesD(4) [OF m] assms(2,3) by (simp_all add: journal_law_def committed_account_def slots_loaded_def)
  have plain: "plain_info (ac_info c) = plain_info (ac_info a)" if "SelfDestructed \<notin> ac_status a"
    using info that same_basic(2) [OF mergesD(1) [OF m], of "ac_info c" "ac_info a"] empty_plain [OF mergesD(1) [OF m]]
    by (auto simp: committed_info_def split: if_splits)
  have i: "committed_info env m = committed_info env a"
    using info c same_basic(1) [OF mergesD(1) [OF m], of "ac_info c" "ac_info a"]
    by (auto simp: committed_info_def M split: if_splits)
  moreover have "committed_slot env m i (snd v i) = committed_slot env a i (snd v i)" for i
    using i c by (cases "map_of (ac_storage c) i") (auto simp: committed_slot_def M map_add_def split: if_splits)
  ultimately have "committed_account env m v = committed_account env c (committed_account env a v)"
    using assms by (simp add: committed_account_def M)
  moreover have "merged_law (snd v) m"
    using mergesD(2) [OF m] c(1,2) assms(2) plain c(3)
    by (auto simp: merged_law_def M slots_loaded_def map_add_def committed_slot_def split: option.splits if_splits)
  ultimately show ?thesis ..
qed

text \<open>Both change the account.\<close>

lemma merge_changing:
  assumes m: "merges env v a c m" and "Touched \<in> ac_status a" "Touched \<in> ac_status c"
  shows "committed_account env m v = committed_account env c (committed_account env a v) \<and> merged_law (snd v) m"
proof -
  note M = mergesD(6-8) [OF m] and E = empty_plain [OF mergesD(1) [OF m]]
  let ?basic = "committed_info env a" and ?slots = "\<lambda>i. committed_slot env a i (snd v i)"
  have st: "plain_account ?basic \<Longrightarrow> ?slots = (\<lambda>_. 0)" and j: "journal_law env ?basic ?slots c"
    using mergesD(3,4) [OF m] assms(2) by (simp_all add: committed_account_def storage_law_def)
  have pa: "plain_account ?basic \<longleftrightarrow> SelfDestructed \<in> ac_status a \<or> plain_info (ac_info a)"
    by (rule plain_account_committed [OF mergesD(1) [OF m]])
  have pc: "Created \<notin> ac_status c \<Longrightarrow> SelfDestructed \<notin> ac_status c \<Longrightarrow> plain_info (ac_info c) \<Longrightarrow>
      plain_account ?basic \<and> slots_loaded ?slots c"
    and cc: "Created \<in> ac_status c \<Longrightarrow> plain_account ?basic \<and> (SelfDestructed \<in> ac_status c \<or> \<not> plain_info (ac_info c))"
    using j assms(3) by (auto simp: journal_law_def plain_info_def)
  have a1: "Created \<in> ac_status a \<Longrightarrow> SelfDestructed \<notin> ac_status a \<Longrightarrow> \<not> plain_info (ac_info a)"
    and a2: "SelfDestructed \<notin> ac_status a \<Longrightarrow> plain_info (ac_info a) \<Longrightarrow> snd v = (\<lambda>_. 0) \<and> slots_loaded (snd v) a"
    using mergesD(2) [OF m] assms(2) by (auto simp: merged_law_def)
  have i: "committed_info env m = committed_info env c"
    using mergesD(5) [OF m _ assms(3)] E pc pa a1 by (auto simp: committed_info_def M split: if_splits)
  have "committed_slot env m i (snd v i) = committed_slot env c i (?slots i)" for i
  proof (cases "committed_info env c = None")
    case False
    then have sd: "SelfDestructed \<notin> ac_status a" "SelfDestructed \<notin> ac_status c"
      using mergesD(5) [OF m _ assms(3)] by (auto simp: committed_info_def)
    show ?thesis
    proof (cases "plain_info (ac_info a)")
      case True
      with a1 a2 sd pa st have "?slots i = 0" "snd v i = 0" "slots_loaded (\<lambda>_. 0) a" by (auto dest: fun_cong)
      then show ?thesis
        using False i
        by (auto simp: committed_slot_def [of env m] committed_slot_def [of env c] M slots_loaded_def map_add_def split: option.split)
    next
      case plain: False
      then have "Created \<notin> ac_status c" "committed_info env a \<noteq> None" using cc pa sd E by (auto simp: committed_info_def)
      then show ?thesis
        using False i by (auto simp: committed_slot_def M map_add_def split: option.split)
    qed
  qed (simp add: committed_slot_def i)
  then have "committed_account env m v = committed_account env c (committed_account env a v)"
    using assms i by (simp add: committed_account_def M)
  moreover have "merged_law (snd v) m"
    using a1 a2 pc cc pa st assms(3)
    by (auto simp: merged_law_def M slots_loaded_def map_add_def fun_eq_iff split: option.splits)
  ultimately show ?thesis ..
qed

lemma merge_account_step:
  assumes "merges env v a c m"
  shows "committed_account env m v = committed_account env c (committed_account env a v)" and "merged_law (snd v) m"
  using merge_after_loading [OF assms] merge_loading [OF assms] merge_changing [OF assms] by blast+

lemma account_abs_cong:
  assumes "account_abs a = account_abs b"
  shows "committed_account env a v = committed_account env b v" and "merged_law slots a = merged_law slots b"
  using assms committed_cong [OF assms]
  by (simp_all add: committed_account_def merged_law_def slots_loaded_def account_abs_def)

section \<open>Merging the changes of two states\<close>

text \<open>The account that a state has.\<close>

definition account_view :: "state_trie \<Rightarrow> address \<Rightarrow> account_info option \<times> (u256 \<Rightarrow> u256)" where
  "account_view st addr = (state_basic st addr, state_storage st addr)"

lemma account_view_commit:
  assumes "diff_ok d" and "state_reachable env st"
  shows "account_view (state_commit env st d) addr =
    (case map_of d addr of None \<Rightarrow> account_view st addr | Some a \<Rightarrow> committed_account env a (account_view st addr))"
  using commit_basic [OF assms(1) state_reachable_tries_ok [OF assms(2)]]
    commit_storage [OF assms(1) state_reachable_tries_ok [OF assms(2)]]
  by (auto simp: account_view_def committed_account_def fun_eq_iff split: option.split)

text \<open>The diff \<open>d\<close> leads from the account that the state \<open>st\<close> has to the one that the state \<open>s\<close> has.\<close>

definition leads_to :: "state_env \<Rightarrow> state_trie \<Rightarrow> state_diff \<Rightarrow> state_trie \<Rightarrow> address \<Rightarrow> bool" where
  "leads_to env st d s addr \<longleftrightarrow>
     state_reachable env s \<and> diff_ok d
     \<and> account_view s addr = account_view (state_commit env st d) addr
     \<and> (\<forall>a. map_of d addr = Some a \<longrightarrow> merged_law (state_storage st addr) a)
     \<and> storage_law (state_basic s addr) (state_storage s addr)"

lemma leads_to_commit:
  assumes st: "state_reachable env st" and "is_empty_law env" and d: "leads_to env st d s addr" and e: "diff_ok e"
    and j: "\<And>c. map_of e addr = Some c \<Longrightarrow> journal_law env (state_basic s addr) (state_storage s addr) c"
    and r: "\<And>a c. map_of d addr = Some a \<Longrightarrow> map_of e addr = Some c \<Longrightarrow> SelfDestructed \<in> ac_status a \<Longrightarrow>
      Touched \<in> ac_status c \<Longrightarrow> committed_info env c = None"
  shows "leads_to env st (apply_diff d e) (state_commit env s e) addr"
proof -
  let ?v = "account_view st addr" and ?w = "account_view s addr"
  have s: "state_reachable env s" and d': "diff_ok d" and w: "?w = account_view (state_commit env st d) addr"
    and law: "\<And>a. map_of d addr = Some a \<Longrightarrow> merged_law (snd ?v) a" and sl: "storage_law (fst ?w) (snd ?w)"
    using d by (auto simp: leads_to_def account_view_def)
  have s': "state_reachable env (state_commit env s e)" by (rule state_reachable.step [OF s state_step.commit])
  note ok = diff_ok_apply_diff [OF d' e]
  note views = account_view_commit [OF e s] account_view_commit [OF ok st] w [unfolded account_view_commit [OF d' st]]
  have "account_view (state_commit env s e) addr = account_view (state_commit env st (apply_diff d e)) addr
      \<and> (\<forall>m. map_of (apply_diff d e) addr = Some m \<longrightarrow> merged_law (snd ?v) m)"
  proof (cases "map_of d addr"; cases "map_of e addr")
    assume *: "map_of d addr = None" "map_of e addr = None"
    then have "map_of (apply_diff d e) addr = None" using merged_account(1) [OF d' e] by blast
    with * show ?thesis by (simp add: views)
  next
    fix a assume *: "map_of d addr = Some a" "map_of e addr = None"
    then obtain m where m: "map_of (apply_diff d e) addr = Some m" "account_abs m = account_abs a"
      using merged_account(3) [OF d' e] by blast
    with * law show ?thesis by (simp add: views account_abs_cong [OF m(2)])
  next
    fix c assume *: "map_of d addr = None" "map_of e addr = Some c"
    then obtain m where m: "map_of (apply_diff d e) addr = Some m" "account_abs m = account_abs c"
      using merged_account(4) [OF d' e] by blast
    have "?w = ?v" using views(3) * by simp
    then have "merged_law (snd ?v) c" using merged_law_first [OF j [OF *(2)]] sl by (simp add: account_view_def)
    with * m(1) \<open>?w = ?v\<close> show ?thesis by (simp add: views(1,2) account_abs_cong [OF m(2)])
  next
    fix a c assume *: "map_of d addr = Some a" "map_of e addr = Some c"
    then obtain m where m: "map_of (apply_diff d e) addr = Some m" "ac_info m = ac_info c"
        "map_of (ac_storage m) = map_of (ac_storage a) ++ map_of (ac_storage c)" "ac_status m = ac_status a \<union> ac_status c"
      using merged_account(2) [OF d' e] by blast
    have w': "?w = committed_account env a ?v" using views(3) * by simp
    have "journal_law env (fst ?w) (snd ?w) c" using j [OF *(2)] by (simp add: account_view_def)
    then have "merges env ?v a c m"
      using assms(2) law [OF *(1)] sl r [OF *] m(2-4) unfolding merges_def w' [symmetric] by blast
    note this [THEN merge_account_step(1)] this [THEN merge_account_step(2)]
    then show ?thesis using * m(1) by (simp add: views(1,2) w')
  qed
  moreover have "storage_law (fst (account_view (state_commit env s e) addr)) (snd (account_view (state_commit env s e) addr))"
    unfolding views(1) using sl j storage_law_committed [OF assms(2), of "fst ?w" "snd ?w"]
    by (cases "map_of e addr") (simp_all add: account_view_def)
  ultimately show ?thesis using s' ok by (simp add: leads_to_def account_view_def)
qed

section \<open>An account that is made again\<close>

text \<open>C37. An account that one transaction destroys and a later transaction of the same block creates
  again exists after the transactions were committed, but not after their merged diff was: the
  state that is computed for the block later has lost the account.\<close>

theorem recreated_account_is_lost:
  assumes "state_reachable env st" and "diff_ok d" and "diff_ok e"
    and "map_of d addr = Some a" and "SelfDestructed \<in> ac_status a"
    and "map_of e addr = Some b" and "Touched \<in> ac_status b" and "committed_info env b \<noteq> None"
  shows "state_basic (state_commit env (state_commit env st d) e) addr \<noteq> None
    \<and> state_basic (state_commit env st (apply_diff d e)) addr = None"
proof -
  have tries: "tries_ok env (sx_tries st)" "tries_ok env (sx_tries (state_commit env st d))"
    using state_reachable_tries_ok [OF assms(1)] by (simp_all add: tries_ok_commit)
  obtain m where "map_of (apply_diff d e) addr = Some m" "ac_status m = ac_status a \<union> ac_status b"
    using merged_account(2) [OF assms(2,3,4,6)] by blast
  with assms(5-8) show ?thesis
    by (simp add: commit_basic [OF diff_ok_apply_diff [OF assms(2,3)] tries(1)] commit_basic [OF assms(3) tries(2)]
        committed_info_def)
qed

definition destroying_diff :: evm_state where
  "destroying_diff = [(1, \<lparr>ac_info = sample_info 0, ac_storage = [], ac_status = {Touched, SelfDestructed}\<rparr>)]"

definition creating_diff :: evm_state where
  "creating_diff = [(1, \<lparr>ac_info = sample_info 3, ac_storage = [], ac_status = {Touched, Created}\<rparr>)]"

theorem recreated_account_is_lost_witness:
  "state_basic (state_commit sample_state_env
       (state_commit sample_state_env (state_default sample_state_env) destroying_diff) creating_diff) 1 \<noteq> None
   \<and> state_basic (state_commit sample_state_env (state_default sample_state_env)
       (apply_diff destroying_diff creating_diff)) 1 = None"
  using recreated_account_is_lost [OF state_reachable.default, of destroying_diff creating_diff 1 _ _ sample_state_env]
  by (simp add: destroying_diff_def creating_diff_def committed_info_def)

end
