(* ===== verification/Mining_Chain.thy ===== *)
theory Mining_Chain
  imports Miner_Facts Local_Blockchain_Facts State_Merge
begin

text \<open>
  The properties of mining: termination, the choice of transactions, gas, receipts, that the
  chain accepts the mined block, and that its stored diff leads to its state.
\<close>

section \<open>The parts of a mined block\<close>

lemma block_builder_new_fields:
  assumes "block_builder_new env last_block hardfork config state disable inputs overrides = Return (Inr b)"
  shows "\<exists>parent. last_block = Inr parent
      \<and> partial_header_new (bb_header_env env) config (overrides\<lparr>ho_parent_hash := Some (lb_hash parent)\<rparr>)
          (Some (lb_header parent)) (bi_ommers inputs) (bi_withdrawals inputs) = Return (bu_header b)
      \<and> bu_parent_gas_limit b = (if ho_gas_limit overrides = None then Some (bh_gas_limit (lb_header parent)) else None)"
    and "bu_hardfork b = hardfork" "bu_disable_block_gas_limit b = disable" "bu_transactions b = []"
    "bu_cumulative_gas_used b = 0" "bu_state b = state" "bu_state_diff b = []" "receipts_ok b"
  using assms
  by (cases last_block; auto simp: block_builder_new_def receipts_ok_def Let_def split: if_splits)+

lemma partial_header_new_gas:
  assumes "partial_header_new env config ov parent ommers ws = Return h"
  shows "ph_gas_used h = 0" "ph_gas_limit h = unwrap_or (ho_gas_limit ov) 1000000"
  using assms by (auto simp: partial_header_new_def Let_def)

lemma finalized_header_fields [simp]:
  "ph_number (finalized_header env b) = ph_number (bu_header b)"
  "ph_parent_hash (finalized_header env b) = ph_parent_hash (bu_header b)"
  "ph_withdrawals_root (finalized_header env b) = ph_withdrawals_root (bu_header b)"
  "ph_gas_used (finalized_header env b) = ph_gas_used (bu_header b)"
  "ph_gas_limit (finalized_header env b) = unwrap_or (bu_parent_gas_limit b) (ph_gas_limit (bu_header b))"
  "ph_timestamp (finalized_header env b) = (if ph_timestamp (bu_header b) = 0 then bb_now env else ph_timestamp (bu_header b))"
  "ph_logs_bloom (finalized_header env b) = fold (\<lambda>r bloom. or bloom (rc_bloom (snd (tr_inner r)))) (bu_receipts b) 0"
  by (simp_all add: finalized_header_def Let_def)

text \<open>What a finished block keeps of its builder.\<close>

definition finished_block ::
  "('w, 'bp, 'bx, 'd, 'v, 'x, 'i) builder_env \<Rightarrow> ('w, 'bp) block_builder \<Rightarrow> 'w built_block \<Rightarrow> bool" where
  "finished_block env b built \<longleftrightarrow>
     (let block = bt_block built; header = lb_header block
      in bh_number header = ph_number (bu_header b) \<and> bh_parent_hash header = ph_parent_hash (bu_header b)
         \<and> bh_withdrawals_root header = ph_withdrawals_root (bu_header b) \<and> bh_gas_used header = ph_gas_used (bu_header b)
         \<and> bh_gas_limit header = unwrap_or (bu_parent_gas_limit b) (ph_gas_limit (bu_header b))
         \<and> bh_timestamp header = (if ph_timestamp (bu_header b) = 0 then bb_now env else ph_timestamp (bu_header b))
         \<and> bh_logs_bloom header = fold (\<lambda>r bloom. or bloom (rc_bloom (snd (tr_inner r)))) (bu_receipts b) 0
         \<and> lb_hash block = he_header_hash (bb_header_env env) header
         \<and> lb_transactions block = bu_transactions b
         \<and> lb_transaction_receipts block =
             map (\<lambda>(receipt, tx). l1_block_receipt_new receipt (into_evm_spec (bu_hardfork b)) (lb_hash block) (bh_number header))
               (zip (map_transaction_receipt_logs (lb_hash block) (bh_number header) 0 0 (bu_receipts b)) (bu_transactions b))
         \<and> bt_transaction_results built = bu_transaction_results b
         \<and> (MERGE \<le> into_evm_spec (bu_hardfork b) \<longrightarrow> bt_state built = bu_state b \<and> bt_state_diff built = bu_state_diff b))"

lemma finalize_block_finished:
  assumes "finalize_block env b = (Inr built :: 'r block_finalize_error + _)"
  shows "finished_block env b built"
proof -
  from finalize_block_cases [OF assms] obtain b' st sd where
    "bu_finalize env b' = (Inr built :: 'r block_finalize_error + _)" and b': "b' = b\<lparr>bu_state := st, bu_state_diff := sd\<rparr>"
      "MERGE \<le> into_evm_spec (bu_hardfork b) \<longrightarrow> b' = b"
    by blast
  note fin = bu_finalize_Inr [OF this(1)]
  have "MERGE \<le> into_evm_spec (bu_hardfork b) \<longrightarrow> bt_state built = bu_state b \<and> bt_state_diff built = bu_state_diff b"
    using fin(3,4) b'(2) by auto
  with fin(1,2) show ?thesis
    by (simp add: b'(1) finished_block_def local_block_new_def header_new_def Let_def)
qed

text \<open>What is behind a mined block: the builder it starts from, the transactions that were added,
  and the builder it ends with.\<close>

lemma mine_block_parts:
  fixes env :: "('w, 'bp, 'bx, 'd, 'v, 'x, 'i) builder_env" and flush :: "'i \<Rightarrow> ('ie + 'o) \<times> 'i"
  assumes "pool_inv pool"
    and "mine_block env flush ltb last_block hardfork config state pool disable overrides min_gas_price ord inspector
      = Some (Return (Inr (built, data) :: ('d, 'v, 'x, 'r, 'ie) mine_block_error + _))"
  obtains b txs b' where
    "block_builder_new env last_block hardfork config state disable (block_inputs_empty hardfork) overrides = Return (Inr b)"
    "builds env b txs b'" "taken_from (pool_iter pool) txs" "\<forall>tx \<in> set txs. min_gas_price \<le> tx_gas_price tx"
    "finished_block env b' built"
proof -
  from assms(2) obtain b where
    new: "block_builder_new env last_block hardfork config state disable (block_inputs_empty hardfork) overrides = Return (Inr b)"
    by (auto simp: mine_block_def split: outcome.splits sum.splits)
  let ?cmp = "mine_comparator ord (ph_base_fee (bu_header b))"
  obtain r :: "('d, 'v, 'x, 'r, 'ie) mine_block_error + ('w, 'bp) block_builder \<times> 'o list" where
    r: "mine_loop env flush ltb ?cmp min_gas_price (pool_iter pool) b inspector [] = Some (Return r)"
    "loop_ok env min_gas_price (pool_iter pool) b r"
    using mine_loop_spec [OF mine_comparator_total iter_inv_pool [OF assms(1)], where env = env and flush = flush
        and b = b and ?'r = 'r] by blast
  from assms(2) new r(1) obtain b' where r': "r = Inr (b', data)"
    and fin: "finalize_block env b' = (Inr built :: 'r block_finalize_error + _)"
    by (cases r) (auto simp: mine_block_def Let_def split: sum.splits)
  from r(2) r' obtain txs where "builds env b txs b'" "taken_from (pool_iter pool) txs"
    "\<forall>tx \<in> set txs. min_gas_price \<le> tx_gas_price tx" by (auto simp: loop_ok_def)
  with new finalize_block_finished [OF fin] show thesis by (intro that)
qed

section \<open>A sample\<close>

text \<open>An EVM that executes every transaction with a sufficient gas limit as a transfer, without effect
  on the state.\<close>

definition transfer_result :: execution_result where
  "transfer_result =
     \<lparr>er_is_success = True, er_logs = [], er_tx_gas_used = 21000, er_total_gas_spent = 21000, er_floor_gas = 21000,
      er_created_address = None\<rparr>"

definition sample_dry_run :: "transaction \<Rightarrow> (unit, nat, unit) dry_run_result" where
  "sample_dry_run tx = (if tx_gas_limit tx < 21000 then Inl (InvalidTransaction 1) else Inr (transfer_result, []))"

definition sample_builder_env :: "(unit, nat, u64, unit, nat, unit, unit) builder_env" where
  "sample_builder_env =
     \<lparr>bb_header_env = sample_env, bb_state_env = sample_state_env, bb_dry_run = (\<lambda>_ tx _. sample_dry_run tx),
      bb_dry_run_with_inspector = (\<lambda>_ tx _ i. (sample_dry_run tx, i)), bb_accrue = (\<lambda>_ b. b),
      bb_transactions_root = (\<lambda>_. 1), bb_receipts_root = (\<lambda>_. 2), bb_access_list_hash = id,
      bb_rlp_length = (\<lambda>_. 600), bb_now = 5000\<rparr>"

definition sample_overrides :: header_overrides where
  "sample_overrides = no_overrides\<lparr>ho_gas_limit := Some 60000, ho_base_fee := Some 100\<rparr>"

definition sample_flush :: "unit \<Rightarrow> (unit + unit) \<times> unit" where
  "sample_flush i = (Inr (), i)"

abbreviation mine_with ::
  "(unit, nat, u64, unit, nat, unit, unit) builder_env \<Rightarrow> unit local_block
     \<Rightarrow> ((unit, nat, unit, unit, unit) mine_block_error + unit built_block \<times> unit list) outcome option" where
  "mine_with env parent \<equiv>
     mine_block env sample_flush 0 (Inr parent) Shanghai (sample_config Shanghai) (state_default sample_state_env)
       (sample_pool 100 77 0) False sample_overrides 50 Fifo None"

abbreviation mine_sample ::
  "unit local_block \<Rightarrow> ((unit, nat, unit, unit, unit) mine_block_error + unit built_block \<times> unit list) outcome option" where
  "mine_sample parent \<equiv> mine_with sample_builder_env parent"

lemma gas_bounded_sample: "gas_bounded sample_builder_env"
  by (auto simp: gas_bounded_def executed_def sample_builder_env_def sample_dry_run_def transfer_result_def split: if_splits)

lemma sample_builder_new:
  assumes "bb_header_env env = sample_env"
  shows "\<exists>b. block_builder_new env (Inr parent) Shanghai (sample_config Shanghai) state False
      (block_inputs_empty Shanghai) sample_overrides = Return (Inr b)"
  using assms
  by (simp add: block_builder_new_def partial_header_new_def next_base_fee_def next_blob_gas_def
      sample_overrides_def no_overrides_def sample_config_def block_inputs_empty_def spec_le_simps unwrap_or_def Let_def)

lemma mine_with_block:
  assumes env: "env = sample_builder_env\<lparr>bb_dry_run := f, bb_dry_run_with_inspector := g\<rparr>"
    and f: "\<And>block. f (state_default sample_state_env) (sample_tx 1 5 100 77) block = Inr (transfer_result, diff)"
  shows "\<exists>b built. block_builder_new env (Inr parent) Shanghai (sample_config Shanghai) (state_default sample_state_env) False
      (block_inputs_empty Shanghai) sample_overrides = Return (Inr b)
    \<and> mine_with env parent = Some (Return (Inr (built, [])))
    \<and> lb_transactions (bt_block built) = [sample_tx 1 5 100 77]"
proof -
  obtain b where new: "block_builder_new env (Inr parent) Shanghai (sample_config Shanghai)
      (state_default sample_state_env) False (block_inputs_empty Shanghai) sample_overrides = Return (Inr b)"
    using sample_builder_new [of env] by (auto simp: env sample_builder_env_def)
  note b = block_builder_new_fields [OF new]
  from b(1) have "ph_gas_used (bu_header b) = 0" "ph_gas_limit (bu_header b) = 60000"
    by (auto dest: partial_header_new_gas simp: sample_overrides_def unwrap_or_def)
  then have "validate_transaction env b (sample_tx 1 5 100 77) = Inr ()"
    by (simp add: validate_transaction_def gas_remaining_def gas_used_def sample_tx_def)
  then have add: "bu_add_transaction env b (sample_tx 1 5 100 77)
      = (Inr (), add_transaction_result env b (sample_tx 1 5 100 77) transfer_result diff)"
    by (simp add: bu_add_transaction_def b(6) f env)
  let ?b = "add_transaction_result env b (sample_tx 1 5 100 77) transfer_result diff"
  have "mine_loop env sample_flush 0 (mine_comparator Fifo base_fee) 50 (pool_iter (sample_pool 100 77 0)) b
      None [] = (Some (Return (Inr (?b, []))) :: ((unit, nat, unit, unit, unit) mine_block_error + _) outcome option)" for base_fee
    using add by (simp add: mine_loop.simps pending_next_def pool_iter_def sample_pool_def mine_transaction_def Let_def sample_tx_def)
  moreover obtain built where "finalize_block env ?b = (Inr built :: unit block_finalize_error + _)"
    using b(2) by (simp add: finalize_block_def bu_finalize_def env sample_builder_env_def MAX_RLP_BLOCK_SIZE_def Let_def)
  moreover from finalize_block_finished [OF this] b(4) have "lb_transactions (bt_block built) = [sample_tx 1 5 100 77]"
    by (simp add: finished_block_def Let_def)
  ultimately show ?thesis using new by (simp add: mine_block_def Let_def)
qed

lemma mine_sample_block: "\<exists>built. mine_sample parent = Some (Return (Inr (built, [])))
    \<and> lb_transactions (bt_block built) = [sample_tx 1 5 100 77]"
  using mine_with_block [where env = sample_builder_env and f = "bb_dry_run sample_builder_env"
      and g = "bb_dry_run_with_inspector sample_builder_env" and diff = "[]" and parent = parent]
  by (auto simp: sample_builder_env_def sample_dry_run_def sample_tx_def)

section \<open>Properties\<close>

lemma mine_block_ends:
  fixes env :: "('w, 'bp, 'bx, 'd, 'v, 'x, 'i) builder_env" and flush :: "'i \<Rightarrow> ('ie + 'o) \<times> 'i"
    and r :: "(('d, 'v, 'x, 'r, 'ie) mine_block_error + _) outcome"
  assumes "pool_inv pool"
  shows "\<exists>r :: (('d, 'v, 'x, 'r, 'ie) mine_block_error + _) outcome.
    mine_block env flush ltb last_block hardfork config state pool disable overrides min_gas_price ord inspector = Some r
    \<and> (r = Panic \<longleftrightarrow>
        block_builder_new env last_block hardfork config state disable (block_inputs_empty hardfork) overrides = Panic)"
proof (cases "block_builder_new env last_block hardfork config state disable (block_inputs_empty hardfork) overrides")
  case Panic
  then show ?thesis by (simp add: mine_block_def)
next
  case (Return x)
  show ?thesis
  proof (cases x)
    case (Inl e)
    with Return show ?thesis by (simp add: mine_block_def)
  next
    case (Inr b)
    obtain r :: "('d, 'v, 'x, 'r, 'ie) mine_block_error + ('w, 'bp) block_builder \<times> 'o list" where
      "mine_loop env flush ltb (mine_comparator ord (ph_base_fee (bu_header b))) min_gas_price (pool_iter pool) b inspector []
        = Some (Return r)"
      using mine_loop_spec [OF mine_comparator_total iter_inv_pool [OF assms], where env = env and flush = flush
          and b = b and ?'r = 'r] by blast
    with Return Inr show ?thesis by (cases r) (auto simp: mine_block_def Let_def)
  qed
qed



lemma mined_transactions_prefix:
  assumes "pool_inv pool"
    and "mine_block env flush ltb last_block hardfork config state pool disable overrides min_gas_price ord inspector
      = Some (Return (Inr (built, data)))"
  shows "prefix (filter (\<lambda>tx. tx_caller tx = c) (lb_transactions (bt_block built)))
      (map ot_transaction (unwrap_or (map_of (mp_pending_transactions pool) c) []))
    \<and> (\<forall>tx \<in> set (lb_transactions (bt_block built)). min_gas_price \<le> tx_gas_price tx)"
proof -
  from assms obtain b txs b' where
    new: "block_builder_new env last_block hardfork config state disable (block_inputs_empty hardfork) overrides = Return (Inr b)"
    and txs: "builds env b txs b'" "taken_from (pool_iter pool) txs" "\<forall>tx \<in> set txs. min_gas_price \<le> tx_gas_price tx"
    and fin: "finished_block env b' built" by (rule mine_block_parts)
  have "lb_transactions (bt_block built) = txs"
    using builds_frame(2) [OF txs(1)] fin block_builder_new_fields(4) [OF new] by (simp add: finished_block_def Let_def)
  moreover have "queue_of (pool_iter pool) c = map ot_transaction (unwrap_or (map_of (mp_pending_transactions pool) c) [])"
    by (simp add: queue_of_def pool_iter_def unwrap_or_def split: option.split)
  moreover have "prefix (filter (\<lambda>tx. tx_caller tx = c) txs) (queue_of (pool_iter pool) c)"
    using txs(2) by (simp add: taken_from_def)
  ultimately show ?thesis using txs(3) by simp
qed

text \<open>The transactions of a mined block: from every sender a prefix of its pending transactions, in
  the order of their nonces in the pool, and none below the minimum gas price.\<close>

theorem mined_transactions:
  assumes "pool_inv pool"
    and "mine_block env flush ltb last_block hardfork config state pool disable overrides min_gas_price ord inspector
      = Some (Return (Inr (built, data)))"
  shows "prefix (filter (\<lambda>tx. tx_caller tx = c) (lb_transactions (bt_block built)))
      (map ot_transaction (unwrap_or (map_of (mp_pending_transactions pool) c) []))
    \<and> (\<forall>tx \<in> set (lb_transactions (bt_block built)). min_gas_price \<le> tx_gas_price tx)"
  using assms by (rule mined_transactions_prefix)

theorem mined_transactions_witness:
  "\<exists>built. mine_sample sample_block = Some (Return (Inr (built, [])))
    \<and> prefix (lb_transactions (bt_block built)) [sample_tx 1 5 100 77]
    \<and> (\<forall>tx \<in> set (lb_transactions (bt_block built)). 50 \<le> tx_gas_price tx)"
proof -
  obtain built where built: "mine_sample sample_block = Some (Return (Inr (built, [])))"
    and txs: "lb_transactions (bt_block built) = [sample_tx 1 5 100 77]" using mine_sample_block by blast
  from mined_transactions [OF pool_inv_sample built, of 1] have
    "prefix (lb_transactions (bt_block built)) [sample_tx 1 5 100 77]
     \<and> (\<forall>tx \<in> set (lb_transactions (bt_block built)). 50 \<le> tx_gas_price tx)"
    by (simp add: txs sample_pool_def sample_tx_def unwrap_or_def)
  with built show ?thesis by blast
qed

text \<open>C18. The gas of a block that is mined with a gas limit of its own stays within that limit, if the
  check of the block gas limit is not disabled, and given that the EVM charges no transaction more than its gas limit; before Amsterdam it is the sum of what
  the transactions used.\<close>

theorem mined_block_gas:
  assumes "pool_inv pool" and "gas_bounded env" and "ho_gas_limit overrides = Some limit"
    and "mine_block env flush ltb last_block hardfork config state pool False overrides min_gas_price ord inspector
      = Some (Return (Inr (built, data)))"
  shows "bh_gas_limit (lb_header (bt_block built)) = limit \<and> bh_gas_used (lb_header (bt_block built)) \<le> limit
    \<and> (AMSTERDAM \<le> into_evm_spec hardfork
       \<or> bh_gas_used (lb_header (bt_block built)) = sum_list (map er_tx_gas_used (bt_transaction_results built)))"
proof -
  from assms(1,4) obtain b txs b' where
    new: "block_builder_new env last_block hardfork config state False (block_inputs_empty hardfork) overrides = Return (Inr b)"
    and txs: "builds env b txs b'" "taken_from (pool_iter pool) txs" "\<forall>tx \<in> set txs. min_gas_price \<le> tx_gas_price tx"
    and fin: "finished_block env b' built" by (rule mine_block_parts)
  note b = block_builder_new_fields [OF new]
  from b(1) assms(3) obtain parent where "last_block = Inr parent" and h: "partial_header_new (bb_header_env env) config
      (overrides\<lparr>ho_parent_hash := Some (lb_hash parent)\<rparr>) (Some (lb_header parent))
      [] (bi_withdrawals (block_inputs_empty hardfork)) = Return (bu_header b)"
    and none: "bu_parent_gas_limit b = None" by (auto simp: block_inputs_empty_def)
  note gas = partial_header_new_gas [OF h]
  have limit: "ph_gas_limit (bu_header b') = limit"
    using header_frame_eqD(4) [OF builds_frame(1) [OF txs(1)]] gas(2) assms(3) by (simp add: unwrap_or_def)
  have used: "ph_gas_used (bu_header b') \<le> limit"
    using builds_gas [OF txs(1) assms(2)] b(3) gas(1) limit by simp
  have sum: "AMSTERDAM \<le> into_evm_spec hardfork
      \<or> ph_gas_used (bu_header b') = sum_list (map er_tx_gas_used (bu_transaction_results b'))"
    using builds_cumulative [OF txs(1)] b(2,5) gas(1) builds_receipts_ok [OF txs(1) b(8)] by (auto simp: receipts_ok_def)
  show ?thesis
    using limit used sum builds_frame(5) [OF txs(1)] none fin by (simp add: finished_block_def unwrap_or_def Let_def)
qed

theorem mined_block_gas_witness:
  "\<exists>built. mine_sample sample_block = Some (Return (Inr (built, [])))
    \<and> bh_gas_limit (lb_header (bt_block built)) = 60000 \<and> bh_gas_used (lb_header (bt_block built)) \<le> 60000"
proof -
  obtain built where built: "mine_sample sample_block = Some (Return (Inr (built, [])))" using mine_sample_block by blast
  have "ho_gas_limit sample_overrides = Some 60000" by (simp add: sample_overrides_def)
  from mined_block_gas [OF pool_inv_sample gas_bounded_sample this built] built show ?thesis by blast
qed

text \<open>C24. The receipts of a mined block belong to its transactions, in order: each has the hash, the sender
  and the place of its transaction, the gas the execution used, the sum of that gas over the block so
  far, and the number and hash of the block.\<close>

theorem mined_receipts:
  assumes "pool_inv pool"
    and "mine_block env flush ltb last_block hardfork config state pool disable overrides min_gas_price ord inspector
      = Some (Return (Inr (built, data)))"
    and "i < length (lb_transactions (bt_block built))"
  shows "let block = bt_block built; tx = lb_transactions block ! i; receipt = lb_transaction_receipts block ! i
    in receipt_hash receipt = tx_hash tx \<and> tr_from (br_inner receipt) = tx_caller tx
       \<and> tr_transaction_index (br_inner receipt) = of_nat i
       \<and> tr_gas_used (br_inner receipt) = er_tx_gas_used (bt_transaction_results built ! i)
       \<and> cumulative_gas_used (snd (tr_inner (br_inner receipt)))
           = sum_list (map er_tx_gas_used (take (Suc i) (bt_transaction_results built)))
       \<and> br_block_hash receipt = lb_hash block \<and> br_block_number receipt = bh_number (lb_header block)"
proof -
  from assms(1,2) obtain b txs b' where
    new: "block_builder_new env last_block hardfork config state disable (block_inputs_empty hardfork) overrides = Return (Inr b)"
    and txs: "builds env b txs b'" "taken_from (pool_iter pool) txs" "\<forall>tx \<in> set txs. min_gas_price \<le> tx_gas_price tx"
    and fin: "finished_block env b' built" by (rule mine_block_parts)
  let ?h = "lb_hash (bt_block built)" and ?n = "bh_number (lb_header (bt_block built))"
  have ok: "receipts_ok b'" by (rule builds_receipts_ok [OF txs(1) block_builder_new_fields(8) [OF new]])
  have len: "length (bu_receipts b') = length (bu_transactions b')" and i: "i < length (bu_transactions b')"
    using ok assms(3) fin by (simp_all add: receipts_ok_def finished_block_def Let_def)
  obtain logs where logs: "map_transaction_receipt_logs ?h ?n 0 0 (bu_receipts b') ! i = map_receipt_logs (bu_receipts b' ! i) logs"
    using map_transaction_receipt_logs_nth i len by metis
  have "lb_transaction_receipts (bt_block built) ! i =
      l1_block_receipt_new (map_receipt_logs (bu_receipts b' ! i) logs) (into_evm_spec (bu_hardfork b')) ?h ?n"
    using fin i len logs by (simp add: finished_block_def Let_def)
  moreover have "receipt_of (bu_transaction_results b') (bu_transactions b' ! i) i (bu_receipts b' ! i)"
    using ok i by (simp add: receipts_ok_def)
  moreover have "lb_transactions (bt_block built) = bu_transactions b'" "bt_transaction_results built = bu_transaction_results b'"
    using fin by (simp_all add: finished_block_def Let_def)
  ultimately show ?thesis
    by (cases "snd (tr_inner (bu_receipts b' ! i))")
      (simp_all add: receipt_of_def l1_block_receipt_new_def map_receipt_logs_def receipt_hash_def Let_def)
qed

theorem mined_receipts_witness:
  "\<exists>built. mine_sample sample_block = Some (Return (Inr (built, [])))
    \<and> receipt_hash (lb_transaction_receipts (bt_block built) ! 0) = 77"
proof -
  obtain built where built: "mine_sample sample_block = Some (Return (Inr (built, [])))"
    and txs: "lb_transactions (bt_block built) = [sample_tx 1 5 100 77]" using mine_sample_block by blast
  from mined_receipts [OF pool_inv_sample built, of 0] built show ?thesis
    by (simp add: txs sample_tx_def Let_def)
qed

lemma partial_header_new_place:
  assumes "partial_header_new env config (ov\<lparr>ho_parent_hash := Some h\<rparr>) (Some p) oms ws = Return ph"
  shows "ho_number ov = None \<Longrightarrow> ph_number ph = bh_number p + 1" "ph_parent_hash ph = h"
    "SHANGHAI \<le> into_evm_spec (bc_hardfork config) \<Longrightarrow> ph_withdrawals_root ph \<noteq> None"
proof -
  from assms have "ph_number ph = overridden_block_number (Some p) (ov\<lparr>ho_parent_hash := Some h\<rparr>)"
    "ph_parent_hash ph = h" and w: "ph_withdrawals_root ph = since_fork (into_evm_spec (bc_hardfork config)) SHANGHAI
       (ho_withdrawals_root ov) (case ws of Some ws \<Rightarrow> he_withdrawals_root env ws | None \<Rightarrow> KECCAK_NULL_RLP)"
    by (auto simp: partial_header_new_def unwrap_or_def Let_def)
  then show "ho_number ov = None \<Longrightarrow> ph_number ph = bh_number p + 1" "ph_parent_hash ph = h"
    by (simp_all add: overridden_block_number_def unwrap_or_def)
  show "ph_withdrawals_root ph \<noteq> None" if "SHANGHAI \<le> into_evm_spec (bc_hardfork config)"
    unfolding w since_fork_def using that by (cases "ho_withdrawals_root ov") simp_all
qed

lemma mined_block_valid:
  assumes "pool_inv pool" and "bc_hardfork config = hardfork" and "ho_number overrides = None"
    and "mine_block env flush ltb (Inr parent) hardfork config state pool disable overrides min_gas_price ord inspector
      = Some (Return (Inr (built, data)))"
  shows "validate_next_block hardfork parent (bt_block built) = Inr ()"
    and "lb_hash (bt_block built) = he_header_hash (bb_header_env env) (lb_header (bt_block built))"
proof -
  from assms(1,4) obtain b txs b' where
    new: "block_builder_new env (Inr parent) hardfork config state disable (block_inputs_empty hardfork) overrides = Return (Inr b)"
    and txs: "builds env b txs b'" "taken_from (pool_iter pool) txs" "\<forall>tx \<in> set txs. min_gas_price \<le> tx_gas_price tx"
    and fin: "finished_block env b' built" by (rule mine_block_parts)
  from block_builder_new_fields(1) [OF new] have "partial_header_new (bb_header_env env) config
      (overrides\<lparr>ho_parent_hash := Some (lb_hash parent)\<rparr>) (Some (lb_header parent))
      [] (bi_withdrawals (block_inputs_empty hardfork)) = Return (bu_header b)"
    by (auto simp: block_inputs_empty_def)
  note placed = partial_header_new_place [OF this, unfolded assms(2)]
  have "ph_number (bu_header b) = bh_number (lb_header parent) + 1" using placed(1) assms(3) by simp
  moreover have "ph_parent_hash (bu_header b) = lb_hash parent" using placed(2) by simp
  moreover have "SHANGHAI \<le> into_evm_spec hardfork \<Longrightarrow> ph_withdrawals_root (bu_header b) \<noteq> None" using placed(3) .
  ultimately show "validate_next_block hardfork parent (bt_block built) = Inr ()"
    "lb_hash (bt_block built) = he_header_hash (bb_header_env env) (lb_header (bt_block built))"
    using header_frame_eqD(1-3) [OF builds_frame(1) [OF txs(1)]] fin
    by (simp_all add: validate_next_block_def finished_block_def Let_def)
qed

text \<open>C13. Inserting a block that was mined on the last block of a well-formed chain: unless one of the
  block's transactions or receipts is in the chain already, it is accepted and becomes the last block
  of a chain that is well-formed again, with the total difficulty of its parent plus its own difficulty,
  and its state diff is recorded after those of the blocks before it. Otherwise it is refused, and the
  chain is left without a last block.\<close>

theorem mined_block_extends_chain:
  assumes "pool_inv pool" and "reservable_reachable (bb_header_env env) (lc_storage lc)"
    and "hash_separates (bb_header_env env)" and "unat (lc_last_block_number lc) + 2 < 2 ^ 64"
    and "chain_block (bb_header_env env) (lc_storage lc) (lc_last_block_number lc) = Some l"
    and "bc_hardfork config = lc_hardfork lc" and "ho_number overrides = None"
    and "mine_block env flush ltb (Inr l) (lc_hardfork lc) config state pool disable overrides min_gas_price ord inspector
      = Some (Return (Inr (built, data)))"
  shows "\<exists>r lc'. lc_insert_block (bb_header_env env) lc (bt_block built) (bt_state_diff built) = Return (r, lc')
    \<and> (if known_transactions (lc_storage lc) (bt_block built)
       then (\<exists>e. r = Inl (BlockAndReceiptInsertion e)) \<and> last_local_block (bb_header_env env) lc' = Panic
       else
         \<exists>td td'. r = Inr (bt_block built, td) \<and> reservable_reachable (bb_header_env env) (lc_storage lc')
           \<and> chain_block (bb_header_env env) (lc_storage lc') =
               (chain_block (bb_header_env env) (lc_storage lc))(lc_last_block_number lc + 1 \<mapsto> bt_block built)
           \<and> lc_last_block_number lc' = lc_last_block_number lc + 1
           \<and> lc_total_difficulty_by_hash lc' (lb_hash l) = Some td'
           \<and> td = td' + bh_difficulty (lb_header (bt_block built))
           \<and> lc_total_difficulty_by_hash lc' (lb_hash (bt_block built)) = Some td
           \<and> state_diffs_until_block (lc_storage lc') (lc_last_block_number lc + 1) =
               Return (Some (rv_state_diffs (lc_storage lc) @ [(lc_last_block_number lc + 1, bt_state_diff built)])))"
proof -
  note valid = mined_block_valid [OF assms(1,6,7,8)]
  show ?thesis
  proof (cases rule: insert_block_cases [OF assms(2,3) valid(2) assms(4), of "bt_state_diff built"])
    case (1 l' e s')
    with assms(5) valid(1) show ?thesis by simp
  next
    case (2 l' r lc')
    with assms(5) show ?thesis by (simp add: valid_insert_def)
  qed
qed

lemma sample_knows_nothing: "\<not> known_transactions (lc_storage sample_blockchain) b"
  by (simp add: known_transactions_def sample_blockchain_def sample_chain_def reserve_blocks_def with_genesis_block_def
      sparse_with_block_def genesis_block_def sample_block_def reservable_block_by_transaction_hash_def
      sparse_block_by_transaction_hash_def reservable_receipt_by_transaction_hash_def sparse_receipt_by_transaction_hash_def
      index_transactions_def tx_hashes_def Let_def)

theorem mined_block_extends_chain_witness:
  "\<exists>l built td lc'. mine_sample l = Some (Return (Inr (built, [])))
    \<and> lb_transactions (bt_block built) = [sample_tx 1 5 100 77]
    \<and> lc_insert_block sample_env (sample_blockchain\<lparr>lc_hardfork := Shanghai\<rparr>) (bt_block built) (bt_state_diff built)
        = Return (Inr (bt_block built, td), lc')
    \<and> lc_last_block_number lc' = 11 \<and> chain_block sample_env (lc_storage lc') 11 = Some (bt_block built)"
proof -
  let ?lc = "sample_blockchain\<lparr>lc_hardfork := Shanghai\<rparr>"
  have lc: "lc_storage ?lc = lc_storage sample_blockchain" "lc_last_block_number ?lc = 10"
    using sample_blockchain_last by (simp_all add: lc_last_block_number_def)
  have env: "bb_header_env sample_builder_env = sample_env" by (simp add: sample_builder_env_def)
  from sample_blockchain_reachable sample_env_separates obtain l where
    l: "chain_block sample_env (lc_storage sample_blockchain) 10 = Some l"
    using sample_blockchain_last by (auto elim!: last_local_block_ok simp: lc_last_block_number_def)
  obtain built where built: "mine_sample l = Some (Return (Inr (built, [])))"
    "lb_transactions (bt_block built) = [sample_tx 1 5 100 77]" using mine_sample_block by blast
  have "\<exists>r lc'. lc_insert_block (bb_header_env sample_builder_env) ?lc (bt_block built) (bt_state_diff built) = Return (r, lc')
      \<and> (\<exists>td. r = Inr (bt_block built, td) \<and> lc_last_block_number lc' = 11
          \<and> chain_block (bb_header_env sample_builder_env) (lc_storage lc') 11 = Some (bt_block built))"
    using mined_block_extends_chain [OF pool_inv_sample, where env = sample_builder_env and lc = ?lc and l = l and built = built
        and config = "sample_config Shanghai" and overrides = sample_overrides and ltb = 0 and flush = sample_flush and data = "[]"
        and state = "state_default sample_state_env" and disable = False and min_gas_price = 50 and ord = Fifo and inspector = None]
      sample_blockchain_reachable sample_env_separates l built sample_knows_nothing
    by (fastforce simp: lc env sample_config_def sample_overrides_def no_overrides_def)
  with built show ?thesis unfolding env by blast
qed

section \<open>The state of a mined block\<close>

text \<open>From the Merge on, the changes of every transaction obey the laws of the EVM's journal.\<close>

definition evm_journal :: "('w, 'bp, 'bx, 'd, 'v, 'x, 'i) builder_env \<Rightarrow> bool" where
  "evm_journal env \<longleftrightarrow>
     (\<forall>b tx result diff.
        MERGE \<le> into_evm_spec (bu_hardfork b) \<and> state_reachable (bb_state_env env) (bu_state b)
        \<and> executed env b tx result diff \<longrightarrow>
        diff_ok diff
        \<and> (\<forall>addr c. map_of diff addr = Some c \<longrightarrow>
             journal_law (bb_state_env env) (state_basic (bu_state b) addr) (state_storage (bu_state b) addr) c))"

text \<open>One of the transactions makes the account again that an earlier one destroyed.\<close>

definition revives ::
  "('w, 'bp, 'bx, 'd, 'v, 'x, 'i) builder_env \<Rightarrow> ('w, 'bp) block_builder \<Rightarrow> transaction list \<Rightarrow> address \<Rightarrow> bool" where
  "revives env b0 txs addr \<longleftrightarrow>
     (\<exists>pre tx b result diff a c.
        prefix (pre @ [tx]) txs \<and> builds env b0 pre b \<and> executed env b tx result diff
        \<and> map_of (bu_state_diff b) addr = Some a \<and> SelfDestructed \<in> ac_status a
        \<and> map_of diff addr = Some c \<and> Touched \<in> ac_status c \<and> committed_info (bb_state_env env) c \<noteq> None)"

lemma builds_append: "builds env b txs b' \<Longrightarrow> builds env b' txs' b'' \<Longrightarrow> builds env b (txs @ txs') b''"
  by (induction rule: builds.induct) (auto intro: builds.add)

lemma builds_leads_to:
  assumes "builds env b txs b'" and "builds env b0 pre b" and "\<not> revives env b0 (pre @ txs) addr"
    and "leads_to (bb_state_env env) st (bu_state_diff b) (bu_state b) addr"
    and "state_reachable (bb_state_env env) st" "is_empty_law (bb_state_env env)" "evm_journal env"
    and "MERGE \<le> into_evm_spec (bu_hardfork b0)"
  shows "leads_to (bb_state_env env) st (bu_state_diff b') (bu_state b') addr"
  using assms
proof (induction arbitrary: pre rule: builds.induct)
  case (add b tx result diff txs b')
  let ?b = "add_transaction_result env b tx result diff"
  have "MERGE \<le> into_evm_spec (bu_hardfork b)" "state_reachable (bb_state_env env) (bu_state b)"
    using builds_frame(3) [OF add.prems(1)] add.prems(3,7) by (simp_all add: leads_to_def)
  then have ok: "diff_ok diff" and j: "\<And>c. map_of diff addr = Some c \<Longrightarrow>
      journal_law (bb_state_env env) (state_basic (bu_state b) addr) (state_storage (bu_state b) addr) c"
    using add.prems(6) add.hyps(2) unfolding evm_journal_def by blast+
  have r: "committed_info (bb_state_env env) c = None"
    if "map_of (bu_state_diff b) addr = Some a" "map_of diff addr = Some c" "SelfDestructed \<in> ac_status a" "Touched \<in> ac_status c"
    for a c
  proof (rule ccontr)
    assume "committed_info (bb_state_env env) c \<noteq> None"
    moreover have "prefix (pre @ [tx]) (pre @ tx # txs)" by simp
    ultimately have "revives env b0 (pre @ tx # txs) addr"
      using add.prems(1) add.hyps(2) that unfolding revives_def by blast
    with add.prems(2) show False by simp
  qed
  have "leads_to (bb_state_env env) st (bu_state_diff ?b) (bu_state ?b) addr"
    using leads_to_commit [OF add.prems(4,5,3) ok j r] by simp
  moreover have "builds env b0 (pre @ [tx]) ?b"
    by (rule builds_append [OF add.prems(1)]) (intro builds.add [OF add.hyps(1,2)] builds.nothing)
  ultimately show ?case using add.IH [of "pre @ [tx]"] add.prems(2,4-7) by simp
qed

text \<open>C14. From the Merge on, the state that mining a block leads to is the one that is computed later from the
  state of its parent and the diff that is stored with the block: the same account, and the same
  storage. It is assumed that the changes that the EVM reports obey the laws of its journal
  (\<open>journal_law\<close>: EIP-161, EIP-684), that in the state of the parent the account has no storage if it has
  neither code nor a nonce (EIP-7610), and that no transaction of the block makes the account again that
  an earlier one destroyed (where the two states do differ).\<close>

theorem mined_state_is_recomputed:
  assumes "pool_inv pool" and "MERGE \<le> into_evm_spec hardfork" and "state_reachable (bb_state_env env) state"
    and "is_empty_law (bb_state_env env)" and "evm_journal env"
    and "storage_law (state_basic state addr) (state_storage state addr)"
    and "block_builder_new env last_block hardfork config state disable (block_inputs_empty hardfork) overrides = Return (Inr b)"
    and "mine_block env flush ltb last_block hardfork config state pool disable overrides min_gas_price ord inspector
      = Some (Return (Inr (built, data)))"
    and "\<not> revives env b (lb_transactions (bt_block built)) addr"
  shows "state_basic (bt_state built) addr = state_basic (state_commit (bb_state_env env) state (bt_state_diff built)) addr
    \<and> state_storage (bt_state built) addr i = state_storage (state_commit (bb_state_env env) state (bt_state_diff built)) addr i"
proof -
  from assms(1,8) obtain b0 txs b' where
    "block_builder_new env last_block hardfork config state disable (block_inputs_empty hardfork) overrides = Return (Inr b0)"
    and txs: "builds env b0 txs b'" "taken_from (pool_iter pool) txs" "\<forall>tx \<in> set txs. min_gas_price \<le> tx_gas_price tx"
    and fin: "finished_block env b' built" by (rule mine_block_parts)
  with assms(7) have "builds env b txs b'" by simp
  note txs = this and b = block_builder_new_fields [OF assms(7)]
  have built: "bt_state built = bu_state b'" "bt_state_diff built = bu_state_diff b'"
    "lb_transactions (bt_block built) = txs"
    using fin assms(2) builds_frame(2,3) [OF txs] b by (simp_all add: finished_block_def Let_def)
  have "leads_to (bb_state_env env) state (bu_state_diff b) (bu_state b) addr"
    using b assms(3,6) account_view_commit [OF diff_ok_Nil assms(3), of addr] by (simp add: leads_to_def)
  from builds_leads_to [OF txs builds.nothing _ this assms(3-5)]
  have "leads_to (bb_state_env env) state (bu_state_diff b') (bu_state b') addr"
    using assms(2,9) b(2) built(3) by simp
  then show ?thesis by (simp add: leads_to_def account_view_def built)
qed

text \<open>An EVM that counts the transactions of an account as its nonce, and refuses the one after the last.\<close>

definition counting_dry_run :: "state_trie \<Rightarrow> transaction \<Rightarrow> (unit, nat, unit) dry_run_result" where
  "counting_dry_run st tx =
     (let info = account_or_default (state_basic st (tx_caller tx))
      in if tx_gas_limit tx < 21000 \<or> ai_nonce info = - 1 then Inl (InvalidTransaction 1)
         else Inr (transfer_result,
                   [(tx_caller tx, \<lparr>ac_info = info\<lparr>ai_nonce := ai_nonce info + 1\<rparr>, ac_storage = [], ac_status = {Touched}\<rparr>)]))"

definition counting_env :: "(unit, nat, u64, unit, nat, unit, unit) builder_env" where
  "counting_env = sample_builder_env\<lparr>bb_dry_run := (\<lambda>st tx _. counting_dry_run st tx),
     bb_dry_run_with_inspector := (\<lambda>st tx _ i. (counting_dry_run st tx, i))\<rparr>"

lemma counting_executed:
  "executed counting_env b tx result diff \<longleftrightarrow> counting_dry_run (bu_state b) tx = Inr (result, diff)"
  by (auto simp: executed_def counting_env_def)

lemma counting_journal: "evm_journal counting_env"
proof -
  have "x + 1 \<noteq> 0" if "x \<noteq> - 1" for x :: u64 using that by (simp add: add_eq_0_iff2)
  then show ?thesis
    by (auto simp: evm_journal_def counting_executed counting_dry_run_def diff_ok_def journal_law_def plain_info_def Let_def
        split: if_splits)
qed

theorem mined_state_is_recomputed_witness:
  "\<exists>built. mine_with counting_env sample_block = Some (Return (Inr (built, [])))
    \<and> lb_transactions (bt_block built) = [sample_tx 1 5 100 77]
    \<and> state_basic (bt_state built) 1 =
        state_basic (state_commit sample_state_env (state_default sample_state_env) (bt_state_diff built)) 1"
proof -
  have st: "state_basic (state_default sample_state_env) addr = None" "state_storage (state_default sample_state_env) addr i = 0" for addr i
    by (simp_all add: state_default_def state_basic_def state_storage_def tries_default_def tries_account_def
        tries_account_storage_slot_def)
  obtain b built where new: "block_builder_new counting_env (Inr sample_block) Shanghai (sample_config Shanghai)
      (state_default sample_state_env) False (block_inputs_empty Shanghai) sample_overrides = Return (Inr b)"
    and built: "mine_with counting_env sample_block = Some (Return (Inr (built, [])))"
      "lb_transactions (bt_block built) = [sample_tx 1 5 100 77]"
    using mine_with_block [OF counting_env_def]
    by (force simp: counting_dry_run_def st account_or_default_def default_account_info_def sample_tx_def Let_def)
  have env: "bb_state_env counting_env = sample_state_env" by (simp add: counting_env_def sample_builder_env_def)
  have "\<not> revives counting_env b [sample_tx 1 5 100 77] 1"
    using block_builder_new_fields(7) [OF new] by (auto simp: revives_def prefix_Cons elim: builds_NilE)
  moreover have "is_empty_law sample_state_env" by (auto simp: is_empty_law_def sample_state_env_def plain_info_def)
  moreover have "storage_law (state_basic (state_default sample_state_env) 1) (state_storage (state_default sample_state_env) 1)"
    by (simp add: storage_law_def st fun_eq_iff)
  ultimately show ?thesis
    using mined_state_is_recomputed [OF pool_inv_sample _ _ _ counting_journal _ new built(1), where addr = 1] built
      state_reachable.default [of sample_state_env]
    by (simp add: env spec_le_simps)
qed

end
