(* ===== verification/Miner_Single.thy ===== *)
theory Miner_Single
  imports Mining_Chain
begin

text \<open>
  Mining one transaction, and the gas limit a block is built with.
\<close>

section \<open>One transaction\<close>

definition priority_fee_of :: "transaction \<Rightarrow> u128" where
  "priority_fee_of tx = unwrap_or (tx_max_priority_fee_per_gas tx) (tx_gas_price tx)"

text \<open>What the checks promise, and the errors they give.\<close>

definition fees_ok :: "transaction \<Rightarrow> header_overrides \<Rightarrow> u128 \<Rightarrow> bool" where
  "fees_ok tx overrides min_gas_price \<longleftrightarrow>
     min_gas_price \<le> priority_fee_of tx
     \<and> (case ho_base_fee overrides of
          None \<Rightarrow> True
        | Some base_fee \<Rightarrow> base_fee \<le> unwrap_or (tx_max_fee_per_gas tx) (tx_gas_price tx))"

fun single_error :: "transaction \<Rightarrow> header_overrides \<Rightarrow> u128 \<Rightarrow> u64 \<Rightarrow> ('d, 'v, 'x, 'r) mine_transaction_error \<Rightarrow> bool" where
  "single_error tx overrides min_gas_price nonce (PriorityFeeTooLow expected actual) \<longleftrightarrow>
     expected = min_gas_price \<and> actual = priority_fee_of tx \<and> actual < expected"
| "single_error tx overrides min_gas_price nonce (MaxFeePerGasTooLow expected actual) \<longleftrightarrow>
     ho_base_fee overrides = Some expected \<and> tx_max_fee_per_gas tx = Some actual \<and> actual < expected"
| "single_error tx overrides min_gas_price nonce (GasPriceTooLow expected actual) \<longleftrightarrow>
     ho_base_fee overrides = Some expected \<and> tx_max_fee_per_gas tx = None \<and> actual = tx_gas_price tx \<and> actual < expected"
| "single_error tx overrides min_gas_price nonce (MaxFeePerBlobGasTooLow expected actual) \<longleftrightarrow>
     tx_max_fee_per_blob_gas tx = Some actual \<and> actual < expected"
| "single_error tx overrides min_gas_price nonce (MineNonceTooHigh expected actual) \<longleftrightarrow>
     expected = nonce \<and> actual = tx_nonce tx \<and> expected < actual"
| "single_error tx overrides min_gas_price nonce (MineNonceTooLow expected actual) \<longleftrightarrow>
     expected = nonce \<and> actual = tx_nonce tx \<and> actual < expected"
| "single_error tx overrides min_gas_price nonce _ \<longleftrightarrow> True"

lemma check_transaction_fees_cases:
  "check_transaction_fees tx overrides min_gas_price = Inl e \<Longrightarrow> single_error tx overrides min_gas_price nonce e"
  "check_transaction_fees tx overrides min_gas_price = Inr u \<Longrightarrow> fees_ok tx overrides min_gas_price"
  by (auto simp: check_transaction_fees_def fees_ok_def priority_fee_of_def unwrap_or_def Let_def not_less
      split: option.splits if_splits)

lemma check_blob_fee_cases:
  "check_blob_fee env tx parent hardfork config = Inl e \<Longrightarrow> single_error tx overrides min_gas_price nonce e"
  by (auto simp: check_blob_fee_def Let_def split: option.splits if_splits)

lemma check_nonce_cases:
  "check_nonce tx sender = Inl e \<Longrightarrow> single_error tx overrides min_gas_price (ai_nonce sender) e"
  "check_nonce tx sender = Inr u \<Longrightarrow> tx_nonce tx = ai_nonce sender"
  by (auto simp: check_nonce_def cmp_def split: ordering.splits if_splits)

text \<open>The execution of the transaction on a new builder.\<close>

lemma single_addition_cases:
  fixes inspector :: "'i option" and env :: "('w, 'bp, 'bx, 'd, 'v, 'x, 'i) builder_env" and tx
  defines "add \<equiv> \<lambda>b. case inspector of
      Some i \<Rightarrow> (let (r, b, i) = add_transaction_with_inspector env b tx i in (r, b)) | None \<Rightarrow> bu_add_transaction env b tx"
  obtains (failed) e where "add b = (Inl e, b)" | (added) b' where "add b = (Inr (), b')" "builds env b [tx] b'"
proof (cases inspector)
  case None
  show thesis
    by (cases rule: builder_addition_cases [of env b tx])
      (use None failed added in \<open>auto simp: add_def intro: builds.add builds.nothing\<close>)
next
  case (Some i)
  show thesis
    by (cases rule: add_with_inspector_cases [of env b tx i])
      (use Some failed added in \<open>auto simp: add_def intro: builds.add builds.nothing\<close>)
qed

lemma single_execution_cases:
  assumes "single_execution env parent hardfork config state tx disable overrides inspector
    = Return (r :: ('d, 'v, 'x, 'r) mine_transaction_error + _)"
  obtains (created) e where "r = Inl (MineBuilderCreation e)" | (failed) e where "r = Inl (MineTransaction e)"
  | (finalize) e where "r = Inl (MineFinalize e)" | (mined) built where "r = Inr built" "lb_transactions (bt_block built) = [tx]"
proof -
  from assms obtain x where
    x: "block_builder_new env (Inr parent) hardfork config state disable (block_inputs_empty hardfork) overrides = Return x"
    by (auto simp: single_execution_def)
  show thesis
  proof (cases x)
    case (Inl e)
    with assms x show thesis by (intro created [of e]) (simp add: single_execution_def)
  next
    case (Inr b)
    note new = x [unfolded Inr]
    show thesis
    proof (cases rule: single_addition_cases [where inspector = inspector and env = env and b = b and tx = tx])
      case (failed e)
      with assms new show thesis by (intro that(2) [of e]) (simp add: single_execution_def)
    next
      case (added b')
      show thesis
      proof (cases "finalize_block env b' :: 'r block_finalize_error + _")
        case (Inl e)
        with assms new added(1) show thesis by (intro finalize [of e]) (simp add: single_execution_def)
      next
        case fin: (Inr built)
        from finalize_block_finished [OF fin] builds_frame(2) [OF added(2)] block_builder_new_fields(4) [OF new]
        have "lb_transactions (bt_block built) = [tx]" by (simp add: finished_block_def Let_def)
        with assms new added(1) fin show thesis by (intro mined [of built]) (simp_all add: single_execution_def)
      qed
    qed
  qed
qed

text \<open>C25. Mining a block with a single transaction: a block that is mined holds exactly that transaction, whose
  nonce is the one of its sender and whose fees cover the minimum and the given base fee; an error
  of the checks names the bound and the value that misses it.\<close>

theorem single_transaction_mined:
  fixes env :: "('w, 'bp, 'bx, 'd, 'v, 'x, 'i) builder_env" and r :: "('d, 'v, 'x, 'r) mine_transaction_error + 'w built_block"
  assumes "mine_block_with_single_transaction env last_block hardfork config state tx disable overrides min_gas_price inspector
    = Return r"
  shows "case r of
      Inr built \<Rightarrow> lb_transactions (bt_block built) = [tx] \<and> fees_ok tx overrides min_gas_price
        \<and> tx_nonce tx = ai_nonce (account_or_default (state_basic state (tx_caller tx)))
    | Inl e \<Rightarrow> single_error tx overrides min_gas_price (ai_nonce (account_or_default (state_basic state (tx_caller tx)))) e"
proof -
  let ?sender = "account_or_default (state_basic state (tx_caller tx))"
    and ?fees = "check_transaction_fees tx overrides min_gas_price :: ('d, 'v, 'x, 'r) mine_transaction_error + unit"
    and ?blob = "\<lambda>parent. check_blob_fee (bb_header_env env) tx parent hardfork config :: ('d, 'v, 'x, 'r) mine_transaction_error + unit"
    and ?nonce = "\<lambda>sender. check_nonce tx sender :: ('d, 'v, 'x, 'r) mine_transaction_error + unit"
  consider e where "?fees = Inl e" | e where "last_block = Inl e" "?fees = Inr ()"
    | parent e where "last_block = Inr parent" "?fees = Inr ()" "?blob parent = Inl e"
    | parent e where "last_block = Inr parent" "?fees = Inr ()" "?blob parent = Inr ()" "?nonce ?sender = Inl e"
    | parent where "last_block = Inr parent" "?fees = Inr ()" "?blob parent = Inr ()" "?nonce ?sender = Inr ()"
    by (cases last_block; cases ?fees; cases "?blob (projr last_block)"; cases "?nonce ?sender"; fastforce)
  then show ?thesis
  proof cases
    case (1 e)
    with assms have "r = Inl e" by (simp add: mine_block_with_single_transaction_def)
    with 1 show ?thesis by (simp add: check_transaction_fees_cases(1))
  next
    case (2 e)
    with assms have "r = Inl (MineBlockchain e)" by (simp add: mine_block_with_single_transaction_def)
    then show ?thesis by simp
  next
    case (3 parent e)
    with assms have "r = Inl e" by (simp add: mine_block_with_single_transaction_def)
    with 3 show ?thesis by (simp add: check_blob_fee_cases)
  next
    case (4 parent e)
    with assms have "r = Inl e" by (simp add: mine_block_with_single_transaction_def)
    with 4 show ?thesis by (simp add: check_nonce_cases(1))
  next
    case (5 parent)
    with assms have "single_execution env parent hardfork config state tx disable overrides inspector = Return r"
      by (simp add: mine_block_with_single_transaction_def)
    then show ?thesis
      by (cases rule: single_execution_cases) (use 5 check_transaction_fees_cases(2) check_nonce_cases(2) in auto)
  qed
qed

theorem single_transaction_mined_witness:
  "mine_block_with_single_transaction sample_builder_env (Inr sample_block) Shanghai (sample_config Shanghai)
      (state_default sample_state_env) (sample_tx 1 5 100 77) False sample_overrides 50 None
     = Return (Inl (MineNonceTooHigh 0 5) :: (unit, nat, unit, unit) mine_transaction_error + _)
   \<and> (0 :: u64) < 5"
proof -
  have "ai_nonce (account_or_default (state_basic (state_default sample_state_env) 1)) = 0"
    by (simp add: state_basic_def state_default_def tries_default_def tries_account_def)
  then have mined: "mine_block_with_single_transaction sample_builder_env (Inr sample_block) Shanghai (sample_config Shanghai)
      (state_default sample_state_env) (sample_tx 1 5 100 77) False sample_overrides 50 None
     = Return (Inl (MineNonceTooHigh 0 5) :: (unit, nat, unit, unit) mine_transaction_error + _)"
    by (simp add: mine_block_with_single_transaction_def check_transaction_fees_def check_blob_fee_def check_nonce_def cmp_def
        sample_tx_def sample_overrides_def unwrap_or_def Let_def)
  from single_transaction_mined [OF this] mined show ?thesis by simp
qed

section \<open>The gas limit of a block\<close>

text \<open>C38. Without a gas limit of its own, a block is executed with a limit of one million, but its header claims
  the limit of its parent: the limit the transactions saw, and that they were checked against, is
  not the one of the block.\<close>

theorem inherited_gas_limit:
  assumes "block_builder_new env (Inr parent) hardfork config state disable inputs overrides = Return (Inr b)"
    and "ho_gas_limit overrides = None" and "builds env b txs b'"
    and "finalize_block env b' = (Inr built :: 'r block_finalize_error + _)"
  shows "be_gas_limit (builder_block_env env b') = 1000000
    \<and> bh_gas_limit (lb_header (bt_block built)) = bh_gas_limit (lb_header parent)"
proof -
  from block_builder_new_fields(1) [OF assms(1)] assms(2) have
    "partial_header_new (bb_header_env env) config (overrides\<lparr>ho_parent_hash := Some (lb_hash parent)\<rparr>)
       (Some (lb_header parent)) (bi_ommers inputs) (bi_withdrawals inputs) = Return (bu_header b)"
    and limit: "bu_parent_gas_limit b = Some (bh_gas_limit (lb_header parent))" by auto
  from partial_header_new_gas(2) [OF this(1)] header_frame_eqD(4) [OF builds_frame(1) [OF assms(3)]] assms(2)
  have "ph_gas_limit (bu_header b') = 1000000" by (simp add: unwrap_or_def)
  with finalize_block_finished [OF assms(4)] builds_frame(5) [OF assms(3)] limit show ?thesis
    by (simp add: finished_block_def builder_block_env_def block_env_of_partial_def unwrap_or_def Let_def)
qed

theorem inherited_gas_limit_witness:
  "\<exists>b built. block_builder_new sample_builder_env (Inr sample_block) Shanghai (sample_config Shanghai)
      (state_default sample_state_env) False (block_inputs_empty Shanghai) (sample_overrides\<lparr>ho_gas_limit := None\<rparr>) = Return (Inr b)
    \<and> finalize_block sample_builder_env b = (Inr built :: unit block_finalize_error + _)
    \<and> be_gas_limit (builder_block_env sample_builder_env b) = 1000000
    \<and> bh_gas_limit (lb_header (bt_block built)) = 30000000"
proof -
  obtain b where new: "block_builder_new sample_builder_env (Inr sample_block) Shanghai (sample_config Shanghai)
      (state_default sample_state_env) False (block_inputs_empty Shanghai) (sample_overrides\<lparr>ho_gas_limit := None\<rparr>) = Return (Inr b)"
    by (auto simp: block_builder_new_def partial_header_new_def next_base_fee_def next_blob_gas_def sample_builder_env_def
        sample_overrides_def no_overrides_def sample_config_def block_inputs_empty_def spec_le_simps unwrap_or_def Let_def)
  obtain built where fin: "finalize_block sample_builder_env b = (Inr built :: unit block_finalize_error + _)"
    using block_builder_new_fields(2) [OF new]
    by (simp add: finalize_block_def bu_finalize_def sample_builder_env_def MAX_RLP_BLOCK_SIZE_def Let_def)
  from inherited_gas_limit [OF new _ builds.nothing fin]
  have "be_gas_limit (builder_block_env sample_builder_env b) = 1000000
    \<and> bh_gas_limit (lb_header (bt_block built)) = 30000000"
    by (simp add: sample_block_def sample_header_def)
  with new fin show ?thesis by blast
qed

end
