(* ===== verification/Gas_Estimation.thy ===== *)
theory Gas_Estimation
  imports Transactions
begin

text \<open>
  Gas estimation (\<^verbatim>\<open>crates/edr_provider/src/data/gas.rs\<close>): the transaction is executed with its own
  gas limit first, then with what it used, and then a bisection searches for a limit that is
  accepted. The execution by the EVM, with everything the context holds besides the transaction, is
  a parameter; a trace is the part of it that the code reads.
\<close>

section \<open>Executions and their traces\<close>

datatype gas_estimation_mode = TopLevelSuccess | NoInternalOutOfGas

datatype include_traces = TracesNone | TracesFailing | TracesAll

definition should_include :: "include_traces \<Rightarrow> bool \<Rightarrow> bool" where
  "should_include incl was_failure =
     (case incl of TracesNone \<Rightarrow> False | TracesFailing \<Rightarrow> was_failure | TracesAll \<Rightarrow> True)"

text \<open>The results of an instruction, of which the code tells those apart that are out of gas.\<close>

datatype instruction_result =
    OutOfGas | MemoryOOG | MemoryLimitOOG | PrecompileOOG | InvalidOperandOOG | ReentrancySentryOOG
  | OtherResult nat

record call_trace_node =
  cn_parent :: "nat option"
  cn_status :: "instruction_result option"

type_synonym call_trace_arena = "call_trace_node list"

datatype 'h evm_result = Success u64 | Revert "8 word list" | Halt 'h

fun is_success :: "'h evm_result \<Rightarrow> bool" where
  "is_success (Success gas) = True"
| "is_success _ = False"

fun is_oog :: "instruction_result option \<Rightarrow> bool" where
  "is_oog (Some (OtherResult n)) = False"
| "is_oog (Some _) = True"
| "is_oog None = False"

definition has_internal_oog :: "call_trace_arena \<Rightarrow> bool" where
  "has_internal_oog arena = list_ex (\<lambda>node. cn_parent node \<noteq> None \<and> is_oog (cn_status node)) arena"

definition mode_accepts :: "gas_estimation_mode \<Rightarrow> 'h evm_result \<Rightarrow> call_trace_arena \<Rightarrow> bool" where
  "mode_accepts mode result traces =
     (case mode of
        TopLevelSuccess \<Rightarrow> is_success result
      | NoInternalOutOfGas \<Rightarrow> is_success result \<and> \<not> has_internal_oog traces)"

section \<open>Failures\<close>

datatype 'h transaction_failure = FailureRevert "8 word list" | FailureHalt 'h | FailureInternalCallOutOfGas

datatype ('h, 'e) estimate_gas_error =
    EstimateGasFailure "'h transaction_failure" call_trace_arena
  | ExecutionError 'e

definition accepted_gas_used ::
  "gas_estimation_mode \<Rightarrow> u64 \<Rightarrow> call_trace_arena \<Rightarrow> 'h transaction_failure + u64" where
  "accepted_gas_used mode gas traces =
     (case mode of
        TopLevelSuccess \<Rightarrow> Inr gas
      | NoInternalOutOfGas \<Rightarrow> if has_internal_oog traces then Inl FailureInternalCallOutOfGas else Inr gas)"

section \<open>Executing with a gas limit\<close>

text \<open>\<open>gc_run_call\<close> is \<^verbatim>\<open>observe_execution\<close> of \<^verbatim>\<open>run_call\<close>: the result and the traces, or an error.\<close>

record ('h, 'e) gas_call_context =
  gc_run_call :: "transaction \<Rightarrow> 'e + 'h evm_result \<times> call_trace_arena"
  gc_transaction :: transaction

definition run_with_gas_limit :: "('h, 'e) gas_call_context \<Rightarrow> u64 \<Rightarrow> 'e + 'h evm_result \<times> call_trace_arena" where
  "run_with_gas_limit ctx gas_limit = gc_run_call ctx ((gc_transaction ctx)\<lparr>tx_gas_limit := gas_limit\<rparr>)"

record estimate_gas_result =
  eg_call_trace_arenas :: "call_trace_arena list"
  eg_estimation :: u64

text \<open>\<open>GasMeasurement\<close> and \<open>GasProbe\<close> are pairs with an optional trace.\<close>

definition measure_gas_with_full_limit ::
  "('h, 'e) gas_call_context \<Rightarrow> include_traces \<Rightarrow> gas_estimation_mode
     \<Rightarrow> ('h, 'e) estimate_gas_error + u64 \<times> call_trace_arena option" where
  "measure_gas_with_full_limit ctx incl mode =
     (case gc_run_call ctx (gc_transaction ctx) of
        Inl e \<Rightarrow> Inl (ExecutionError e)
      | Inr (result, traces) \<Rightarrow>
          (case (case result of
                   Success gas \<Rightarrow> accepted_gas_used mode gas traces
                 | Revert output \<Rightarrow> Inl (FailureRevert output)
                 | Halt reason \<Rightarrow> Inl (FailureHalt reason)) of
             Inl failure \<Rightarrow> Inl (EstimateGasFailure failure traces)
           | Inr gas_used \<Rightarrow> Inr (gas_used, if should_include incl False then Some traces else None)))"

definition probe_gas_limit ::
  "('h, 'e) gas_call_context \<Rightarrow> include_traces \<Rightarrow> u64 \<Rightarrow> gas_estimation_mode
     \<Rightarrow> ('h, 'e) estimate_gas_error + bool \<times> call_trace_arena option" where
  "probe_gas_limit ctx incl gas_limit mode =
     (case run_with_gas_limit ctx gas_limit of
        Inl e \<Rightarrow> Inl (ExecutionError e)
      | Inr (result, traces) \<Rightarrow>
          (let accepted = mode_accepts mode result traces
           in Inr (accepted, if should_include incl (\<not> accepted) then Some traces else None)))"

section \<open>The bisection\<close>

definition min_difference :: "u64 \<Rightarrow> u64" where
  "min_difference lower_bound =
     (if 4000000 \<le> lower_bound then 50000
      else if 1000000 \<le> lower_bound then 10000
      else if 100000 \<le> lower_bound then 1000
      else if 50000 \<le> lower_bound then 500
      else if 30000 \<le> lower_bound then 300
      else 200)"

definition MAX_ITERATIONS :: nat where
  "MAX_ITERATIONS = 20"

definition extend_traces :: "call_trace_arena list \<Rightarrow> call_trace_arena option \<Rightarrow> call_trace_arena list" where
  "extend_traces arenas t = (case t of None \<Rightarrow> arenas | Some a \<Rightarrow> arenas @ [a])"

text \<open>The gas limit that is tried next. The first one stays close to the lower bound.\<close>

definition next_mid :: "u64 \<Rightarrow> u64 \<Rightarrow> nat \<Rightarrow> u64" where
  "next_mid lower_bound upper_bound i =
     (let mid = lower_bound + (upper_bound - lower_bound) div 2
      in if i = 0 then min mid (3 * lower_bound) else mid)"

function binary_search_loop ::
  "('h, 'e) gas_call_context \<Rightarrow> include_traces \<Rightarrow> gas_estimation_mode \<Rightarrow> u64 \<Rightarrow> u64 \<Rightarrow> nat \<Rightarrow> call_trace_arena list
     \<Rightarrow> ('h, 'e) estimate_gas_error + estimate_gas_result" where
  "binary_search_loop ctx incl mode lower_bound upper_bound i arenas =
     (if min_difference lower_bound < upper_bound - lower_bound \<and> i < MAX_ITERATIONS
      then
        (let mid = next_mid lower_bound upper_bound i
         in case probe_gas_limit ctx incl mid mode of
              Inl e \<Rightarrow> Inl e
            | Inr (accepted, call_trace) \<Rightarrow>
                (if accepted
                 then binary_search_loop ctx incl mode lower_bound mid (Suc i) (extend_traces arenas call_trace)
                 else binary_search_loop ctx incl mode (mid + 1) upper_bound (Suc i) (extend_traces arenas call_trace)))
      else Inr \<lparr>eg_call_trace_arenas = arenas, eg_estimation = upper_bound\<rparr>)"
  by pat_completeness auto
termination
  by (relation "measure (\<lambda>(_, _, _, _, _, i, _). MAX_ITERATIONS - i)") auto

declare binary_search_loop.simps [simp del]

definition binary_search_estimation ::
  "('h, 'e) gas_call_context \<Rightarrow> u64 \<Rightarrow> u64 \<Rightarrow> include_traces \<Rightarrow> gas_estimation_mode
     \<Rightarrow> ('h, 'e) estimate_gas_error + estimate_gas_result" where
  "binary_search_estimation ctx lower_bound upper_bound incl mode =
     binary_search_loop ctx incl mode lower_bound upper_bound 0 []"

definition estimate_gas ::
  "('h, 'e) gas_call_context \<Rightarrow> u64 \<Rightarrow> include_traces \<Rightarrow> gas_estimation_mode
     \<Rightarrow> ('h, 'e) estimate_gas_error + estimate_gas_result" where
  "estimate_gas ctx minimum_cost incl mode =
     (case measure_gas_with_full_limit ctx incl mode of
        Inl e \<Rightarrow> Inl e
      | Inr (gas_used, call_trace) \<Rightarrow>
          (let arenas = extend_traces [] call_trace;
               lowest_estimation = max gas_used (minimum_cost + 1)
           in case probe_gas_limit ctx incl lowest_estimation mode of
                Inl e \<Rightarrow> Inl e
              | Inr (accepted, call_trace) \<Rightarrow>
                  (let arenas = extend_traces arenas call_trace
                   in if accepted then Inr \<lparr>eg_call_trace_arenas = arenas, eg_estimation = lowest_estimation\<rparr>
                      else
                        (case binary_search_estimation ctx lowest_estimation (tx_gas_limit (gc_transaction ctx))
                                incl mode of
                           Inl e \<Rightarrow> Inl e
                         | Inr r \<Rightarrow> Inr \<lparr>eg_call_trace_arenas = arenas @ eg_call_trace_arenas r,
                                         eg_estimation = eg_estimation r\<rparr>))))"

section \<open>What an estimation promises\<close>

text \<open>A gas limit with which the mode accepts the execution of the transaction.\<close>

definition accepted_at :: "('h, 'e) gas_call_context \<Rightarrow> gas_estimation_mode \<Rightarrow> u64 \<Rightarrow> bool" where
  "accepted_at ctx mode gas_limit \<longleftrightarrow>
     (case run_with_gas_limit ctx gas_limit of
        Inl _ \<Rightarrow> False
      | Inr (result, traces) \<Rightarrow> mode_accepts mode result traces)"

lemma probe_accepted:
  "probe_gas_limit ctx incl g mode = Inr (accepted, t) \<Longrightarrow> accepted \<longleftrightarrow> accepted_at ctx mode g"
  by (auto simp: probe_gas_limit_def accepted_at_def Let_def split: sum.splits)

lemma measured_accepted:
  assumes "measure_gas_with_full_limit ctx incl mode = Inr (gas, t)"
  shows "accepted_at ctx mode (tx_gas_limit (gc_transaction ctx))"
  using assms
  by (auto simp: measure_gas_with_full_limit_def accepted_at_def run_with_gas_limit_def mode_accepts_def accepted_gas_used_def
      split: sum.splits evm_result.splits gas_estimation_mode.splits if_splits)

lemma binary_search_accepted:
  assumes "binary_search_loop ctx incl mode l u i arenas = Inr r" and "accepted_at ctx mode u"
  shows "accepted_at ctx mode (eg_estimation r)"
  using assms
proof (induction ctx incl mode l u i arenas rule: binary_search_loop.induct)
  case (1 ctx incl mode l u i arenas)
  let ?mid = "next_mid l u i"
  show ?case
  proof (cases "min_difference l < u - l \<and> i < MAX_ITERATIONS")
    case False
    with "1.prems" show ?thesis by (auto simp: binary_search_loop.simps [of _ _ _ l])
  next
    case True
    obtain accepted t where p: "probe_gas_limit ctx incl ?mid mode = Inr (accepted, t)"
      using "1.prems"(1) True by (auto simp: binary_search_loop.simps [of _ _ _ l] Let_def split: sum.splits)
    note unfold = binary_search_loop.simps [of ctx incl mode l u i arenas]
    show ?thesis
    proof (cases accepted)
      case acc: True
      show ?thesis by (rule "1.IH"(1) [OF True refl p refl acc])
          (use "1.prems"(1) True p acc probe_accepted [OF p] in \<open>auto simp: unfold Let_def\<close>)
    next
      case rej: False
      show ?thesis by (rule "1.IH"(2) [OF True refl p refl rej])
          (use "1.prems" True p rej in \<open>auto simp: unfold Let_def\<close>)
    qed
  qed
qed

text \<open>C17. An estimation is a gas limit with which the execution was seen to be accepted.\<close>

theorem estimate_gas_accepted:
  assumes "estimate_gas ctx minimum_cost incl mode = Inr r"
  shows "accepted_at ctx mode (eg_estimation r)"
proof -
  from assms obtain gas t accepted t' where m: "measure_gas_with_full_limit ctx incl mode = Inr (gas, t)"
    and p: "probe_gas_limit ctx incl (max gas (minimum_cost + 1)) mode = Inr (accepted, t')"
    by (auto simp: estimate_gas_def Let_def split: sum.splits)
  show ?thesis
  proof (cases accepted)
    case True
    with assms m p probe_accepted [OF p] show ?thesis by (auto simp: estimate_gas_def Let_def)
  next
    case False
    with assms m p obtain r' where r': "binary_search_estimation ctx (max gas (minimum_cost + 1))
        (tx_gas_limit (gc_transaction ctx)) incl mode = Inr r'" "eg_estimation r = eg_estimation r'"
      by (auto simp: estimate_gas_def Let_def split: sum.splits)
    from binary_search_accepted [OF r'(1) [unfolded binary_search_estimation_def] measured_accepted [OF m]] r'(2)
    show ?thesis by simp
  qed
qed

section \<open>How close an estimation is\<close>

lemma min_difference_mono: "l \<le> t \<Longrightarrow> min_difference l \<le> min_difference t"
  by (auto simp: min_difference_def dest: order_trans)

lemma min_difference_ge: "200 \<le> unat (min_difference l)"
  by (simp add: min_difference_def)

lemma next_mid_bounds:
  assumes "unat l < unat u" and "unat u < 2 ^ 62"
  shows "unat l \<le> unat (next_mid l u i)" and "unat (next_mid l u i) < unat u"
    and "unat (next_mid l u i) - unat l \<le> (unat u - unat l) div 2"
    and "i \<noteq> 0 \<Longrightarrow> unat u - Suc (unat (next_mid l u i)) \<le> (unat u - unat l) div 2"
proof -
  have ul: "unat (u - l) = unat u - unat l" using assms(1) by (simp add: unat_sub_le word_le_nat_alt)
  have half: "unat ((u - l) div 2) = (unat u - unat l) div 2" by (simp add: unat_div ul)
  have mid: "unat (l + (u - l) div 2) = unat l + (unat u - unat l) div 2"
    using assms half by (simp add: unat_add_no_overflow)
  have three: "unat (3 * l) = 3 * unat l" using assms by (simp add: unat_mult_no_overflow)
  have "unat (next_mid l u i) = (if i = 0 then min (unat l + (unat u - unat l) div 2) (3 * unat l)
      else unat l + (unat u - unat l) div 2)"
    using mid three by (auto simp: next_mid_def min_def Let_def word_le_nat_alt)
  with assms(1) show "unat l \<le> unat (next_mid l u i)" "unat (next_mid l u i) < unat u"
    "unat (next_mid l u i) - unat l \<le> (unat u - unat l) div 2"
    "i \<noteq> 0 \<Longrightarrow> unat u - Suc (unat (next_mid l u i)) \<le> (unat u - unat l) div 2"
    by (auto simp: min_def split: if_splits)
qed

text \<open>The bounds enclose the least accepted limit, and from the second round on their distance is
  halved in every round.\<close>

definition bounds_ok :: "u64 \<Rightarrow> u64 \<Rightarrow> u64 \<Rightarrow> nat \<Rightarrow> bool" where
  "bounds_ok t l u i \<longleftrightarrow> unat l \<le> unat t \<and> unat t \<le> unat u \<and> (unat u - unat l) * 2 ^ (i - 1) \<le> 200 * 2 ^ 19"

lemma bounds_ok_final:
  assumes "bounds_ok t l u i" and "\<not> (min_difference l < u - l \<and> i < MAX_ITERATIONS)"
  shows "unat u - unat t \<le> unat (min_difference t)"
proof -
  have b: "unat l \<le> unat t" "unat t \<le> unat u" "(unat u - unat l) * 2 ^ (i - 1) \<le> 200 * 2 ^ 19"
    using assms(1) by (simp_all add: bounds_ok_def)
  have "unat u - unat l \<le> unat (min_difference l)"
  proof (cases "i < MAX_ITERATIONS")
    case True
    have "unat (u - l) = unat u - unat l" using b by (simp add: unat_sub_le word_le_nat_alt)
    with assms(2) True show ?thesis by (simp add: not_less word_le_nat_alt)
  next
    case False
    then have "(2::nat) ^ 19 \<le> 2 ^ (i - 1)" by (intro power_increasing) (simp_all add: MAX_ITERATIONS_def)
    then have "(unat u - unat l) * 2 ^ 19 \<le> (unat u - unat l) * 2 ^ (i - 1)" by (rule mult_left_mono) simp
    with b(3) have "(unat u - unat l) * 2 ^ 19 \<le> 200 * 2 ^ 19" by linarith
    then have "unat u - unat l \<le> 200" by simp
    with min_difference_ge [of l] show ?thesis by linarith
  qed
  moreover have "unat (min_difference l) \<le> unat (min_difference t)"
    using min_difference_mono [of l t] b(1) by (simp add: word_le_nat_alt)
  ultimately show ?thesis using b(1) by linarith
qed

lemma bounds_ok_step:
  assumes "bounds_ok t l u i" and "unat u < 2 ^ 62" and "min_difference l < u - l"
  defines "mid \<equiv> next_mid l u i"
  shows "t \<le> mid \<Longrightarrow> bounds_ok t l mid (Suc i)" and "\<not> t \<le> mid \<Longrightarrow> bounds_ok t (mid + 1) u (Suc i)"
    and "unat mid < unat u"
proof -
  have b: "unat l \<le> unat t" "unat t \<le> unat u" "(unat u - unat l) * 2 ^ (i - 1) \<le> 200 * 2 ^ 19"
    using assms(1) by (simp_all add: bounds_ok_def)
  have "unat (u - l) = unat u - unat l" using b by (simp add: unat_sub_le word_le_nat_alt)
  with assms(3) have lu: "unat l < unat u" by (simp add: word_less_nat_alt)
  note mid = next_mid_bounds [OF lu assms(2), of i, folded mid_def]
  show "unat mid < unat u" by (rule mid(2))
  have half: "w * 2 ^ i \<le> 200 * 2 ^ 19" if "w \<le> (unat u - unat l) div 2" for w
  proof (cases i)
    case 0
    with that b(3) show ?thesis by simp
  next
    case (Suc j)
    have "w * 2 ^ i = (2 * w) * 2 ^ j" using Suc by simp
    also have "\<dots> \<le> (unat u - unat l) * 2 ^ j" using that by (intro mult_right_mono) simp_all
    also have "\<dots> \<le> 200 * 2 ^ 19" using b(3) Suc by simp
    finally show ?thesis .
  qed
  show "bounds_ok t l mid (Suc i)" if "t \<le> mid"
    using that b half [OF mid(3)] by (simp add: bounds_ok_def word_le_nat_alt)
  show "bounds_ok t (mid + 1) u (Suc i)" if "\<not> t \<le> mid"
  proof -
    have m1: "unat (mid + 1) = Suc (unat mid)" using mid(2) assms(2) by (simp add: unat_add_no_overflow)
    have "(unat u - Suc (unat mid)) * 2 ^ i \<le> 200 * 2 ^ 19"
    proof (cases "i = 0")
      case True
      with b(3) mid(1) show ?thesis by simp
    next
      case False
      from half [OF mid(4) [OF this]] show ?thesis .
    qed
    with that b m1 show ?thesis by (simp add: bounds_ok_def word_le_nat_alt not_le)
  qed
qed

lemma binary_search_close:
  assumes "binary_search_loop ctx incl mode l u i arenas = Inr r"
    and "\<And>g. g \<le> u \<Longrightarrow> accepted_at ctx mode g \<longleftrightarrow> t \<le> g" and "unat u < 2 ^ 62" and "bounds_ok t l u i"
  shows "t \<le> eg_estimation r \<and> unat (eg_estimation r) - unat t \<le> unat (min_difference t)"
  using assms
proof (induction ctx incl mode l u i arenas rule: binary_search_loop.induct)
  case (1 ctx incl mode l u i arenas)
  let ?mid = "next_mid l u i"
  note unfold = binary_search_loop.simps [of ctx incl mode l u i arenas]
  show ?case
  proof (cases "min_difference l < u - l \<and> i < MAX_ITERATIONS")
    case False
    with "1.prems"(1) have "eg_estimation r = u" by (auto simp: unfold)
    with bounds_ok_final [OF "1.prems"(4) False] "1.prems"(4) show ?thesis by (simp add: bounds_ok_def word_le_nat_alt)
  next
    case True
    obtain accepted tr where p: "probe_gas_limit ctx incl ?mid mode = Inr (accepted, tr)"
      using "1.prems"(1) True by (auto simp: unfold Let_def split: sum.splits)
    note step = bounds_ok_step [OF "1.prems"(4,3) conjunct1 [OF True]]
    have mid: "?mid \<le> u" using step(3) by (simp add: word_le_nat_alt)
    then have acc: "accepted \<longleftrightarrow> t \<le> ?mid" using probe_accepted [OF p] "1.prems"(2) by blast
    show ?thesis
    proof (cases accepted)
      case a: True
      have "accepted_at ctx mode g \<longleftrightarrow> t \<le> g" if "g \<le> ?mid" for g
        using "1.prems"(2) order_trans [OF that mid] by blast
      moreover have "unat ?mid < 2 ^ 62" using step(3) "1.prems"(3) by linarith
      moreover have "bounds_ok t l ?mid (Suc i)" using step(1) acc a by blast
      moreover have "binary_search_loop ctx incl mode l ?mid (Suc i) (extend_traces arenas tr) = Inr r"
        using "1.prems"(1) True p a by (simp add: unfold Let_def)
      ultimately show ?thesis using "1.IH"(1) [OF True refl p refl a] by blast
    next
      case rej: False
      have "bounds_ok t (?mid + 1) u (Suc i)" using step(2) acc rej by blast
      moreover have "binary_search_loop ctx incl mode (?mid + 1) u (Suc i) (extend_traces arenas tr) = Inr r"
        using "1.prems"(1) True p rej by (simp add: unfold Let_def)
      ultimately show ?thesis using "1.IH"(2) [OF True refl p refl rej] "1.prems"(2,3) by blast
    qed
  qed
qed

text \<open>C21. Where acceptance only depends on having enough gas, the estimation is never below the least
  accepted limit. It is the gas that the first execution used, or the minimum cost plus one, if
  that is accepted; otherwise it exceeds the least accepted limit by no more than the tolerance.
  This holds for gas limits of up to a hundred million; the twenty rounds are enough for them.\<close>

theorem estimate_gas_close:
  assumes "estimate_gas ctx minimum_cost incl mode = Inr r"
    and "measure_gas_with_full_limit ctx incl mode = Inr (gas_used, tr)"
    and "\<forall>g \<le> tx_gas_limit (gc_transaction ctx). accepted_at ctx mode g \<longleftrightarrow> t \<le> g"
    and "gas_used \<le> tx_gas_limit (gc_transaction ctx)" and "minimum_cost < tx_gas_limit (gc_transaction ctx)"
    and "unat (tx_gas_limit (gc_transaction ctx)) \<le> 200 * 2 ^ 19"
  shows "t \<le> eg_estimation r
    \<and> (eg_estimation r = max gas_used (minimum_cost + 1)
       \<or> unat (eg_estimation r) - unat t \<le> unat (min_difference t))"
proof -
  let ?limit = "tx_gas_limit (gc_transaction ctx)" and ?low = "max gas_used (minimum_cost + 1)"
  have "unat minimum_cost + 1 < 2 ^ 64" using assms(5,6) by (simp add: word_less_nat_alt)
  then have "unat (minimum_cost + 1) = unat minimum_cost + 1" by (simp add: unat_add_no_overflow)
  with assms(4,5) have low: "?low \<le> ?limit" by (simp add: word_le_nat_alt word_less_nat_alt)
  have t: "t \<le> ?limit" using measured_accepted [OF assms(2)] assms(3) by blast
  from assms(1,2) obtain accepted tr' where p: "probe_gas_limit ctx incl ?low mode = Inr (accepted, tr')"
    by (auto simp: estimate_gas_def Let_def split: sum.splits)
  have acc: "accepted \<longleftrightarrow> t \<le> ?low" using probe_accepted [OF p] assms(3) low by blast
  show ?thesis
  proof (cases accepted)
    case True
    then have "eg_estimation r = ?low" using assms(1,2) p by (auto simp: estimate_gas_def Let_def)
    with acc True show ?thesis by simp
  next
    case False
    then obtain r' where r': "binary_search_loop ctx incl mode ?low ?limit 0 [] = Inr r'" "eg_estimation r = eg_estimation r'"
      using assms(1,2) p by (auto simp: estimate_gas_def binary_search_estimation_def Let_def split: sum.splits)
    have "bounds_ok t ?low ?limit 0"
      using acc False t assms(6) by (auto simp: bounds_ok_def word_le_nat_alt not_le)
    moreover have "unat ?limit < 2 ^ 62" using assms(6) by simp
    ultimately show ?thesis using binary_search_close [OF r'(1)] assms(3) r'(2) by auto
  qed
qed

lemma binary_search_total:
  assumes "\<And>g. low \<le> g \<Longrightarrow> g \<le> u \<Longrightarrow> \<exists>a t. probe_gas_limit ctx incl g mode = Inr (a, t)"
    and "low \<le> l" and "l \<le> u" and "unat u < 2 ^ 62"
  shows "\<exists>r. binary_search_loop ctx incl mode l u i arenas = Inr r"
  using assms
proof (induction "MAX_ITERATIONS - i" arbitrary: l u i arenas)
  case 0
  then show ?case by (simp add: binary_search_loop.simps [of _ _ _ l])
next
  case (Suc n)
  let ?mid = "next_mid l u i"
  note unfold = binary_search_loop.simps [of ctx incl mode l u i arenas]
  show ?case
  proof (cases "min_difference l < u - l")
    case False
    then show ?thesis by (simp add: unfold)
  next
    case True
    have "unat (u - l) = unat u - unat l" using Suc.prems(3) by (simp add: unat_sub_le word_le_nat_alt)
    with True have "unat l < unat u" by (simp add: word_less_nat_alt)
    note mid = next_mid_bounds(1,2) [OF this Suc.prems(4), of i]
    have m1: "unat (?mid + 1) = Suc (unat ?mid)" using mid(2) Suc.prems(4) by (simp add: unat_add_no_overflow)
    have bounds: "low \<le> ?mid" "?mid \<le> u" "l \<le> ?mid" "low \<le> ?mid + 1" "?mid + 1 \<le> u" "unat ?mid < 2 ^ 62"
      using mid m1 Suc.prems(2,4) by (auto simp: word_le_nat_alt)
    from Suc.prems(1) [OF bounds(1,2)] obtain a t where p: "probe_gas_limit ctx incl ?mid mode = Inr (a, t)" by blast
    have n: "n = MAX_ITERATIONS - Suc i" using Suc.hyps(2) by simp
    have "\<exists>r. binary_search_loop ctx incl mode l ?mid (Suc i) arenas' = Inr r" for arenas'
      using Suc.hyps(1) [OF n, of ?mid l] Suc.prems(1,2) bounds(2,3,6) order_trans [OF _ bounds(2)] by blast
    moreover have "\<exists>r. binary_search_loop ctx incl mode (?mid + 1) u (Suc i) arenas' = Inr r" for arenas'
      using Suc.hyps(1) [OF n, of u "?mid + 1"] Suc.prems(1,4) bounds(4,5) by blast
    ultimately show ?thesis using p by (simp add: unfold Let_def)
  qed
qed

lemma estimate_gas_total:
  assumes "accepted_at ctx mode (tx_gas_limit (gc_transaction ctx))"
    and "\<forall>g. minimum_cost < g \<and> g \<le> tx_gas_limit (gc_transaction ctx) \<longrightarrow> (\<exists>x. run_with_gas_limit ctx g = Inr x)"
    and "minimum_cost < tx_gas_limit (gc_transaction ctx)" and "unat (tx_gas_limit (gc_transaction ctx)) < 2 ^ 62"
    and "\<forall>gas traces. gc_run_call ctx (gc_transaction ctx) = Inr (Success gas, traces)
      \<longrightarrow> gas \<le> tx_gas_limit (gc_transaction ctx)"
  shows "\<exists>r. estimate_gas ctx minimum_cost incl mode = Inr r"
proof -
  let ?limit = "tx_gas_limit (gc_transaction ctx)"
  have min: "unat (minimum_cost + 1) = unat minimum_cost + 1"
    using assms(3,4) by (simp add: unat_add_no_overflow word_less_nat_alt)
  have probe: "\<exists>a t. probe_gas_limit ctx incl g mode = Inr (a, t)" if "minimum_cost + 1 \<le> g" "g \<le> ?limit" for g
    using assms(2) [rule_format, of g] that min
    by (auto simp: probe_gas_limit_def Let_def word_le_nat_alt word_less_nat_alt split: sum.splits)
  from assms(1) obtain result traces where run: "gc_run_call ctx (gc_transaction ctx) = Inr (result, traces)"
    and ok: "mode_accepts mode result traces"
    by (auto simp: accepted_at_def run_with_gas_limit_def split: sum.splits)
  obtain gas t where m: "measure_gas_with_full_limit ctx incl mode = Inr (gas, t)" and "gas \<le> ?limit"
    using run ok assms(5) by (cases mode; cases result)
      (auto simp: measure_gas_with_full_limit_def mode_accepts_def accepted_gas_used_def)
  then have "max gas (minimum_cost + 1) \<le> ?limit"
    using min assms(3) by (simp add: word_le_nat_alt word_less_nat_alt)
  note low = max.cobounded2 [of "minimum_cost + 1" gas] this
  obtain a t' where "probe_gas_limit ctx incl (max gas (minimum_cost + 1)) mode = Inr (a, t')" using probe [OF low] by blast
  moreover obtain r where "binary_search_estimation ctx (max gas (minimum_cost + 1)) ?limit incl mode = Inr r"
    unfolding binary_search_estimation_def using binary_search_total [OF probe low assms(4)] by blast
  ultimately show ?thesis using m by (auto simp: estimate_gas_def Let_def)
qed

text \<open>C22. An estimation is given whenever the transaction is accepted with its own gas limit and the EVM
  returns a result, of whatever kind, for each limit above the minimum cost and up to the
  transaction's own: the search comes to an end with a result and tries no other limit. The
  transaction's limit is above the minimum cost and below \<open>2^62\<close>, and a
  successful execution uses no more gas than its limit.\<close>

theorem estimate_gas_returns:
  assumes "accepted_at ctx mode (tx_gas_limit (gc_transaction ctx))"
    and "\<forall>g. minimum_cost < g \<and> g \<le> tx_gas_limit (gc_transaction ctx) \<longrightarrow> (\<exists>x. run_with_gas_limit ctx g = Inr x)"
    and "minimum_cost < tx_gas_limit (gc_transaction ctx)" and "unat (tx_gas_limit (gc_transaction ctx)) < 2 ^ 62"
    and "\<forall>gas traces. gc_run_call ctx (gc_transaction ctx) = Inr (Success gas, traces)
      \<longrightarrow> gas \<le> tx_gas_limit (gc_transaction ctx)"
  shows "\<exists>r. estimate_gas ctx minimum_cost incl mode = Inr r"
  using assms by (rule estimate_gas_total)

text \<open>A transaction that uses 30000 gas and needs a limit of 40000, as one with a refund does. A limit
  below 21000 does not cover its initial cost and is an error.\<close>

definition refund_context :: "(unit, unit) gas_call_context" where
  "refund_context =
     \<lparr>gc_run_call = (\<lambda>tx. if tx_gas_limit tx < 21000 then Inl ()
                       else Inr (if tx_gas_limit tx < 40000 then Halt () else Success 30000, [])),
      gc_transaction = (sample_tx 1 5 100 77)\<lparr>tx_gas_limit := 1000000\<rparr>\<rparr>"

lemma refund_accepted: "accepted_at refund_context mode g \<longleftrightarrow> 40000 \<le> g"
proof -
  have "\<not> g < 21000" if "40000 \<le> g" using that by (auto simp: not_less intro: order_trans [of 21000 40000])
  then show ?thesis
    by (cases mode) (auto simp: accepted_at_def run_with_gas_limit_def refund_context_def mode_accepts_def has_internal_oog_def)
qed

lemma refund_measured: "measure_gas_with_full_limit refund_context TracesNone TopLevelSuccess = Inr (30000, None)"
  by (simp add: measure_gas_with_full_limit_def refund_context_def accepted_gas_used_def should_include_def)

lemma refund_limit [simp]: "tx_gas_limit (gc_transaction refund_context) = 1000000"
  by (simp add: refund_context_def)

lemma refund_conditions:
  "accepted_at refund_context TopLevelSuccess (tx_gas_limit (gc_transaction refund_context))"
  "\<forall>g. 21000 < g \<and> g \<le> tx_gas_limit (gc_transaction refund_context) \<longrightarrow> (\<exists>x. run_with_gas_limit refund_context g = Inr x)"
  "21000 < tx_gas_limit (gc_transaction refund_context)" "unat (tx_gas_limit (gc_transaction refund_context)) < 2 ^ 62"
  "\<forall>gas traces. gc_run_call refund_context (gc_transaction refund_context) = Inr (Success gas, traces)
     \<longrightarrow> gas \<le> tx_gas_limit (gc_transaction refund_context)"
  by (auto simp: refund_accepted run_with_gas_limit_def) (auto simp: refund_context_def)

theorem estimate_gas_returns_witness:
  "\<exists>r. estimate_gas refund_context 21000 TracesNone TopLevelSuccess = Inr r"
  by (rule estimate_gas_returns [OF refund_conditions])

lemma refund_estimated: "\<exists>r. estimate_gas refund_context 21000 TracesNone TopLevelSuccess = Inr r"
  by (rule estimate_gas_total [OF refund_conditions])

theorem estimate_gas_accepted_witness:
  "\<exists>r. estimate_gas refund_context 21000 TracesNone TopLevelSuccess = Inr r
    \<and> accepted_at refund_context TopLevelSuccess (eg_estimation r)"
  using refund_estimated estimate_gas_accepted by blast

theorem estimate_gas_close_witness:
  "\<exists>r. estimate_gas refund_context 21000 TracesNone TopLevelSuccess = Inr r
    \<and> (40000 :: u64) \<le> eg_estimation r
    \<and> (eg_estimation r = 30000 \<or> unat (eg_estimation r) - 40000 \<le> 300)"
proof -
  obtain r where r: "estimate_gas refund_context 21000 TracesNone TopLevelSuccess = Inr r" using refund_estimated by blast
  have "\<forall>g \<le> tx_gas_limit (gc_transaction refund_context). accepted_at refund_context TopLevelSuccess g \<longleftrightarrow> 40000 \<le> g"
    by (simp add: refund_accepted)
  from estimate_gas_close [OF r refund_measured this] r show ?thesis
    by (auto simp: min_difference_def)
qed

end
