(* ===== verification/Filters.thy ===== *)
theory Filters
  imports Block_Builder
begin

text \<open>
  Event filters (\<^verbatim>\<open>crates/edr_provider/src/filter.rs\<close>, \<^verbatim>\<open>filter/criteria.rs\<close>,
  \<^verbatim>\<open>crates/edr_eth/src/filter.rs\<close>) and their use by the provider (\<^verbatim>\<open>data.rs\<close>): polled filters collect
  events, subscriptions pass them on at once. An instant of time is a number of nanoseconds; the
  clock is a parameter, as is the membership test of a bloom filter. The calls of the subscriber
  callback are the list of events that an operation returns.
\<close>

section \<open>Log filters\<close>

record log_filter =
  lf_from_block :: u64
  lf_to_block :: "u64 option"
  lf_addresses :: "address list"
  lf_normalized_topics :: "b256 list option list"

record log_output =
  lo_removed :: bool
  lo_log_index :: "u64 option"
  lo_transaction_index :: "u64 option"
  lo_transaction_hash :: "b256 option"
  lo_block_hash :: "b256 option"
  lo_block_number :: "u64 option"
  lo_address :: address
  lo_data :: "8 word list"
  lo_topics :: "b256 list"

definition log_output_of :: "filter_log \<Rightarrow> log_output" where
  "log_output_of l =
     \<lparr>lo_removed = fl_removed l, lo_log_index = Some (fl_log_index l),
      lo_transaction_index = Some (fl_transaction_index l), lo_transaction_hash = Some (fl_transaction_hash l),
      lo_block_hash = Some (fl_block_hash l), lo_block_number = Some (fl_block_number l),
      lo_address = el_address (fl_log l), lo_data = el_data (fl_log l), lo_topics = el_topics (fl_log l)\<rparr>"

definition bloom_contains_log_filter :: "(bloom_input \<Rightarrow> bloom \<Rightarrow> bool) \<Rightarrow> bloom \<Rightarrow> log_filter \<Rightarrow> bool" where
  "bloom_contains_log_filter contains bloom flt \<longleftrightarrow>
     (if list_ex (\<lambda>a. contains (RawAddress a) bloom) (lf_addresses flt) then True
      else list_all (\<lambda>topics. case topics of
                                None \<Rightarrow> True
                              | Some ts \<Rightarrow> list_ex (\<lambda>t. contains (RawTopic t) bloom) ts) (lf_normalized_topics flt))"

definition log_matches :: "log_filter \<Rightarrow> filter_log \<Rightarrow> bool" where
  "log_matches flt l \<longleftrightarrow>
     lf_from_block flt \<le> fl_block_number l
     \<and> (case lf_to_block flt of None \<Rightarrow> True | Some to_block \<Rightarrow> fl_block_number l \<le> to_block)
     \<and> matches_address_filter (el_address (fl_log l)) (lf_addresses flt)
     \<and> matches_topics_filter (el_topics (fl_log l)) (lf_normalized_topics flt)"

definition filter_logs :: "filter_log list \<Rightarrow> log_filter \<Rightarrow> log_output list" where
  "filter_logs logs flt = map log_output_of (filter (log_matches flt) logs)"

section \<open>Filters\<close>

datatype filter_data =
    FilterLogs log_filter "log_output list"
  | FilterNewHeads "b256 list"
  | FilterNewPendingTransactions "b256 list"

datatype filtered_events =
    EventsLogs "log_output list"
  | EventsNewHeads "b256 list"
  | EventsNewPendingTransactions "b256 list"

datatype subscription_type = SubscribeLogs | SubscribeNewHeads | SubscribeNewPendingTransactions

type_synonym instant = nat

record event_filter =
  ef_data :: filter_data
  ef_deadline :: instant
  ef_is_subscription :: bool

definition new_filter_deadline :: "instant \<Rightarrow> instant" where
  "new_filter_deadline now = now + 5 * 60 * 10 ^ 9"

definition new_filter :: "instant \<Rightarrow> filter_data \<Rightarrow> bool \<Rightarrow> event_filter" where
  "new_filter now data is_subscription =
     \<lparr>ef_data = data, ef_deadline = new_filter_deadline now, ef_is_subscription = is_subscription\<rparr>"

definition new_block_filter :: "instant \<Rightarrow> b256 \<Rightarrow> bool \<Rightarrow> event_filter" where
  "new_block_filter now block_hash is_subscription = new_filter now (FilterNewHeads [block_hash]) is_subscription"

definition new_log_filter :: "instant \<Rightarrow> log_filter \<Rightarrow> log_output list \<Rightarrow> bool \<Rightarrow> event_filter" where
  "new_log_filter now criteria logs is_subscription = new_filter now (FilterLogs criteria logs) is_subscription"

definition new_pending_transaction_filter :: "instant \<Rightarrow> bool \<Rightarrow> event_filter" where
  "new_pending_transaction_filter now is_subscription = new_filter now (FilterNewPendingTransactions []) is_subscription"

definition has_expired :: "instant \<Rightarrow> event_filter \<Rightarrow> bool" where
  "has_expired now f \<longleftrightarrow> ef_deadline f < now"

fun data_take_events :: "filter_data \<Rightarrow> filtered_events \<times> filter_data" where
  "data_take_events (FilterLogs criteria logs) = (EventsLogs logs, FilterLogs criteria [])"
| "data_take_events (FilterNewHeads hs) = (EventsNewHeads hs, FilterNewHeads [])"
| "data_take_events (FilterNewPendingTransactions hs) = (EventsNewPendingTransactions hs, FilterNewPendingTransactions [])"

definition take_events :: "instant \<Rightarrow> event_filter \<Rightarrow> filtered_events \<times> event_filter" where
  "take_events now f =
     (let f = f\<lparr>ef_deadline := new_filter_deadline now\<rparr>; (events, data) = data_take_events (ef_data f)
      in (events, f\<lparr>ef_data := data\<rparr>))"

definition take_log_events :: "instant \<Rightarrow> event_filter \<Rightarrow> log_output list option \<times> event_filter" where
  "take_log_events now f =
     (case ef_data f of
        FilterLogs criteria logs \<Rightarrow>
          (Some logs, f\<lparr>ef_deadline := new_filter_deadline now, ef_data := FilterLogs criteria []\<rparr>)
      | _ \<Rightarrow> (None, f))"

fun filter_subscription_type :: "filter_data \<Rightarrow> subscription_type" where
  "filter_subscription_type (FilterLogs _ _) = SubscribeLogs"
| "filter_subscription_type (FilterNewHeads _) = SubscribeNewHeads"
| "filter_subscription_type (FilterNewPendingTransactions _) = SubscribeNewPendingTransactions"

fun subscription_name :: "subscription_type \<Rightarrow> string" where
  "subscription_name SubscribeLogs = ''logs''"
| "subscription_name SubscribeNewHeads = ''newHeads''"
| "subscription_name SubscribeNewPendingTransactions = ''newPendingTransactions''"

definition parse_subscription_type :: "string \<Rightarrow> subscription_type option" where
  "parse_subscription_type s =
     (if s = ''logs'' then Some SubscribeLogs
      else if s = ''newHeads'' then Some SubscribeNewHeads
      else if s = ''newPendingTransactions'' then Some SubscribeNewPendingTransactions
      else None)"

section \<open>The filters of a provider\<close>

datatype 'w subscription_event_data =
    SubscriptionLogs "log_output list"
  | SubscriptionNewHeads "'w local_block" u256
  | SubscriptionNewPendingTransactions b256

record 'w subscription_event =
  se_filter_id :: u256
  se_result :: "'w subscription_event_data"

type_synonym filters = "(u256 \<times> event_filter) list"

text \<open>The body of the loop over the filters for a pending transaction: the event that a subscription
  gets, and the changed filter.\<close>

definition notify_pending :: "b256 \<Rightarrow> u256 \<Rightarrow> event_filter \<Rightarrow> 'w subscription_event list \<times> event_filter" where
  "notify_pending transaction_hash filter_id f =
     (case ef_data f of
        FilterNewPendingTransactions events \<Rightarrow>
          if ef_is_subscription f
          then ([\<lparr>se_filter_id = filter_id, se_result = SubscriptionNewPendingTransactions transaction_hash\<rparr>], f)
          else ([], f\<lparr>ef_data := FilterNewPendingTransactions (events @ [transaction_hash])\<rparr>)
      | _ \<Rightarrow> ([], f))"

text \<open>The loop itself.\<close>

fun notify_filters ::
  "(u256 \<Rightarrow> event_filter \<Rightarrow> 'w subscription_event list \<times> event_filter) \<Rightarrow> filters \<Rightarrow> 'w subscription_event list \<times> filters" where
  "notify_filters notify [] = ([], [])"
| "notify_filters notify ((filter_id, f) # fs) =
     (let (events, f) = notify filter_id f; (more, fs) = notify_filters notify fs
      in (events @ more, (filter_id, f) # fs))"

definition notify_subscribers_about_pending_transaction :: "filters \<Rightarrow> b256 \<Rightarrow> 'w subscription_event list \<times> filters" where
  "notify_subscribers_about_pending_transaction fs transaction_hash = notify_filters (notify_pending transaction_hash) fs"

text \<open>The same for a mined block. The receipts of a local block are at hand.\<close>

definition notify_mined ::
  "(bloom_input \<Rightarrow> bloom \<Rightarrow> bool) \<Rightarrow> 'w local_block \<Rightarrow> u256 \<Rightarrow> u256 \<Rightarrow> event_filter \<Rightarrow> 'w subscription_event list \<times> event_filter" where
  "notify_mined contains block total_difficulty filter_id f =
     (case ef_data f of
        FilterLogs criteria logs \<Rightarrow>
          if bloom_contains_log_filter contains (bh_logs_bloom (lb_header block)) criteria
          then
            (let new_logs = concat (map transaction_logs (lb_transaction_receipts block));
                 filtered_logs = filter_logs new_logs criteria
             in if ef_is_subscription f
                then ([\<lparr>se_filter_id = filter_id, se_result = SubscriptionLogs filtered_logs\<rparr>], f)
                else ([], f\<lparr>ef_data := FilterLogs criteria (logs @ filtered_logs)\<rparr>))
          else ([], f)
      | FilterNewHeads block_hashes \<Rightarrow>
          if ef_is_subscription f
          then ([\<lparr>se_filter_id = filter_id, se_result = SubscriptionNewHeads block total_difficulty\<rparr>], f)
          else ([], f\<lparr>ef_data := FilterNewHeads (block_hashes @ [lb_hash block])\<rparr>)
      | FilterNewPendingTransactions _ \<Rightarrow> ([], f))"

definition notify_subscribers_about_mined_block ::
  "(bloom_input \<Rightarrow> bloom \<Rightarrow> bool) \<Rightarrow> instant \<Rightarrow> filters \<Rightarrow> 'w local_block \<Rightarrow> u256 \<Rightarrow> 'w subscription_event list \<times> filters" where
  "notify_subscribers_about_mined_block contains now fs block total_difficulty =
     (let (events, fs) = notify_filters (notify_mined contains block total_difficulty) fs
      in (events, filter (\<lambda>(_, f). \<not> has_expired now f) fs))"

definition get_filter_changes :: "instant \<Rightarrow> filters \<Rightarrow> u256 \<Rightarrow> filtered_events option \<times> filters" where
  "get_filter_changes now fs filter_id =
     (case map_of fs filter_id of
        None \<Rightarrow> (None, fs)
      | Some f \<Rightarrow> (let (events, f) = take_events now f in (Some events, AList.update filter_id f fs)))"

definition get_filter_logs ::
  "instant \<Rightarrow> filters \<Rightarrow> u256 \<Rightarrow> ((u256 \<times> subscription_type \<times> subscription_type) + log_output list option) \<times> filters" where
  "get_filter_logs now fs filter_id =
     (case map_of fs filter_id of
        None \<Rightarrow> (Inr None, fs)
      | Some f \<Rightarrow>
          (case take_log_events now f of
             (Some logs, f) \<Rightarrow> (Inr (Some logs), AList.update filter_id f fs)
           | (None, _) \<Rightarrow> (Inl (filter_id, SubscribeLogs, filter_subscription_type (ef_data f)), fs)))"

definition remove_filter_impl :: "bool \<Rightarrow> filters \<Rightarrow> u256 \<Rightarrow> bool \<times> filters" where
  "remove_filter_impl is_subscription fs filter_id =
     (case map_of fs filter_id of
        None \<Rightarrow> (False, fs)
      | Some f \<Rightarrow>
          if ef_is_subscription f = is_subscription then (True, AList.delete filter_id fs) else (False, fs))"

section \<open>No log is lost\<close>

text \<open>What a bloom filter promises: what was added is contained, also in a union.\<close>

definition bloom_laws :: "(bloom_input \<Rightarrow> bloom \<Rightarrow> bloom) \<Rightarrow> (bloom_input \<Rightarrow> bloom \<Rightarrow> bool) \<Rightarrow> bool" where
  "bloom_laws accrue contains \<longleftrightarrow>
     (\<forall>x b. contains x (accrue x b)) \<and> (\<forall>x y b. contains x b \<longrightarrow> contains x (accrue y b))
     \<and> (\<forall>x b c. contains x b \<longrightarrow> contains x (or b c)) \<and> (\<forall>x b c. contains x c \<longrightarrow> contains x (or b c))"

text \<open>A bloom filter that has the address and the topics of every log.\<close>

definition covers_logs :: "(bloom_input \<Rightarrow> bloom \<Rightarrow> bool) \<Rightarrow> bloom \<Rightarrow> execution_log list \<Rightarrow> bool" where
  "covers_logs contains bloom logs \<longleftrightarrow>
     (\<forall>l \<in> set logs. contains (RawAddress (el_address l)) bloom \<and> (\<forall>t \<in> set (el_topics l). contains (RawTopic t) bloom))"

lemma bloom_lawsD:
  assumes "bloom_laws accrue contains"
  shows "contains x (accrue x b)" "contains x b \<Longrightarrow> contains x (accrue y b)"
    "contains x b \<Longrightarrow> contains x (or b c)" "contains x c \<Longrightarrow> contains x (or b c)"
  using assms by (auto simp: bloom_laws_def)

lemma fold_topics:
  assumes "bloom_laws accrue contains"
  shows "contains x b \<Longrightarrow> contains x (fold (\<lambda>t b. accrue (RawTopic t) b) ts b)"
    and "t \<in> set ts \<Longrightarrow> contains (RawTopic t) (fold (\<lambda>t b. accrue (RawTopic t) b) ts b)"
proof -
  show keep: "contains x b \<Longrightarrow> contains x (fold (\<lambda>t b. accrue (RawTopic t) b) ts b)" for x b ts
    by (induction ts arbitrary: b) (simp_all add: bloom_lawsD(2) [OF assms])
  show "t \<in> set ts \<Longrightarrow> contains (RawTopic t) (fold (\<lambda>t b. accrue (RawTopic t) b) ts b)"
    by (induction ts arbitrary: b) (auto simp: bloom_lawsD(1) [OF assms] keep)
qed

lemma logs_to_bloom_covers:
  assumes laws: "bloom_laws accrue contains"
  shows "covers_logs contains (logs_to_bloom accrue logs) logs"
proof -
  have keep: "contains x (fold (add_log_to_bloom accrue) ls b)" if "contains x b" for x ls b
    using that by (induction ls arbitrary: b)
      (simp_all add: add_log_to_bloom_def fold_topics(1) [OF laws] bloom_lawsD(2) [OF laws])
  have "covers_logs contains (fold (add_log_to_bloom accrue) ls b) ls" for ls b
  proof (induction ls arbitrary: b)
    case (Cons l ls)
    have "contains (RawAddress (el_address l)) (add_log_to_bloom accrue l b)"
      by (simp add: add_log_to_bloom_def fold_topics(1) [OF laws] bloom_lawsD(1) [OF laws])
    moreover have "contains (RawTopic t) (add_log_to_bloom accrue l b)" if "t \<in> set (el_topics l)" for t
      using that by (simp add: add_log_to_bloom_def fold_topics(2) [OF laws])
    ultimately show ?case using Cons keep by (auto simp: covers_logs_def)
  qed (simp add: covers_logs_def)
  then show ?thesis by (simp add: logs_to_bloom_def)
qed

lemma or_blooms_covers:
  assumes laws: "bloom_laws accrue contains"
    and "\<forall>r \<in> set rs. covers_logs contains (rc_bloom (snd (tr_inner r))) (receipt_logs r)"
  shows "covers_logs contains (fold (\<lambda>r bloom. or bloom (rc_bloom (snd (tr_inner r)))) rs b) (block_logs rs)"
proof -
  have keep: "contains x (fold (\<lambda>r bloom. or bloom (rc_bloom (snd (tr_inner r)))) ls b)" if "contains x b" for x ls b
    using that by (induction ls arbitrary: b) (simp_all add: bloom_lawsD(3) [OF laws])
  show ?thesis
    using assms(2)
  proof (induction rs arbitrary: b)
    case Nil
    then show ?case by (simp add: covers_logs_def block_logs_def)
  next
    case (Cons r rs)
    have r: "covers_logs contains (or b (rc_bloom (snd (tr_inner r)))) (receipt_logs r)"
      using Cons.prems bloom_lawsD(4) [OF laws] by (auto simp: covers_logs_def)
    have "covers_logs contains (fold (\<lambda>r bloom. or bloom (rc_bloom (snd (tr_inner r)))) rs (or b (rc_bloom (snd (tr_inner r))))) (block_logs rs)"
      by (rule Cons.IH) (use Cons.prems in simp)
    moreover have "covers_logs contains (fold (\<lambda>r bloom. or bloom (rc_bloom (snd (tr_inner r)))) rs (or b (rc_bloom (snd (tr_inner r))))) (receipt_logs r)"
      using r unfolding covers_logs_def by (blast intro: keep)
    ultimately show ?case by (auto simp: covers_logs_def block_logs_def)
  qed
qed

text \<open>A log that matches a filter is found by the filter's test of a bloom filter that covers it.\<close>

lemma bloom_complete:
  assumes "covers_logs contains bloom (map fl_log logs)" and "l \<in> set logs" and "log_matches flt l"
  shows "bloom_contains_log_filter contains bloom flt"
proof (cases "lf_addresses flt = []")
  case False
  with assms have "el_address (fl_log l) \<in> set (lf_addresses flt)"
    by (simp add: log_matches_def matches_address_filter_def)
  with assms(1,2) show ?thesis by (auto simp: bloom_contains_log_filter_def covers_logs_def list_ex_iff)
next
  case True
  have topics: "length (lf_normalized_topics flt) \<le> length (el_topics (fl_log l))"
    "\<And>i ts. i < length (lf_normalized_topics flt) \<Longrightarrow> lf_normalized_topics flt ! i = Some ts \<Longrightarrow> el_topics (fl_log l) ! i \<in> set ts"
    using assms(3) matches_topics_filter_iff [of "el_topics (fl_log l)" "lf_normalized_topics flt"]
    by (auto simp: log_matches_def)
  have "list_ex (\<lambda>t. contains (RawTopic t) bloom) ts"
    if i: "i < length (lf_normalized_topics flt)" "lf_normalized_topics flt ! i = Some ts" for i ts
  proof -
    have "el_topics (fl_log l) ! i \<in> set (el_topics (fl_log l))" using i(1) topics(1) by simp
    then have "contains (RawTopic (el_topics (fl_log l) ! i)) bloom" using assms(1,2) by (auto simp: covers_logs_def)
    with topics(2) [OF i] show ?thesis by (auto simp: list_ex_iff)
  qed
  then show ?thesis
    by (auto simp: bloom_contains_log_filter_def list_all_length split: option.split)
qed

lemma bloom_skip_exact:
  assumes "covers_logs contains bloom (map fl_log logs)"
  shows "filter_logs logs flt = (if bloom_contains_log_filter contains bloom flt then filter_logs logs flt else [])"
  using bloom_complete [OF assms] by (auto simp: filter_logs_def filter_empty_conv)

end
