(* ===== verification/Provider_Data.thy ===== *)
theory Provider_Data
  imports Filters Local_Blockchain Mem_Pool_Iter Miner
begin

text \<open>
  The state of a provider on a local blockchain and the operations that do not mine
  (\<^verbatim>\<open>crates/edr_provider/src/data.rs\<close>, \<^verbatim>\<open>snapshot.rs\<close>, \<^verbatim>\<open>crates/state/api/src/irregular.rs\<close>,
  \<^verbatim>\<open>crates/edr_utils/src/random.rs\<close>). An operation maps the provider to its result and the
  provider after it; the results carry errors as values, and panics are explicit. A signed
  64-bit integer is the word with the same bits. The calls of the subscriber callback are kept in a
  field. The cache of states (\<^verbatim>\<open>LruCache\<close>), the hash function, and the clocks are parameters.
\<close>

section \<open>Results\<close>

text \<open>The operator \<^verbatim>\<open>?\<close>: the rest of an operation is skipped after an error.\<close>

definition and_then ::
  "(('e + 'a) \<times> 's) outcome \<Rightarrow> ('a \<Rightarrow> 's \<Rightarrow> (('e + 'b) \<times> 's) outcome) \<Rightarrow> (('e + 'b) \<times> 's) outcome" where
  "and_then m f =
     (case m of
        Panic \<Rightarrow> Panic
      | Return (Inl e, s) \<Rightarrow> Return (Inl e, s)
      | Return (Inr x, s) \<Rightarrow> f x s)"

lemma and_then_simps [simp]:
  "and_then Panic f = Panic" "and_then (Return (Inl e, s)) f = Return (Inl e, s)" "and_then (Return (Inr x, s)) f = f x s"
  by (simp_all add: and_then_def)

text \<open>\<^verbatim>\<open>i64::try_from\<close> of an unsigned and \<^verbatim>\<open>u64::try_from\<close> of a signed integer, with \<^verbatim>\<open>expect\<close>.\<close>

definition expect_nonneg :: "u64 \<Rightarrow> u64 outcome" where
  "expect_nonneg x = (if unat x < 2 ^ 63 then Return x else Panic)"

section \<open>Random hashes\<close>

type_synonym random_hash_generator = b256

definition random_with_value :: "b256 \<Rightarrow> random_hash_generator" where
  "random_with_value v = v"

definition generate_next :: "(b256 \<Rightarrow> b256) \<Rightarrow> random_hash_generator \<Rightarrow> b256 \<times> random_hash_generator" where
  "generate_next keccak256 g = (g, keccak256 g)"

definition next_value :: "random_hash_generator \<Rightarrow> b256" where
  "next_value g = g"

definition set_next :: "random_hash_generator \<Rightarrow> b256 \<Rightarrow> random_hash_generator" where
  "set_next g v = v"

section \<open>The irregular state\<close>

type_synonym irregular_state = "(u64 \<times> state_override) list"

text \<open>\<^verbatim>\<open>state_override_at_block_number(n).or_insert_with(..).diff\<close> and its change.\<close>

definition change_override :: "irregular_state \<Rightarrow> u64 \<Rightarrow> b256 \<Rightarrow> (state_diff \<Rightarrow> state_diff) \<Rightarrow> irregular_state" where
  "change_override m n root f =
     (let ov = (case map_of m n of Some ov \<Rightarrow> ov | None \<Rightarrow> with_state_root root)
      in btree_insert n (ov\<lparr>so_diff := f (so_diff ov)\<rparr>) m)"

section \<open>The provider\<close>

record snapshot =
  sn_block_number :: u64
  sn_block_number_to_state_id :: "u64 \<rightharpoonup> u64"
  sn_block_time_offset_seconds :: u64
  sn_coinbase :: address
  sn_irregular_state :: irregular_state
  sn_mem_pool :: mem_pool
  sn_next_block_base_fee_per_gas :: "u128 option"
  sn_next_block_timestamp :: "u64 option"
  sn_parent_beacon_block_root_generator :: random_hash_generator
  sn_prev_randao_generator :: random_hash_generator
  sn_time :: instant

record ('w, 'bp, 'c) provider_data =
  pd_beneficiary :: address
  pd_blockchain :: "('w, 'bp) local_blockchain"
  pd_block_config :: "'bp block_config"
  pd_is_auto_mining :: bool
  pd_irregular_state :: irregular_state
  pd_mem_pool :: mem_pool
  pd_mining_order :: mine_ordering
  pd_min_gas_price :: u128
  pd_parent_beacon_block_root_generator :: random_hash_generator
  pd_prev_randao_generator :: random_hash_generator
  pd_block_time_offset_seconds :: u64
  pd_next_block_base_fee_per_gas :: "u128 option"
  pd_base_fee_params :: "l1_hardfork base_fee_params option"
  pd_next_block_timestamp :: "u64 option"
  pd_next_snapshot_id :: u64
  pd_snapshots :: "(u64 \<times> snapshot) list"
  pd_allow_blocks_with_same_timestamp :: bool
  pd_allow_unlimited_contract_size :: bool
  pd_local_accounts :: "address list"
  pd_filters :: filters
  pd_last_filter_id :: u256
  pd_impersonated_accounts :: "address set"
  pd_subscriber_events :: "'w subscription_event list"
  pd_block_state_cache :: 'c
  pd_current_state_id :: u64
  pd_block_number_to_state_id :: "u64 \<rightharpoonup> u64"

text \<open>The code that is not part of the provider, and the clocks at the time of an operation.\<close>

record ('w, 'bp, 'bx, 'v, 'x, 'i, 'ie, 'o, 'g, 'c) provider_env =
  pe_builder :: "('w, 'bp, 'bx, local_blockchain_error, 'v, 'x, 'i) builder_env"
  pe_less_than_basefee :: 'v
  pe_flush_inspector_data :: "'i \<Rightarrow> ('ie + 'o) \<times> 'i"
  pe_observer :: 'i
  pe_on_collected_gas_report :: "('w built_block \<Rightarrow> 'o list \<Rightarrow> 'g + unit) option"
  pe_bloom_contains :: "bloom_input \<Rightarrow> bloom \<Rightarrow> bool"
  pe_keccak256 :: "b256 \<Rightarrow> b256"
  pe_cache_push :: "u64 \<Rightarrow> state_trie \<Rightarrow> 'c \<Rightarrow> 'c"
  pe_cache_get :: "u64 \<Rightarrow> 'c \<Rightarrow> state_trie option \<times> 'c"

record clock =
  ck_now :: instant
  ck_since_epoch :: u64

abbreviation pe_header_env :: "('w, 'bp, 'bx, 'v, 'x, 'i, 'ie, 'o, 'g, 'c) provider_env \<Rightarrow> ('w, 'bp, 'bx) header_env" where
  "pe_header_env env \<equiv> bb_header_env (pe_builder env)"

abbreviation pe_state_env :: "('w, 'bp, 'bx, 'v, 'x, 'i, 'ie, 'o, 'g, 'c) provider_env \<Rightarrow> state_env" where
  "pe_state_env env \<equiv> bb_state_env (pe_builder env)"

datatype block_tag = Earliest | Latest | Pending | Safe | Finalized

datatype eip1898_block_spec = Eip1898Hash b256 "bool option" | Eip1898Number u64

datatype block_spec = SpecNumber u64 | SpecTag block_tag | SpecEip1898 eip1898_block_spec

datatype ('v, 'x, 'r, 'ie, 'g) provider_error =
    AutoMineGasPriceTooLow u128 u128
  | AutoMineMaxFeePerGasTooLow u128 u128
  | AutoMineNonceTooHigh u64 u64
  | AutoMineNonceTooLow u64 u64
  | AutoMinePriorityFeeTooLow u128 u128
  | BlobMemPoolUnsupported
  | Blockchain local_blockchain_error
  | InspectorError 'ie
  | InvalidArgument string
  | InvalidDropTransactionHash b256
  | InvalidBlockNumberOrHash block_spec u64
  | InvalidBlockTag block_tag l1_hardfork
  | InvalidFilterSubscriptionType u256 subscription_type subscription_type
  | MemPoolAddTransaction "'r state_error add_error"
  | MemPoolUpdate "'r state_error"
  | MineBlock "(local_blockchain_error, 'v, 'x, 'r, 'ie) mine_block_error"
  | MineSingleTransaction "(local_blockchain_error, 'v, 'x, 'r) mine_transaction_error"
  | OnCollectedGasReportCallback 'g
  | SetAccountNonceLowerThanCurrent u64 u64
  | SetAccountNonceWithPendingTransactions
  | SetBlockGasLimitMustBeGreaterThanZero
  | SetMinGasPriceUnsupported
  | SetNextBlockBaseFeePerGasUnsupported l1_hardfork
  | SetNextPrevRandaoUnsupported l1_hardfork
  | StateError "'r state_error"
  | TimestampEqualsPrevious u64
  | TimestampLowerThanPrevious u64 u64

subsection \<open>Reading the blockchain\<close>

definition pd_hardfork :: "('w, 'bp, 'c) provider_data \<Rightarrow> l1_hardfork" where
  "pd_hardfork p = lc_hardfork (pd_blockchain p)"

definition pd_evm_spec_id :: "('w, 'bp, 'c) provider_data \<Rightarrow> evm_spec_id" where
  "pd_evm_spec_id p = into_evm_spec (pd_hardfork p)"

definition pd_last_block_number :: "('w, 'bp, 'c) provider_data \<Rightarrow> u64" where
  "pd_last_block_number p = lc_last_block_number (pd_blockchain p)"

definition pd_chain_id :: "('w, 'bp, 'c) provider_data \<Rightarrow> u64" where
  "pd_chain_id p = lc_chain_id (pd_blockchain p)"

text \<open>A result of the blockchain as a result of the provider.\<close>

definition lift_blockchain ::
  "('w, 'bp, 'c) provider_data \<Rightarrow> ((local_blockchain_error + 'a) \<times> ('w, 'bp) local_blockchain) outcome
     \<Rightarrow> ((('v, 'x, 'r, 'ie, 'g) provider_error + 'a) \<times> ('w, 'bp, 'c) provider_data) outcome" where
  "lift_blockchain p m = bind_outcome m (\<lambda>(r, lc). Return (map_sum Blockchain id r, p\<lparr>pd_blockchain := lc\<rparr>))"

definition pd_last_block ::
  "('w, 'bp, 'bx, 'v, 'x, 'i, 'ie, 'o, 'g, 'c) provider_env \<Rightarrow> ('w, 'bp, 'c) provider_data
     \<Rightarrow> ((('v, 'x, 'r, 'ie, 'g) provider_error + 'w local_block) \<times> ('w, 'bp, 'c) provider_data) outcome" where
  "pd_last_block env p = lift_blockchain p (last_local_block (pe_header_env env) (pd_blockchain p))"

text \<open>A block that must exist.\<close>

definition block_or_invalid ::
  "block_spec \<Rightarrow> 'w local_block option \<Rightarrow> ('w, 'bp, 'c) provider_data
     \<Rightarrow> ((('v, 'x, 'r, 'ie, 'g) provider_error + 'w local_block option) \<times> ('w, 'bp, 'c) provider_data) outcome" where
  "block_or_invalid spec found p =
     Return (case found of
               Some block \<Rightarrow> Inr (Some block)
             | None \<Rightarrow> Inl (InvalidBlockNumberOrHash spec (pd_last_block_number p)), p)"

definition block_by_block_spec ::
  "('w, 'bp, 'bx, 'v, 'x, 'i, 'ie, 'o, 'g, 'c) provider_env \<Rightarrow> ('w, 'bp, 'c) provider_data \<Rightarrow> block_spec
     \<Rightarrow> ((('v, 'x, 'r, 'ie, 'g) provider_error + 'w local_block option) \<times> ('w, 'bp, 'c) provider_data) outcome" where
  "block_by_block_spec env p spec =
     (let block_by_number = (\<lambda>n. lift_blockchain p (lc_block_by_number (pe_header_env env) (pd_blockchain p) n));
          last_block = and_then (pd_last_block env p) (\<lambda>block p. Return (Inr (Some block), p))
      in case spec of
           SpecNumber n \<Rightarrow> and_then (block_by_number n) (block_or_invalid spec)
         | SpecTag Earliest \<Rightarrow>
             and_then (block_by_number 0) (\<lambda>found p. case found of Some block \<Rightarrow> Return (Inr (Some block), p) | None \<Rightarrow> Panic)
         | SpecTag Latest \<Rightarrow> last_block
         | SpecTag Pending \<Rightarrow> Return (Inr None, p)
         | SpecTag tag \<Rightarrow>
             if MERGE \<le> pd_evm_spec_id p then last_block
             else Return (Inl (InvalidBlockTag tag (pd_hardfork p)), p)
         | SpecEip1898 (Eip1898Hash block_hash _) \<Rightarrow>
             and_then (lift_blockchain p (Return (lc_block_by_hash (pd_blockchain p) block_hash, pd_blockchain p)))
               (block_or_invalid spec)
         | SpecEip1898 (Eip1898Number n) \<Rightarrow> and_then (block_by_number n) (block_or_invalid spec))"

definition block_number_by_block_spec ::
  "('w, 'bp, 'c) provider_data \<Rightarrow> block_spec \<Rightarrow> ('v, 'x, 'r, 'ie, 'g) provider_error + u64 option" where
  "block_number_by_block_spec p spec =
     (case spec of
        SpecNumber n \<Rightarrow> Inr (Some n)
      | SpecTag Earliest \<Rightarrow> Inr (Some 0)
      | SpecTag Latest \<Rightarrow> Inr (Some (pd_last_block_number p))
      | SpecTag Pending \<Rightarrow> Inr None
      | SpecTag tag \<Rightarrow>
          if MERGE \<le> pd_evm_spec_id p then Inr (Some (pd_last_block_number p))
          else Inl (InvalidBlockTag tag (pd_hardfork p))
      | SpecEip1898 (Eip1898Hash block_hash _) \<Rightarrow>
          (case lc_block_by_hash (pd_blockchain p) block_hash of
             Inl e \<Rightarrow> Inl (Blockchain e)
           | Inr None \<Rightarrow> Inl (InvalidBlockNumberOrHash spec (pd_last_block_number p))
           | Inr (Some block) \<Rightarrow> Inr (Some (bh_number (lb_header block))))
      | SpecEip1898 (Eip1898Number n) \<Rightarrow> Inr (Some n))"

text \<open>A block number that is checked against the last block before something is asked at it.\<close>

definition hardfork_at_block_spec ::
  "('w, 'bp, 'c) provider_data \<Rightarrow> block_spec \<Rightarrow> ('v, 'x, 'r, 'ie, 'g) provider_error + l1_hardfork" where
  "hardfork_at_block_spec p spec =
     (case block_number_by_block_spec p spec of
        Inl e \<Rightarrow> Inl e
      | Inr (Some n) \<Rightarrow>
          if pd_last_block_number p < n then Inl (InvalidBlockNumberOrHash spec (pd_last_block_number p))
          else map_sum Blockchain id (spec_at_block_number (pd_blockchain p) n)
      | Inr None \<Rightarrow> Inr (pd_hardfork p))"

definition chain_id_at_block_spec ::
  "('w, 'bp, 'c) provider_data \<Rightarrow> block_spec \<Rightarrow> ('v, 'x, 'r, 'ie, 'g) provider_error + u64" where
  "chain_id_at_block_spec p spec =
     (case block_number_by_block_spec p spec of
        Inl e \<Rightarrow> Inl e
      | Inr (Some n) \<Rightarrow>
          if pd_last_block_number p < n then Inl (InvalidBlockNumberOrHash spec (pd_last_block_number p))
          else map_sum Blockchain id (chain_id_at_block_number (pd_blockchain p) n)
      | Inr None \<Rightarrow> Inr (pd_chain_id p))"

definition calculate_next_block_base_fee ::
  "('w, 'bp, 'bx, 'v, 'x, 'i, 'ie, 'o, 'g, 'c) provider_env \<Rightarrow> ('w, 'bp, 'c) provider_data \<Rightarrow> block_header \<Rightarrow> u128 outcome" where
  "calculate_next_block_base_fee env p header =
     calculate_next_base_fee_per_gas (he_initial_base_fee (pe_header_env env)) header (ucast (bh_gas_used header))
       (bc_base_fee_params (pd_block_config p)) (pd_hardfork p)"

definition next_block_base_fee_per_gas ::
  "('w, 'bp, 'bx, 'v, 'x, 'i, 'ie, 'o, 'g, 'c) provider_env \<Rightarrow> ('w, 'bp, 'c) provider_data
     \<Rightarrow> ((('v, 'x, 'r, 'ie, 'g) provider_error + u128 option) \<times> ('w, 'bp, 'c) provider_data) outcome" where
  "next_block_base_fee_per_gas env p =
     (if pd_evm_spec_id p < LONDON then Return (Inr None, p)
      else
        case pd_next_block_base_fee_per_gas p of
          Some fee \<Rightarrow> Return (Inr (Some fee), p)
        | None \<Rightarrow>
            and_then (pd_last_block env p) (\<lambda>last_block p.
              bind_outcome (calculate_next_block_base_fee env p (lb_header last_block)) (\<lambda>fee.
                Return (Inr (Some fee), p))))"

definition next_block_base_fee_per_blob_gas ::
  "('w, 'bp, 'bx, 'v, 'x, 'i, 'ie, 'o, 'g, 'c) provider_env \<Rightarrow> ('w, 'bp, 'c) provider_data
     \<Rightarrow> ((('v, 'x, 'r, 'ie, 'g) provider_error + u128 option) \<times> ('w, 'bp, 'c) provider_data) outcome" where
  "next_block_base_fee_per_blob_gas env p =
     (if pd_evm_spec_id p < CANCUN then Return (Inr None, p)
      else
        and_then (pd_last_block env p) (\<lambda>last_block p.
          Return (Inr (Some (calculate_next_base_fee_per_blob_gas (pe_header_env env) (lb_header last_block)
                               (pd_hardfork p) (bc_scheduled_blob_params (pd_block_config p)))), p)))"

definition gas_price ::
  "('w, 'bp, 'bx, 'v, 'x, 'i, 'ie, 'o, 'g, 'c) provider_env \<Rightarrow> ('w, 'bp, 'c) provider_data
     \<Rightarrow> ((('v, 'x, 'r, 'ie, 'g) provider_error + u128) \<times> ('w, 'bp, 'c) provider_data) outcome" where
  "gas_price env p =
     and_then (next_block_base_fee_per_gas env p) (\<lambda>fee p.
       Return (Inr (case fee of Some fee \<Rightarrow> fee + 1000000000 | None \<Rightarrow> 8000000000), p))"

definition next_gas_price ::
  "('w, 'bp, 'bx, 'v, 'x, 'i, 'ie, 'o, 'g, 'c) provider_env \<Rightarrow> ('w, 'bp, 'c) provider_data
     \<Rightarrow> ((('v, 'x, 'r, 'ie, 'g) provider_error + u128) \<times> ('w, 'bp, 'c) provider_data) outcome" where
  "next_gas_price env p =
     and_then (next_block_base_fee_per_gas env p) (\<lambda>fee p.
       Return (Inr (case fee of
                      Some fee \<Rightarrow> (let suggested_priority_fee_per_gas = 1000000000 in fee + suggested_priority_fee_per_gas)
                    | None \<Rightarrow> 8000000000), p))"

subsection \<open>The cached states\<close>

definition add_state_to_cache ::
  "('w, 'bp, 'bx, 'v, 'x, 'i, 'ie, 'o, 'g, 'c) provider_env \<Rightarrow> ('w, 'bp, 'c) provider_data \<Rightarrow> state_trie \<Rightarrow> u64
     \<Rightarrow> u64 \<times> ('w, 'bp, 'c) provider_data" where
  "add_state_to_cache env p state n =
     (let state_id = pd_current_state_id p + 1
      in (state_id,
          p\<lparr>pd_current_state_id := state_id,
            pd_block_state_cache := pe_cache_push env state_id state (pd_block_state_cache p),
            pd_block_number_to_state_id := (pd_block_number_to_state_id p)(n \<mapsto> state_id)\<rparr>))"

definition compute_state ::
  "('w, 'bp, 'bx, 'v, 'x, 'i, 'ie, 'o, 'g, 'c) provider_env \<Rightarrow> ('w, 'bp, 'c) provider_data \<Rightarrow> u64
     \<Rightarrow> ((('v, 'x, 'r, 'ie, 'g) provider_error + state_trie) \<times> ('w, 'bp, 'c) provider_data) outcome" where
  "compute_state env p n =
     bind_outcome (state_at_block_number (pe_state_env env) (pd_blockchain p) n (pd_irregular_state p)) (\<lambda>r.
       case r of
         Inl e \<Rightarrow> Return (Inl (Blockchain e), p)
       | Inr state \<Rightarrow>
           (let (state_id, p) = add_state_to_cache env p state n;
                (cached, cache) = pe_cache_get env state_id (pd_block_state_cache p)
            in case cached of
                 None \<Rightarrow> Panic
               | Some state \<Rightarrow> Return (Inr state, p\<lparr>pd_block_state_cache := cache\<rparr>)))"

definition get_or_compute_state ::
  "('w, 'bp, 'bx, 'v, 'x, 'i, 'ie, 'o, 'g, 'c) provider_env \<Rightarrow> ('w, 'bp, 'c) provider_data \<Rightarrow> u64
     \<Rightarrow> ((('v, 'x, 'r, 'ie, 'g) provider_error + state_trie) \<times> ('w, 'bp, 'c) provider_data) outcome" where
  "get_or_compute_state env p n =
     (case pd_block_number_to_state_id p n of
        None \<Rightarrow> compute_state env p n
      | Some state_id \<Rightarrow>
          (let (cached, cache) = pe_cache_get env state_id (pd_block_state_cache p);
               p = p\<lparr>pd_block_state_cache := cache\<rparr>
           in case cached of
                Some state \<Rightarrow> Return (Inr state, p)
              | None \<Rightarrow> compute_state env p n))"

definition current_state ::
  "('w, 'bp, 'bx, 'v, 'x, 'i, 'ie, 'o, 'g, 'c) provider_env \<Rightarrow> ('w, 'bp, 'c) provider_data
     \<Rightarrow> ((('v, 'x, 'r, 'ie, 'g) provider_error + state_trie) \<times> ('w, 'bp, 'c) provider_data) outcome" where
  "current_state env p = get_or_compute_state env p (pd_last_block_number p)"

text \<open>The accounts of a local state: reading them does not fail.\<close>

definition basic_of :: "state_trie \<Rightarrow> 'r state_error basic_fn" where
  "basic_of state = (\<lambda>a. Inr (state_basic state a))"

definition pd_account_next_nonce ::
  "('w, 'bp, 'bx, 'v, 'x, 'i, 'ie, 'o, 'g, 'c) provider_env \<Rightarrow> ('w, 'bp, 'c) provider_data \<Rightarrow> address
     \<Rightarrow> ((('v, 'x, 'r, 'ie, 'g) provider_error + u64) \<times> ('w, 'bp, 'c) provider_data) outcome" where
  "pd_account_next_nonce env p a =
     and_then (current_state env p) (\<lambda>state p.
       bind_outcome (account_next_nonce (pd_mem_pool p) (basic_of state) a) (\<lambda>r.
         Return (map_sum StateError id r, p)))"

section \<open>Changing the state\<close>

text \<open>The end of the operations that change an account: the override of the last block, and the cache.\<close>

definition commit_override ::
  "('w, 'bp, 'bx, 'v, 'x, 'i, 'ie, 'o, 'g, 'c) provider_env \<Rightarrow> ('w, 'bp, 'c) provider_data \<Rightarrow> state_trie
     \<Rightarrow> (state_diff \<Rightarrow> state_diff) \<Rightarrow> ('w, 'bp, 'c) provider_data" where
  "commit_override env p modified_state change =
     (let block_number = pd_last_block_number p;
          p = p\<lparr>pd_irregular_state := change_override (pd_irregular_state p) block_number (state_root modified_state) change\<rparr>
      in snd (add_state_to_cache env p modified_state block_number))"

definition pd_set_account_storage_slot ::
  "('w, 'bp, 'bx, 'v, 'x, 'i, 'ie, 'o, 'g, 'c) provider_env \<Rightarrow> ('w, 'bp, 'c) provider_data \<Rightarrow> address \<Rightarrow> u256 \<Rightarrow> u256
     \<Rightarrow> ((('v, 'x, 'r, 'ie, 'g) provider_error + unit) \<times> ('w, 'bp, 'c) provider_data) outcome" where
  "pd_set_account_storage_slot env p a index v =
     and_then (current_state env p) (\<lambda>state p.
       case state_set_account_storage_slot (pe_state_env env) state a index v of
         (Inl e, _) \<Rightarrow> Return (Inl (StateError e), p)
       | (Inr old_value, modified_state) \<Rightarrow>
           (let slot = \<lparr>sl_original_value = old_value, sl_present_value = v\<rparr>
            in case (case state_basic modified_state a of
                       None \<Rightarrow> Inr None
                     | Some info \<Rightarrow>
                         if ai_code_hash info \<noteq> KECCAK_EMPTY
                         then map_sum id (\<lambda>code. Some (info\<lparr>ai_code := Some code\<rparr>))
                                (state_code_by_hash modified_state (ai_code_hash info))
                         else Inr (Some info)) of
                 Inl e \<Rightarrow> Return (Inl (StateError e), p)
               | Inr account_info \<Rightarrow>
                   Return (Inr (),
                     commit_override env p modified_state (\<lambda>d. apply_storage_change d a index slot account_info))))"

text \<open>The balance, the nonce and the code of an account.\<close>

definition set_balance ::
  "('w, 'bp, 'bx, 'v, 'x, 'i, 'ie, 'o, 'g, 'c) provider_env \<Rightarrow> ('w, 'bp, 'c) provider_data \<Rightarrow> address \<Rightarrow> u256
     \<Rightarrow> ((('v, 'x, 'r, 'ie, 'g) provider_error + unit) \<times> ('w, 'bp, 'c) provider_data) outcome" where
  "set_balance env p a balance =
     and_then (current_state env p) (\<lambda>state p.
       case state_modify_account (pe_state_env env) state a (\<lambda>(_, nonce, code). (balance, nonce, code)) of
         (Inl e, _) \<Rightarrow> Return (Inl (StateError e), p)
       | (Inr account_info, modified_state) \<Rightarrow>
           (case mem_pool_update (pd_mem_pool p) (basic_of modified_state) of
              (Inl e, pool) \<Rightarrow> Return (Inl (StateError e), p\<lparr>pd_mem_pool := pool\<rparr>)
            | (Inr _, pool) \<Rightarrow>
                Return (Inr (),
                  commit_override env (p\<lparr>pd_mem_pool := pool\<rparr>) modified_state
                    (\<lambda>d. apply_account_change d a account_info))))"

definition pd_set_block_gas_limit ::
  "('w, 'bp, 'bx, 'v, 'x, 'i, 'ie, 'o, 'g, 'c) provider_env \<Rightarrow> ('w, 'bp, 'c) provider_data \<Rightarrow> u64
     \<Rightarrow> ((('v, 'x, 'r, 'ie, 'g) provider_error + unit) \<times> ('w, 'bp, 'c) provider_data) outcome" where
  "pd_set_block_gas_limit env p gas_limit =
     and_then (current_state env p) (\<lambda>state p.
       let (r, pool) = set_block_gas_limit (pd_mem_pool p) (basic_of state) (Some gas_limit)
       in Return (map_sum StateError id r, p\<lparr>pd_mem_pool := pool\<rparr>))"

definition set_code ::
  "('w, 'bp, 'bx, 'v, 'x, 'i, 'ie, 'o, 'g, 'c) provider_env \<Rightarrow> ('w, 'bp, 'c) provider_data \<Rightarrow> address \<Rightarrow> bytecode
     \<Rightarrow> ((('v, 'x, 'r, 'ie, 'g) provider_error + unit) \<times> ('w, 'bp, 'c) provider_data) outcome" where
  "set_code env p a code =
     and_then (current_state env p) (\<lambda>state p.
       case state_modify_account (pe_state_env env) state a (\<lambda>(balance, nonce, _). (balance, nonce, Some code)) of
         (Inl e, _) \<Rightarrow> Return (Inl (StateError e), p)
       | (Inr account_info, modified_state) \<Rightarrow>
           Return (Inr (),
             commit_override env p modified_state
               (\<lambda>d. apply_account_change d a (account_info\<lparr>ai_code := Some code\<rparr>))))"

definition set_nonce ::
  "('w, 'bp, 'bx, 'v, 'x, 'i, 'ie, 'o, 'g, 'c) provider_env \<Rightarrow> ('w, 'bp, 'c) provider_data \<Rightarrow> address \<Rightarrow> u64
     \<Rightarrow> ((('v, 'x, 'r, 'ie, 'g) provider_error + unit) \<times> ('w, 'bp, 'c) provider_data) outcome" where
  "set_nonce env p a nonce =
     (if has_transactions (pd_mem_pool p) then Return (Inl SetAccountNonceWithPendingTransactions, p)
      else
        and_then (current_state env p) (\<lambda>state p.
          let previous_nonce = (case state_basic state a of Some account \<Rightarrow> ai_nonce account | None \<Rightarrow> 0)
          in if nonce < previous_nonce then Return (Inl (SetAccountNonceLowerThanCurrent previous_nonce nonce), p)
             else
               and_then (current_state env p) (\<lambda>state p.
                 case state_modify_account (pe_state_env env) state a (\<lambda>(balance, _, code). (balance, nonce, code)) of
                   (Inl e, _) \<Rightarrow> Return (Inl (StateError e), p)
                 | (Inr account_info, modified_state) \<Rightarrow>
                     (case mem_pool_update (pd_mem_pool p) (basic_of modified_state) of
                        (Inl e, pool) \<Rightarrow> Return (Inl (StateError e), p\<lparr>pd_mem_pool := pool\<rparr>)
                      | (Inr _, pool) \<Rightarrow>
                          Return (Inr (),
                            commit_override env (p\<lparr>pd_mem_pool := pool\<rparr>) modified_state
                              (\<lambda>d. apply_account_change d a account_info))))))"

section \<open>Settings of the next block\<close>

definition set_min_gas_price ::
  "('w, 'bp, 'c) provider_data \<Rightarrow> u128 \<Rightarrow> (('v, 'x, 'r, 'ie, 'g) provider_error + unit) \<times> ('w, 'bp, 'c) provider_data" where
  "set_min_gas_price p min_gas_price =
     (if LONDON \<le> pd_evm_spec_id p then (Inl SetMinGasPriceUnsupported, p)
      else (Inr (), p\<lparr>pd_min_gas_price := min_gas_price\<rparr>))"

definition set_next_block_base_fee_per_gas ::
  "('w, 'bp, 'c) provider_data \<Rightarrow> u128 \<Rightarrow> (('v, 'x, 'r, 'ie, 'g) provider_error + unit) \<times> ('w, 'bp, 'c) provider_data" where
  "set_next_block_base_fee_per_gas p base_fee_per_gas =
     (if pd_evm_spec_id p < LONDON then (Inl (SetNextBlockBaseFeePerGasUnsupported (pd_hardfork p)), p)
      else (Inr (), p\<lparr>pd_next_block_base_fee_per_gas := Some base_fee_per_gas\<rparr>))"

definition set_next_prev_randao ::
  "('w, 'bp, 'c) provider_data \<Rightarrow> b256 \<Rightarrow> (('v, 'x, 'r, 'ie, 'g) provider_error + unit) \<times> ('w, 'bp, 'c) provider_data" where
  "set_next_prev_randao p prev_randao =
     (if pd_evm_spec_id p < MERGE then (Inl (SetNextPrevRandaoUnsupported (pd_hardfork p)), p)
      else (Inr (), p\<lparr>pd_prev_randao_generator := set_next (pd_prev_randao_generator p) prev_randao\<rparr>))"

definition set_next_block_timestamp ::
  "('w, 'bp, 'bx, 'v, 'x, 'i, 'ie, 'o, 'g, 'c) provider_env \<Rightarrow> ('w, 'bp, 'c) provider_data \<Rightarrow> u64
     \<Rightarrow> ((('v, 'x, 'r, 'ie, 'g) provider_error + u64) \<times> ('w, 'bp, 'c) provider_data) outcome" where
  "set_next_block_timestamp env p timestamp =
     and_then (pd_last_block env p) (\<lambda>latest_block p.
       let previous = bh_timestamp (lb_header latest_block);
           set_timestamp = (Inr timestamp, p\<lparr>pd_next_block_timestamp := Some timestamp\<rparr>)
       in Return
            (case cmp timestamp previous of
               Less \<Rightarrow> (Inl (TimestampLowerThanPrevious timestamp previous), p)
             | Equal \<Rightarrow>
                 if \<not> pd_allow_blocks_with_same_timestamp p then (Inl (TimestampEqualsPrevious timestamp), p)
                 else set_timestamp
             | Greater \<Rightarrow> set_timestamp))"

definition increase_block_time :: "('w, 'bp, 'c) provider_data \<Rightarrow> u64 \<Rightarrow> (u64 \<times> ('w, 'bp, 'c) provider_data) outcome" where
  "increase_block_time p increment =
     bind_outcome (expect_nonneg increment) (\<lambda>increment.
       let offset = pd_block_time_offset_seconds p + increment
       in Return (offset, p\<lparr>pd_block_time_offset_seconds := offset\<rparr>))"

definition set_auto_mining :: "('w, 'bp, 'c) provider_data \<Rightarrow> bool \<Rightarrow> ('w, 'bp, 'c) provider_data" where
  "set_auto_mining p enabled = p\<lparr>pd_is_auto_mining := enabled\<rparr>"

definition set_coinbase :: "('w, 'bp, 'c) provider_data \<Rightarrow> address \<Rightarrow> ('w, 'bp, 'c) provider_data" where
  "set_coinbase p coinbase = p\<lparr>pd_beneficiary := coinbase\<rparr>"

definition impersonate_account :: "('w, 'bp, 'c) provider_data \<Rightarrow> address \<Rightarrow> ('w, 'bp, 'c) provider_data" where
  "impersonate_account p a = p\<lparr>pd_impersonated_accounts := insert a (pd_impersonated_accounts p)\<rparr>"

definition stop_impersonating_account :: "('w, 'bp, 'c) provider_data \<Rightarrow> address \<Rightarrow> bool \<times> ('w, 'bp, 'c) provider_data" where
  "stop_impersonating_account p a =
     (a \<in> pd_impersonated_accounts p, p\<lparr>pd_impersonated_accounts := pd_impersonated_accounts p - {a}\<rparr>)"

definition default_caller :: "('w, 'bp, 'c) provider_data \<Rightarrow> address" where
  "default_caller p = (case pd_local_accounts p of a # _ \<Rightarrow> a | [] \<Rightarrow> 0)"

definition remove_pending_transaction ::
  "('w, 'bp, 'c) provider_data \<Rightarrow> b256 \<Rightarrow> ordered_transaction option \<times> ('w, 'bp, 'c) provider_data" where
  "remove_pending_transaction p h =
     (let (removed, pool) = remove_transaction (pd_mem_pool p) h in (removed, p\<lparr>pd_mem_pool := pool\<rparr>))"

section \<open>Filters\<close>

definition next_filter_id :: "('w, 'bp, 'c) provider_data \<Rightarrow> (u256 \<times> ('w, 'bp, 'c) provider_data) outcome" where
  "next_filter_id p =
     (if pd_last_filter_id p = - 1 then Panic
      else Return (pd_last_filter_id p + 1, p\<lparr>pd_last_filter_id := pd_last_filter_id p + 1\<rparr>))"

definition insert_filter ::
  "('w, 'bp, 'c) provider_data \<Rightarrow> event_filter \<Rightarrow> (u256 \<times> ('w, 'bp, 'c) provider_data) outcome" where
  "insert_filter p f =
     bind_outcome (next_filter_id p) (\<lambda>(filter_id, p).
       Return (filter_id, p\<lparr>pd_filters := AList.update filter_id f (pd_filters p)\<rparr>))"

definition add_pending_transaction_filter ::
  "clock \<Rightarrow> bool \<Rightarrow> ('w, 'bp, 'c) provider_data \<Rightarrow> (u256 \<times> ('w, 'bp, 'c) provider_data) outcome" where
  "add_pending_transaction_filter clock is_subscription p =
     insert_filter p (new_pending_transaction_filter (ck_now clock) is_subscription)"

definition add_block_filter ::
  "('w, 'bp, 'bx, 'v, 'x, 'i, 'ie, 'o, 'g, 'c) provider_env \<Rightarrow> clock \<Rightarrow> bool \<Rightarrow> ('w, 'bp, 'c) provider_data
     \<Rightarrow> ((('v, 'x, 'r, 'ie, 'g) provider_error + u256) \<times> ('w, 'bp, 'c) provider_data) outcome" where
  "add_block_filter env clock is_subscription p =
     and_then (pd_last_block env p) (\<lambda>last_block p.
       bind_outcome (insert_filter p (new_block_filter (ck_now clock) (lb_hash last_block) is_subscription))
         (\<lambda>(filter_id, p). Return (Inr filter_id, p)))"

definition pd_logs ::
  "('w, 'bp, 'c) provider_data \<Rightarrow> log_filter \<Rightarrow> ('v, 'x, 'r, 'ie, 'g) provider_error + filter_log list" where
  "pd_logs p flt =
     map_sum Blockchain id
       (lc_logs (pd_blockchain p) (lf_from_block flt) (unwrap_or (lf_to_block flt) (pd_last_block_number p))
          (lf_addresses flt) (lf_normalized_topics flt))"

definition add_log_filter ::
  "clock \<Rightarrow> bool \<Rightarrow> ('w, 'bp, 'c) provider_data \<Rightarrow> log_filter
     \<Rightarrow> ((('v, 'x, 'r, 'ie, 'g) provider_error + u256) \<times> ('w, 'bp, 'c) provider_data) outcome" where
  "add_log_filter clock is_subscription p criteria =
     (case pd_logs p criteria of
        Inl e \<Rightarrow> Return (Inl e, p)
      | Inr logs \<Rightarrow>
          bind_outcome (insert_filter p (new_log_filter (ck_now clock) criteria (map log_output_of logs) is_subscription))
            (\<lambda>(filter_id, p). Return (Inr filter_id, p)))"

definition pd_get_filter_changes ::
  "clock \<Rightarrow> ('w, 'bp, 'c) provider_data \<Rightarrow> u256 \<Rightarrow> filtered_events option \<times> ('w, 'bp, 'c) provider_data" where
  "pd_get_filter_changes clock p filter_id =
     (let (events, fs) = get_filter_changes (ck_now clock) (pd_filters p) filter_id in (events, p\<lparr>pd_filters := fs\<rparr>))"

definition pd_get_filter_logs ::
  "clock \<Rightarrow> ('w, 'bp, 'c) provider_data \<Rightarrow> u256
     \<Rightarrow> (('v, 'x, 'r, 'ie, 'g) provider_error + log_output list option) \<times> ('w, 'bp, 'c) provider_data" where
  "pd_get_filter_logs clock p filter_id =
     (let (r, fs) = get_filter_logs (ck_now clock) (pd_filters p) filter_id
      in (map_sum (\<lambda>(i, expected, actual). InvalidFilterSubscriptionType i expected actual) id r, p\<lparr>pd_filters := fs\<rparr>))"

definition remove_filter :: "('w, 'bp, 'c) provider_data \<Rightarrow> u256 \<Rightarrow> bool \<times> ('w, 'bp, 'c) provider_data" where
  "remove_filter p filter_id =
     (let (removed, fs) = remove_filter_impl False (pd_filters p) filter_id in (removed, p\<lparr>pd_filters := fs\<rparr>))"

definition remove_subscription :: "('w, 'bp, 'c) provider_data \<Rightarrow> u256 \<Rightarrow> bool \<times> ('w, 'bp, 'c) provider_data" where
  "remove_subscription p filter_id =
     (let (removed, fs) = remove_filter_impl True (pd_filters p) filter_id in (removed, p\<lparr>pd_filters := fs\<rparr>))"

section \<open>Snapshots\<close>

definition make_snapshot :: "clock \<Rightarrow> ('w, 'bp, 'c) provider_data \<Rightarrow> u64 \<times> ('w, 'bp, 'c) provider_data" where
  "make_snapshot clock p =
     (let id = pd_next_snapshot_id p;
          snapshot =
            \<lparr>sn_block_number = pd_last_block_number p,
             sn_block_number_to_state_id = pd_block_number_to_state_id p,
             sn_block_time_offset_seconds = pd_block_time_offset_seconds p,
             sn_coinbase = pd_beneficiary p,
             sn_irregular_state = pd_irregular_state p,
             sn_mem_pool = pd_mem_pool p,
             sn_next_block_base_fee_per_gas = pd_next_block_base_fee_per_gas p,
             sn_next_block_timestamp = pd_next_block_timestamp p,
             sn_parent_beacon_block_root_generator = pd_parent_beacon_block_root_generator p,
             sn_prev_randao_generator = pd_prev_randao_generator p,
             sn_time = ck_now clock\<rparr>
      in (id, p\<lparr>pd_next_snapshot_id := id + 1, pd_snapshots := btree_insert id snapshot (pd_snapshots p)\<rparr>))"

text \<open>The part of \<open>revert_to_snapshot\<close> after the snapshot was found.\<close>

definition restore_snapshot :: "clock \<Rightarrow> ('w, 'bp, 'c) provider_data \<Rightarrow> snapshot \<Rightarrow> ('w, 'bp, 'c) provider_data outcome" where
  "restore_snapshot clock p s =
     (let duration_since_snapshot = (ck_now clock - sn_time s) div 10 ^ 9
      in if 2 ^ 63 \<le> duration_since_snapshot then Panic
         else
           bind_outcome (lc_revert_to_block (pd_blockchain p) (sn_block_number s)) (\<lambda>(r, lc).
             case r of
               Inl e \<Rightarrow> Panic
             | Inr _ \<Rightarrow>
                 Return
                   (p\<lparr>pd_block_number_to_state_id := sn_block_number_to_state_id s,
                      pd_block_time_offset_seconds := sn_block_time_offset_seconds s + word_of_nat duration_since_snapshot,
                      pd_beneficiary := sn_coinbase s,
                      pd_blockchain := lc,
                      pd_irregular_state := sn_irregular_state s,
                      pd_mem_pool := sn_mem_pool s,
                      pd_next_block_base_fee_per_gas := sn_next_block_base_fee_per_gas s,
                      pd_next_block_timestamp := sn_next_block_timestamp s,
                      pd_parent_beacon_block_root_generator := sn_parent_beacon_block_root_generator s,
                      pd_prev_randao_generator := sn_prev_randao_generator s\<rparr>)))"

definition revert_to_snapshot ::
  "clock \<Rightarrow> ('w, 'bp, 'c) provider_data \<Rightarrow> u64 \<Rightarrow> (bool \<times> ('w, 'bp, 'c) provider_data) outcome" where
  "revert_to_snapshot clock p snapshot_id =
     (let removed_snapshots = filter (\<lambda>(id, _). snapshot_id \<le> id) (pd_snapshots p);
          p = p\<lparr>pd_snapshots := filter (\<lambda>(id, _). id < snapshot_id) (pd_snapshots p)\<rparr>
      in case map_of removed_snapshots snapshot_id of
           None \<Rightarrow> Return (False, p)
         | Some s \<Rightarrow> bind_outcome (restore_snapshot clock p s) (\<lambda>p. Return (True, p)))"

end
