(* ===== verification/Provider_Create.thy ===== *)
theory Provider_Create
  imports Provider_Data
begin

text \<open>
  The creation of a provider on a local blockchain (\<^verbatim>\<open>ProviderData::new\<close> and
  \<^verbatim>\<open>create_local_blockchain_and_state\<close> of \<^verbatim>\<open>crates/edr_provider/src/data.rs\<close>,
  \<^verbatim>\<open>L1ChainSpec::genesis_block\<close>). The block configuration, which is looked up by the chain id, is an
  argument, as are the hash of a seed, the empty cache, the addresses of the owned accounts and the
  extra data of the genesis block. A time of the configuration is its number of seconds since the
  Unix epoch, negative before it.
\<close>

record account_override =
  av_balance :: "u256 option"
  av_nonce :: "u64 option"
  av_code :: "bytecode option"
  av_storage :: "evm_storage option"

record provider_config =
  cf_allow_blocks_with_same_timestamp :: bool
  cf_allow_unlimited_contract_size :: bool
  cf_base_fee_params :: "l1_hardfork base_fee_params option"
  cf_chain_id :: u64
  cf_coinbase :: address
  cf_genesis_state :: "(address \<times> account_override) list"
  cf_initial_base_fee_per_gas :: "u128 option"
  cf_initial_parent_beacon_block_root :: "b256 option"
  cf_auto_mine :: bool
  cf_block_gas_limit :: "u64 option"
  cf_mining_order :: mine_ordering
  cf_min_gas_price :: u128
  cf_owned_accounts :: "address list"
  cf_transaction_gas_cap :: "u64 option"
  cf_genesis_blob_gas :: "blob_gas option"
  cf_genesis_block_gas_limit :: u64
  cf_genesis_block_time :: "int option"

datatype creation_error =
    InvalidInitialDate int
  | LocalBlockchainCreation local_block_creation_error
  | InvalidGenesisBlock invalid_genesis_block

definition genesis_account :: "state_env \<Rightarrow> account_override \<Rightarrow> account" where
  "genesis_account env ov =
     (account_from
        \<lparr>ai_balance = unwrap_or (av_balance ov) 0, ai_nonce = unwrap_or (av_nonce ov) 0,
         ai_code_hash = (case av_code ov of Some code \<Rightarrow> se_hash_slow env code | None \<Rightarrow> KECCAK_EMPTY),
         ai_code = av_code ov\<rparr>)
       \<lparr>ac_storage := unwrap_or (av_storage ov) [], ac_status := {Created, Touched}\<rparr>"

definition l1_genesis_block ::
  "('w, 'bp, 'bx) header_env \<Rightarrow> state_env \<Rightarrow> byte list \<Rightarrow> u64 \<Rightarrow> state_diff \<Rightarrow> 'bp block_config \<Rightarrow> genesis_block_options
     \<Rightarrow> (local_block_creation_error + 'w local_block) outcome" where
  "l1_genesis_block henv senv extra_data now genesis_diff block_config options =
     with_genesis_state henv (state_root (state_from_diff senv genesis_diff)) now block_config
       (options\<lparr>go_extra_data := Some (unwrap_or (go_extra_data options) extra_data)\<rparr>)"

record ('w, 'bp) blockchain_and_state =
  bs_blockchain :: "('w, 'bp) local_blockchain"
  bs_state :: state_trie
  bs_prev_randao_generator :: random_hash_generator
  bs_block_time_offset_seconds :: u64

text \<open>The seconds of the genesis block's time, and the offset of the provider's clock.\<close>

definition genesis_timestamp :: "provider_config \<Rightarrow> creation_error + u64 option" where
  "genesis_timestamp config =
     (case cf_genesis_block_time config of
        None \<Rightarrow> Inr None
      | Some initial_time \<Rightarrow>
          if initial_time < 0 then Inl (InvalidInitialDate initial_time) else Inr (Some (word_of_int initial_time)))"

definition genesis_time_offset :: "clock \<Rightarrow> u64 option \<Rightarrow> u64 outcome" where
  "genesis_time_offset clock timestamp =
     (case timestamp of
        None \<Rightarrow> Return 0
      | Some timestamp \<Rightarrow>
          bind_outcome (expect_nonneg timestamp) (\<lambda>genesis_timestamp.
            bind_outcome (expect_nonneg (ck_since_epoch clock)) (\<lambda>current_timestamp.
              Return (genesis_timestamp - current_timestamp))))"

definition create_local_blockchain_and_state ::
  "('w, 'bp, 'bx, 'v, 'x, 'i, 'ie, 'o, 'g, 'c) provider_env \<Rightarrow> (string \<Rightarrow> b256) \<Rightarrow> byte list \<Rightarrow> u64 \<Rightarrow> clock \<Rightarrow> 'bp block_config
     \<Rightarrow> provider_config \<Rightarrow> (creation_error + ('w, 'bp) blockchain_and_state) outcome" where
  "create_local_blockchain_and_state env seed_hash extra_data now clock block_config config =
     (let generator = seed_hash ''randomMixHashSeed'';
          (mix_hash, generator) =
            (if MERGE \<le> into_evm_spec (bc_hardfork block_config)
             then (let (v, g) = generate_next (pe_keccak256 env) generator in (Some v, g))
             else (None, generator));
          genesis_diff = map (\<lambda>(a, ov). (a, genesis_account (pe_state_env env) ov)) (cf_genesis_state config)
      in case genesis_timestamp config of
           Inl e \<Rightarrow> Return (Inl e)
         | Inr timestamp \<Rightarrow>
             bind_outcome
               (l1_genesis_block (pe_header_env env) (pe_state_env env) extra_data now genesis_diff block_config
                  \<lparr>go_extra_data = None, go_gas_limit = Some (cf_genesis_block_gas_limit config),
                   go_timestamp = timestamp, go_mix_hash = mix_hash, go_base_fee = cf_initial_base_fee_per_gas config,
                   go_base_fee_params = cf_base_fee_params config, go_blob_gas = cf_genesis_blob_gas config,
                   go_withdrawals_root = None\<rparr>)
               (\<lambda>r. case r of
                  Inl e \<Rightarrow> Return (Inl (LocalBlockchainCreation e))
                | Inr genesis \<Rightarrow>
                    (case local_blockchain_new genesis genesis_diff (cf_chain_id config) (bc_hardfork block_config) of
                       Inl e \<Rightarrow> Return (Inl (InvalidGenesisBlock e))
                     | Inr blockchain \<Rightarrow>
                         bind_outcome (state_at_block_number (pe_state_env env) blockchain 0 []) (\<lambda>r.
                           case r of
                             Inl _ \<Rightarrow> Panic
                           | Inr state \<Rightarrow>
                               bind_outcome (genesis_time_offset clock timestamp) (\<lambda>offset.
                                 Return (Inr \<lparr>bs_blockchain = blockchain, bs_state = state,
                                              bs_prev_randao_generator = generator,
                                              bs_block_time_offset_seconds = offset\<rparr>))))))"

definition provider_new ::
  "('w, 'bp, 'bx, 'v, 'x, 'i, 'ie, 'o, 'g, 'c) provider_env \<Rightarrow> (string \<Rightarrow> b256) \<Rightarrow> byte list \<Rightarrow> u64 \<Rightarrow> clock \<Rightarrow> 'c
     \<Rightarrow> 'bp block_config \<Rightarrow> provider_config \<Rightarrow> (creation_error + ('w, 'bp, 'c) provider_data) outcome" where
  "provider_new env seed_hash extra_data now clock empty_cache block_config config =
     bind_outcome (create_local_blockchain_and_state env seed_hash extra_data now clock block_config config) (\<lambda>r.
       Return
         (case r of
            Inl e \<Rightarrow> Inl e
          | Inr bs \<Rightarrow>
              Inr \<lparr>pd_beneficiary = cf_coinbase config,
                   pd_blockchain = bs_blockchain bs,
                   pd_block_config = block_config,
                   pd_is_auto_mining = cf_auto_mine config,
                   pd_irregular_state = [],
                   pd_mem_pool = mem_pool_new (cf_block_gas_limit config) (cf_transaction_gas_cap config),
                   pd_mining_order = cf_mining_order config,
                   pd_min_gas_price = cf_min_gas_price config,
                   pd_parent_beacon_block_root_generator =
                     (case cf_initial_parent_beacon_block_root config of
                        Some root \<Rightarrow> random_with_value root
                      | None \<Rightarrow> seed_hash ''randomParentBeaconBlockRootSeed''),
                   pd_prev_randao_generator = bs_prev_randao_generator bs,
                   pd_block_time_offset_seconds = bs_block_time_offset_seconds bs,
                   pd_next_block_base_fee_per_gas = None,
                   pd_base_fee_params = cf_base_fee_params config,
                   pd_next_block_timestamp = None,
                   pd_next_snapshot_id = 1,
                   pd_snapshots = [],
                   pd_allow_blocks_with_same_timestamp = cf_allow_blocks_with_same_timestamp config,
                   pd_allow_unlimited_contract_size = cf_allow_unlimited_contract_size config,
                   pd_local_accounts = rev (remdups (rev (cf_owned_accounts config))),
                   pd_filters = [],
                   pd_last_filter_id = 0,
                   pd_impersonated_accounts = {},
                   pd_subscriber_events = [],
                   pd_block_state_cache = pe_cache_push env 0 (bs_state bs) empty_cache,
                   pd_current_state_id = 0,
                   pd_block_number_to_state_id = [lc_last_block_number (bs_blockchain bs) \<mapsto> 0]\<rparr>))"

end
