(* ===== verification/Provider_Mining.thy ===== *)
theory Provider_Mining
  imports Provider_Data
begin

text \<open>
  The operations of a provider that mine (\<^verbatim>\<open>crates/edr_provider/src/data.rs\<close>). The miner's loop
  may not end, so an operation that mines returns an option, with \<open>None\<close> for no end. An operation
  that mines several blocks is given the clocks at the time of each block.
\<close>

section \<open>Results\<close>

definition and_then_run ::
  "(('e + 'a) \<times> 's) outcome option \<Rightarrow> ('a \<Rightarrow> 's \<Rightarrow> (('e + 'b) \<times> 's) outcome option)
     \<Rightarrow> (('e + 'b) \<times> 's) outcome option" where
  "and_then_run m f =
     (case m of
        None \<Rightarrow> None
      | Some Panic \<Rightarrow> Some Panic
      | Some (Return (Inl e, s)) \<Rightarrow> Some (Return (Inl e, s))
      | Some (Return (Inr x, s)) \<Rightarrow> f x s)"

lemma and_then_run_simps [simp]:
  "and_then_run None f = None" "and_then_run (Some Panic) f = Some Panic"
  "and_then_run (Some (Return (Inl e, s))) f = Some (Return (Inl e, s))"
  "and_then_run (Some (Return (Inr x, s))) f = f x s"
  by (simp_all add: and_then_run_def)

record ('w, 'o) mine_block_result =
  mr_block :: "'w local_block"
  mr_transaction_inspector_data :: "'o list"
  mr_transaction_results :: "execution_result list"

definition has_transaction :: "('w, 'o) mine_block_result \<Rightarrow> b256 \<Rightarrow> bool" where
  "has_transaction result transaction_hash \<longleftrightarrow>
     list_ex (\<lambda>tx. tx_hash tx = transaction_hash) (lb_transactions (mr_block result))"

section \<open>The time of the next block\<close>

definition next_block_timestamp ::
  "('w, 'bp, 'bx, 'v, 'x, 'i, 'ie, 'o, 'g, 'c) provider_env \<Rightarrow> clock \<Rightarrow> ('w, 'bp, 'c) provider_data \<Rightarrow> u64 option
     \<Rightarrow> ((('v, 'x, 'r, 'ie, 'g) provider_error + u64 \<times> u64 option) \<times> ('w, 'bp, 'c) provider_data) outcome" where
  "next_block_timestamp env clock p timestamp =
     and_then (pd_last_block env p) (\<lambda>latest_block p.
       bind_outcome (expect_nonneg (ck_since_epoch clock)) (\<lambda>current_timestamp.
         let previous = bh_timestamp (lb_header latest_block);
             adjust = (\<lambda>(block_timestamp, new_offset).
               let timestamp_needs_increase = block_timestamp = previous \<and> \<not> pd_allow_blocks_with_same_timestamp p
               in Return (Inr (if timestamp_needs_increase
                               then (block_timestamp + 1,
                                     case new_offset of
                                       None \<Rightarrow> Some (pd_block_time_offset_seconds p + 1)
                                     | Some offset \<Rightarrow> Some offset)
                               else (block_timestamp, new_offset)), p))
         in case timestamp of
              Some timestamp \<Rightarrow>
                (case checked_sub timestamp previous of
                   None \<Rightarrow> Return (Inl (TimestampLowerThanPrevious timestamp previous), p)
                 | Some _ \<Rightarrow>
                     bind_outcome (expect_nonneg timestamp) (\<lambda>t.
                       adjust (timestamp, Some (t - current_timestamp))))
            | None \<Rightarrow>
                (case pd_next_block_timestamp p of
                   Some next_block_timestamp \<Rightarrow>
                     bind_outcome (expect_nonneg next_block_timestamp) (\<lambda>t.
                       adjust (next_block_timestamp, Some (t - current_timestamp)))
                 | None \<Rightarrow>
                     bind_outcome (expect_nonneg (current_timestamp + pd_block_time_offset_seconds p)) (\<lambda>next_timestamp.
                       adjust (next_timestamp, None)))))"

section \<open>Mining a block\<close>

definition header_overrides_with_timestamp :: "('w, 'bp, 'c) provider_data \<Rightarrow> u64 \<Rightarrow> header_overrides" where
  "header_overrides_with_timestamp p timestamp =
     no_overrides\<lparr>ho_timestamp := Some timestamp, ho_base_fee_params := pd_base_fee_params p\<rparr>"

definition provider_header_overrides :: "('w, 'bp, 'c) provider_data \<Rightarrow> header_overrides" where
  "provider_header_overrides p = no_overrides\<lparr>ho_base_fee_params := pd_base_fee_params p\<rparr>"

record evm_config =
  ec_chain_id :: u64
  ec_disable_block_gas_limit :: bool
  ec_disable_eip3607 :: bool
  ec_limit_contract_code_size :: "u64 option"
  ec_transaction_gas_cap :: "u64 option"

definition create_evm_config :: "('w, 'bp, 'c) provider_data \<Rightarrow> u64 \<Rightarrow> evm_config" where
  "create_evm_config p chain_id =
     \<lparr>ec_chain_id = chain_id,
      ec_disable_block_gas_limit = (mp_block_gas_limit (pd_mem_pool p) = None),
      ec_disable_eip3607 = True,
      ec_limit_contract_code_size = (if pd_allow_unlimited_contract_size p then Some (- 1) else None),
      ec_transaction_gas_cap = Some (unwrap_or (mp_transaction_gas_cap (pd_mem_pool p)) (- 1))\<rparr>"

text \<open>What is mined is an argument of the operations that follow.\<close>

type_synonym ('w, 'bp, 'c, 'o, 'e) mine_fn =
  "('w, 'bp, 'c) provider_data \<Rightarrow> evm_config \<Rightarrow> header_overrides
     \<Rightarrow> (('e + 'w built_block \<times> 'o list) \<times> ('w, 'bp, 'c) provider_data) outcome option"

definition mine_block_with_mem_pool ::
  "('w, 'bp, 'bx, 'v, 'x, 'i, 'ie, 'o, 'g, 'c) provider_env
     \<Rightarrow> ('w, 'bp, 'c, 'o, ('v, 'x, 'r, 'ie, 'g) provider_error) mine_fn" where
  "mine_block_with_mem_pool env p config options =
     and_then_run (Some (current_state env p)) (\<lambda>state p.
       case last_local_block (pe_header_env env) (pd_blockchain p) of
         Panic \<Rightarrow> Some Panic
       | Return (last_block, lc) \<Rightarrow>
           (let p = p\<lparr>pd_blockchain := lc\<rparr>
            in case mine_block (pe_builder env) (pe_flush_inspector_data env) (pe_less_than_basefee env) last_block
                      (pd_hardfork p) (pd_block_config p) state (pd_mem_pool p) (ec_disable_block_gas_limit config) options
                      (pd_min_gas_price p) (pd_mining_order p) (Some (pe_observer env)) of
                 None \<Rightarrow> None
               | Some r \<Rightarrow> Some (bind_outcome r (\<lambda>r. Return (map_sum MineBlock id r, p)))))"

text \<open>The observer that the transaction was executed with is asked for its data afterwards.\<close>

definition pd_mine_block_with_single_transaction ::
  "('w, 'bp, 'bx, 'v, 'x, 'i, 'ie, 'o, 'g, 'c) provider_env \<Rightarrow> transaction \<Rightarrow> ('w built_block \<Rightarrow> 'i)
     \<Rightarrow> ('w, 'bp, 'c, 'o, ('v, 'x, 'r, 'ie, 'g) provider_error) mine_fn" where
  "pd_mine_block_with_single_transaction env tx observer_after p config options =
     and_then_run (Some (current_state env p)) (\<lambda>state p.
       case last_local_block (pe_header_env env) (pd_blockchain p) of
         Panic \<Rightarrow> Some Panic
       | Return (last_block, lc) \<Rightarrow>
           (let p = p\<lparr>pd_blockchain := lc\<rparr>
            in Some (bind_outcome
                 (mine_block_with_single_transaction (pe_builder env) last_block (pd_hardfork p) (pd_block_config p) state tx
                    (ec_disable_block_gas_limit config) options (pd_min_gas_price p) (Some (pe_observer env)))
                 (\<lambda>r. Return
                    (case r of
                       Inl e \<Rightarrow> Inl (MineSingleTransaction e)
                     | Inr built \<Rightarrow>
                         (case fst (pe_flush_inspector_data env (observer_after built)) of
                            Inl e \<Rightarrow> Inl (InspectorError e)
                          | Inr inspector_data \<Rightarrow> Inr (built, [inspector_data])), p)))))"

definition complete_options :: "('w, 'bp, 'c) provider_data \<Rightarrow> header_overrides \<Rightarrow> header_overrides" where
  "complete_options p options =
     (let evm_spec_id = pd_evm_spec_id p;
          options = options
            \<lparr>ho_base_fee := (case ho_base_fee options of Some f \<Rightarrow> Some f | None \<Rightarrow> pd_next_block_base_fee_per_gas p),
             ho_beneficiary := Some (unwrap_or (ho_beneficiary options) (pd_beneficiary p)),
             ho_gas_limit := (case ho_gas_limit options of Some l \<Rightarrow> Some l | None \<Rightarrow> mp_block_gas_limit (pd_mem_pool p))\<rparr>;
          options = (if ho_mix_hash options = None \<and> MERGE \<le> evm_spec_id
                     then options\<lparr>ho_mix_hash := Some (next_value (pd_prev_randao_generator p))\<rparr> else options)
      in if CANCUN \<le> evm_spec_id
         then options\<lparr>ho_parent_beacon_block_root :=
                (case ho_parent_beacon_block_root options of
                   Some r \<Rightarrow> Some r
                 | None \<Rightarrow> Some (next_value (pd_parent_beacon_block_root_generator p)))\<rparr>
         else options)"

definition pd_mine_block ::
  "('w, 'bp, 'bx, 'v, 'x, 'i, 'ie, 'o, 'g, 'c) provider_env
     \<Rightarrow> ('w, 'bp, 'c, 'o, ('v, 'x, 'r, 'ie, 'g) provider_error) mine_fn \<Rightarrow> ('w, 'bp, 'c) provider_data \<Rightarrow> header_overrides
     \<Rightarrow> ((('v, 'x, 'r, 'ie, 'g) provider_error + 'w built_block \<times> 'o list) \<times> ('w, 'bp, 'c) provider_data) outcome option" where
  "pd_mine_block env mine_fn p options =
     and_then_run (mine_fn p (create_evm_config p (pd_chain_id p)) (complete_options p options)) (\<lambda>(built, data) p.
       case pe_on_collected_gas_report env of
         None \<Rightarrow> Some (Return (Inr (built, data), p))
       | Some callback \<Rightarrow>
           (case callback built data of
              Inl e \<Rightarrow> Some (Return (Inl (OnCollectedGasReportCallback e), p))
            | Inr _ \<Rightarrow> Some (Return (Inr (built, data), p))))"

text \<open>The part of \<open>mine_and_commit_block_impl\<close> after the block was mined.\<close>

definition commit_mined_block ::
  "('w, 'bp, 'bx, 'v, 'x, 'i, 'ie, 'o, 'g, 'c) provider_env \<Rightarrow> clock \<Rightarrow> u64 option \<Rightarrow> 'w built_block \<Rightarrow> 'o list
     \<Rightarrow> ('w, 'bp, 'c) provider_data
     \<Rightarrow> ((('v, 'x, 'r, 'ie, 'g) provider_error + ('w, 'o) mine_block_result) \<times> ('w, 'bp, 'c) provider_data) outcome" where
  "commit_mined_block env clock new_offset built data p =
     and_then (lift_blockchain p (lc_insert_block (pe_header_env env) (pd_blockchain p) (bt_block built) (bt_state_diff built)))
       (\<lambda>(block, total_difficulty) p.
          case mem_pool_update (pd_mem_pool p) (basic_of (bt_state built)) of
            (Inl e, pool) \<Rightarrow> Return (Inl (MemPoolUpdate e), p\<lparr>pd_mem_pool := pool\<rparr>)
          | (Inr _, pool) \<Rightarrow>
              (let (events, fs) =
                     notify_subscribers_about_mined_block (pe_bloom_contains env) (ck_now clock) (pd_filters p) block total_difficulty;
                   p = p\<lparr>pd_mem_pool := pool,
                         pd_block_time_offset_seconds := unwrap_or new_offset (pd_block_time_offset_seconds p),
                         pd_next_block_base_fee_per_gas := None,
                         pd_next_block_timestamp := None,
                         pd_parent_beacon_block_root_generator :=
                           snd (generate_next (pe_keccak256 env) (pd_parent_beacon_block_root_generator p)),
                         pd_prev_randao_generator := snd (generate_next (pe_keccak256 env) (pd_prev_randao_generator p)),
                         pd_filters := fs,
                         pd_subscriber_events := pd_subscriber_events p @ events\<rparr>
               in Return
                    (Inr \<lparr>mr_block = block, mr_transaction_inspector_data = data,
                          mr_transaction_results = bt_transaction_results built\<rparr>,
                     snd (add_state_to_cache env p (bt_state built) (bh_number (lb_header block))))))"

definition mine_and_commit_block_impl ::
  "('w, 'bp, 'bx, 'v, 'x, 'i, 'ie, 'o, 'g, 'c) provider_env \<Rightarrow> clock
     \<Rightarrow> ('w, 'bp, 'c, 'o, ('v, 'x, 'r, 'ie, 'g) provider_error) mine_fn \<Rightarrow> ('w, 'bp, 'c) provider_data \<Rightarrow> header_overrides
     \<Rightarrow> ((('v, 'x, 'r, 'ie, 'g) provider_error + ('w, 'o) mine_block_result) \<times> ('w, 'bp, 'c) provider_data) outcome option" where
  "mine_and_commit_block_impl env clock mine_fn p options =
     and_then_run (Some (next_block_timestamp env clock p (ho_timestamp options))) (\<lambda>(block_timestamp, new_offset) p.
       and_then_run (pd_mine_block env mine_fn p (options\<lparr>ho_timestamp := Some block_timestamp\<rparr>)) (\<lambda>(built, data) p.
         Some (commit_mined_block env clock new_offset built data p)))"

definition mine_and_commit_block ::
  "('w, 'bp, 'bx, 'v, 'x, 'i, 'ie, 'o, 'g, 'c) provider_env \<Rightarrow> clock \<Rightarrow> ('w, 'bp, 'c) provider_data \<Rightarrow> header_overrides
     \<Rightarrow> ((('v, 'x, 'r, 'ie, 'g) provider_error + ('w, 'o) mine_block_result) \<times> ('w, 'bp, 'c) provider_data) outcome option" where
  "mine_and_commit_block env clock p options =
     mine_and_commit_block_impl env clock (mine_block_with_mem_pool env) p options"

definition interval_mine ::
  "('w, 'bp, 'bx, 'v, 'x, 'i, 'ie, 'o, 'g, 'c) provider_env \<Rightarrow> clock \<Rightarrow> ('w, 'bp, 'c) provider_data
     \<Rightarrow> ((('v, 'x, 'r, 'ie, 'g) provider_error + bool) \<times> ('w, 'bp, 'c) provider_data) outcome option" where
  "interval_mine env clock p =
     and_then_run (mine_and_commit_block env clock p (provider_header_overrides p)) (\<lambda>_ p. Some (Return (Inr True, p)))"

definition mine_pending_block ::
  "('w, 'bp, 'bx, 'v, 'x, 'i, 'ie, 'o, 'g, 'c) provider_env \<Rightarrow> clock \<Rightarrow> ('w, 'bp, 'c) provider_data
     \<Rightarrow> ((('v, 'x, 'r, 'ie, 'g) provider_error + 'w built_block \<times> 'o list) \<times> ('w, 'bp, 'c) provider_data) outcome option" where
  "mine_pending_block env clock p =
     and_then_run (Some (next_block_timestamp env clock p None)) (\<lambda>(block_timestamp, _) p.
       pd_mine_block env (mine_block_with_mem_pool env) p (header_overrides_with_timestamp p block_timestamp))"

section \<open>Mining several blocks\<close>

definition MINIMUM_RESERVABLE_BLOCKS :: u64 where
  "MINIMUM_RESERVABLE_BLOCKS = 6"

definition mine_block_with_interval ::
  "('w, 'bp, 'bx, 'v, 'x, 'i, 'ie, 'o, 'g, 'c) provider_env \<Rightarrow> (nat \<Rightarrow> clock) \<Rightarrow> u64 \<Rightarrow> ('w, 'o) mine_block_result list
     \<Rightarrow> ('w, 'bp, 'c) provider_data
     \<Rightarrow> ((('v, 'x, 'r, 'ie, 'g) provider_error + ('w, 'o) mine_block_result list) \<times> ('w, 'bp, 'c) provider_data) outcome option" where
  "mine_block_with_interval env clocks interval mined_blocks p =
     (if mined_blocks = [] then Some Panic
      else
        (let previous_timestamp = bh_timestamp (lb_header (mr_block (last mined_blocks)))
         in and_then_run
              (mine_and_commit_block env (clocks (length mined_blocks)) p
                 (header_overrides_with_timestamp p (previous_timestamp + interval)))
              (\<lambda>mined_block p. Some (Return (Inr (mined_blocks @ [mined_block]), p)))))"

text \<open>The loop that mines the pending transactions, with the number of the blocks left, and the loop
  over the remaining blocks.\<close>

fun mine_pending_blocks ::
  "('w, 'bp, 'bx, 'v, 'x, 'i, 'ie, 'o, 'g, 'c) provider_env \<Rightarrow> (nat \<Rightarrow> clock) \<Rightarrow> u64 \<Rightarrow> nat \<Rightarrow> ('w, 'o) mine_block_result list
     \<Rightarrow> ('w, 'bp, 'c) provider_data
     \<Rightarrow> ((('v, 'x, 'r, 'ie, 'g) provider_error + ('w, 'o) mine_block_result list) \<times> ('w, 'bp, 'c) provider_data) outcome option" where
  "mine_pending_blocks env clocks interval 0 mined_blocks p = Some (Return (Inr mined_blocks, p))"
| "mine_pending_blocks env clocks interval (Suc left) mined_blocks p =
     (if has_pending_transactions (pd_mem_pool p)
      then and_then_run (mine_block_with_interval env clocks interval mined_blocks p)
             (\<lambda>mined_blocks p. mine_pending_blocks env clocks interval left mined_blocks p)
      else Some (Return (Inr mined_blocks, p)))"

fun mine_remaining_blocks ::
  "('w, 'bp, 'bx, 'v, 'x, 'i, 'ie, 'o, 'g, 'c) provider_env \<Rightarrow> (nat \<Rightarrow> clock) \<Rightarrow> u64 \<Rightarrow> nat \<Rightarrow> ('w, 'o) mine_block_result list
     \<Rightarrow> ('w, 'bp, 'c) provider_data
     \<Rightarrow> ((('v, 'x, 'r, 'ie, 'g) provider_error + ('w, 'o) mine_block_result list) \<times> ('w, 'bp, 'c) provider_data) outcome option" where
  "mine_remaining_blocks env clocks interval 0 mined_blocks p = Some (Return (Inr mined_blocks, p))"
| "mine_remaining_blocks env clocks interval (Suc left) mined_blocks p =
     and_then_run (mine_block_with_interval env clocks interval mined_blocks p)
       (\<lambda>mined_blocks p. mine_remaining_blocks env clocks interval left mined_blocks p)"

definition reserve_and_mine ::
  "('w, 'bp, 'bx, 'v, 'x, 'i, 'ie, 'o, 'g, 'c) provider_env \<Rightarrow> (nat \<Rightarrow> clock) \<Rightarrow> u64 \<Rightarrow> u64 \<Rightarrow> ('w, 'o) mine_block_result list
     \<Rightarrow> ('w, 'bp, 'c) provider_data
     \<Rightarrow> ((('v, 'x, 'r, 'ie, 'g) provider_error + ('w, 'o) mine_block_result list) \<times> ('w, 'bp, 'c) provider_data) outcome option" where
  "reserve_and_mine env clocks interval remaining_blocks mined_blocks p =
     and_then_run (Some (current_state env p)) (\<lambda>state p.
       and_then_run
         (Some (lift_blockchain p
            (lc_reserve_blocks (pe_header_env env) (pd_blockchain p) (pd_block_config p) (remaining_blocks - 1) interval)))
         (\<lambda>_ p.
            let p = snd (add_state_to_cache env p state (pd_last_block_number p))
            in and_then_run (Some (pd_last_block env p)) (\<lambda>last_block p.
                 and_then_run
                   (mine_and_commit_block env (clocks (length mined_blocks)) p
                      (header_overrides_with_timestamp p (bh_timestamp (lb_header last_block) + interval)))
                   (\<lambda>mined_block p. Some (Return (Inr (mined_blocks @ [mined_block]), p))))))"

definition mine_and_commit_blocks ::
  "('w, 'bp, 'bx, 'v, 'x, 'i, 'ie, 'o, 'g, 'c) provider_env \<Rightarrow> (nat \<Rightarrow> clock) \<Rightarrow> ('w, 'bp, 'c) provider_data \<Rightarrow> u64 \<Rightarrow> u64
     \<Rightarrow> ((('v, 'x, 'r, 'ie, 'g) provider_error + ('w, 'o) mine_block_result list) \<times> ('w, 'bp, 'c) provider_data) outcome option" where
  "mine_and_commit_blocks env clocks p number_of_blocks interval =
     (if number_of_blocks = 0 then Some (Return (Inr [], p))
      else
        and_then_run (mine_and_commit_block env (clocks 0) p (provider_header_overrides p)) (\<lambda>first p.
          and_then_run (mine_pending_blocks env clocks interval (unat number_of_blocks - 1) [first] p) (\<lambda>mined_blocks p.
            and_then_run
              (if length mined_blocks < unat number_of_blocks
               then mine_block_with_interval env clocks interval mined_blocks p
               else Some (Return (Inr mined_blocks, p)))
              (\<lambda>mined_blocks p.
                 let remaining_blocks = number_of_blocks - word_of_nat (length mined_blocks)
                 in if remaining_blocks < MINIMUM_RESERVABLE_BLOCKS
                    then mine_remaining_blocks env clocks interval (unat remaining_blocks) mined_blocks p
                    else reserve_and_mine env clocks interval remaining_blocks mined_blocks p))))"

section \<open>Sending a transaction\<close>

definition validate_auto_mine_transaction ::
  "('w, 'bp, 'bx, 'v, 'x, 'i, 'ie, 'o, 'g, 'c) provider_env \<Rightarrow> ('w, 'bp, 'c) provider_data \<Rightarrow> transaction
     \<Rightarrow> ((('v, 'x, 'r, 'ie, 'g) provider_error + unit) \<times> ('w, 'bp, 'c) provider_data) outcome" where
  "validate_auto_mine_transaction env p tx =
     and_then (pd_account_next_nonce env p (tx_caller tx)) (\<lambda>next_nonce p.
       case cmp (tx_nonce tx) next_nonce of
         Less \<Rightarrow> Return (Inl (AutoMineNonceTooLow next_nonce (tx_nonce tx)), p)
       | Greater \<Rightarrow> Return (Inl (AutoMineNonceTooHigh next_nonce (tx_nonce tx)), p)
       | Equal \<Rightarrow>
           (let max_priority_fee_per_gas = unwrap_or (tx_max_priority_fee_per_gas tx) (tx_gas_price tx)
            in if max_priority_fee_per_gas < pd_min_gas_price p
               then Return (Inl (AutoMinePriorityFeeTooLow (pd_min_gas_price p) max_priority_fee_per_gas), p)
               else
                 and_then (next_block_base_fee_per_gas env p) (\<lambda>fee p.
                   Return
                     (case fee of
                        None \<Rightarrow> Inr ()
                      | Some next_block_base_fee \<Rightarrow>
                          (case tx_max_fee_per_gas tx of
                             Some max_fee_per_gas \<Rightarrow>
                               if max_fee_per_gas < next_block_base_fee
                               then Inl (AutoMineMaxFeePerGasTooLow next_block_base_fee max_fee_per_gas) else Inr ()
                           | None \<Rightarrow>
                               if tx_gas_price tx < next_block_base_fee
                               then Inl (AutoMineGasPriceTooLow next_block_base_fee (tx_gas_price tx)) else Inr ()), p))))"

definition notify_pending_transaction :: "('w, 'bp, 'c) provider_data \<Rightarrow> b256 \<Rightarrow> ('w, 'bp, 'c) provider_data" where
  "notify_pending_transaction p transaction_hash =
     (let (events, fs) = notify_subscribers_about_pending_transaction (pd_filters p) transaction_hash
      in p\<lparr>pd_filters := fs, pd_subscriber_events := pd_subscriber_events p @ events\<rparr>)"

definition add_pending_transaction ::
  "('w, 'bp, 'bx, 'v, 'x, 'i, 'ie, 'o, 'g, 'c) provider_env \<Rightarrow> ('w, 'bp, 'c) provider_data \<Rightarrow> transaction
     \<Rightarrow> ((('v, 'x, 'r, 'ie, 'g) provider_error + b256) \<times> ('w, 'bp, 'c) provider_data) outcome" where
  "add_pending_transaction env p tx =
     and_then (current_state env p) (\<lambda>state p.
       bind_outcome (add_transaction (pd_mem_pool p) (basic_of state) tx) (\<lambda>(r, pool).
         let p = p\<lparr>pd_mem_pool := pool\<rparr>
         in Return
              (case r of
                 Inl e \<Rightarrow> (Inl (MemPoolAddTransaction e), p)
               | Inr _ \<Rightarrow> (Inr (tx_hash tx), notify_pending_transaction p (tx_hash tx)))))"

text \<open>\<^verbatim>\<open>inspect_err\<close> with a revert to the snapshot.\<close>

definition revert_on_error ::
  "clock \<Rightarrow> u64 \<Rightarrow> (('e + 'a) \<times> ('w, 'bp, 'c) provider_data) outcome \<Rightarrow> (('e + 'a) \<times> ('w, 'bp, 'c) provider_data) outcome" where
  "revert_on_error clock snapshot_id m =
     bind_outcome m (\<lambda>(r, p).
       case r of
         Inl e \<Rightarrow> bind_outcome (revert_to_snapshot clock p snapshot_id) (\<lambda>(_, p). Return (Inl e, p))
       | Inr x \<Rightarrow> Return (Inr x, p))"

text \<open>The two loops: until the transaction is mined, and while there are pending transactions.\<close>

partial_function (option) mine_until_mined ::
  "('w, 'bp, 'bx, 'v, 'x, 'i, 'ie, 'o, 'g, 'c) provider_env \<Rightarrow> (nat \<Rightarrow> clock) \<Rightarrow> u64 \<Rightarrow> b256
     \<Rightarrow> ('w, 'o) mine_block_result list \<Rightarrow> ('w, 'bp, 'c) provider_data
     \<Rightarrow> ((('v, 'x, 'r, 'ie, 'g) provider_error + ('w, 'o) mine_block_result list) \<times> ('w, 'bp, 'c) provider_data) outcome option" where
  "mine_until_mined env clocks snapshot_id transaction_hash mining_results p =
     (let clock = clocks (length mining_results)
      in case map_option (revert_on_error clock snapshot_id) (mine_and_commit_block env clock p (provider_header_overrides p)) of
           None \<Rightarrow> None
         | Some Panic \<Rightarrow> Some Panic
         | Some (Return (Inl e, p)) \<Rightarrow> Some (Return (Inl e, p))
         | Some (Return (Inr result, p)) \<Rightarrow>
             (if has_transaction result transaction_hash then Some (Return (Inr (mining_results @ [result]), p))
              else mine_until_mined env clocks snapshot_id transaction_hash (mining_results @ [result]) p))"

partial_function (option) mine_while_pending ::
  "('w, 'bp, 'bx, 'v, 'x, 'i, 'ie, 'o, 'g, 'c) provider_env \<Rightarrow> (nat \<Rightarrow> clock) \<Rightarrow> u64
     \<Rightarrow> ('w, 'o) mine_block_result list \<Rightarrow> ('w, 'bp, 'c) provider_data
     \<Rightarrow> ((('v, 'x, 'r, 'ie, 'g) provider_error + ('w, 'o) mine_block_result list) \<times> ('w, 'bp, 'c) provider_data) outcome option" where
  "mine_while_pending env clocks snapshot_id mining_results p =
     (if \<not> has_pending_transactions (pd_mem_pool p) then Some (Return (Inr mining_results, p))
      else
        (let clock = clocks (length mining_results)
         in case map_option (revert_on_error clock snapshot_id) (mine_and_commit_block env clock p (provider_header_overrides p)) of
              None \<Rightarrow> None
            | Some Panic \<Rightarrow> Some Panic
            | Some (Return (Inl e, p)) \<Rightarrow> Some (Return (Inl e, p))
            | Some (Return (Inr result, p)) \<Rightarrow>
                mine_while_pending env clocks snapshot_id (mining_results @ [result]) p))"

definition auto_mine ::
  "('w, 'bp, 'bx, 'v, 'x, 'i, 'ie, 'o, 'g, 'c) provider_env \<Rightarrow> (nat \<Rightarrow> clock) \<Rightarrow> u64 \<Rightarrow> b256 \<Rightarrow> ('w, 'bp, 'c) provider_data
     \<Rightarrow> ((('v, 'x, 'r, 'ie, 'g) provider_error + ('w, 'o) mine_block_result list) \<times> ('w, 'bp, 'c) provider_data) outcome option" where
  "auto_mine env clocks snapshot_id transaction_hash p =
     and_then_run (mine_until_mined env clocks snapshot_id transaction_hash [] p) (\<lambda>mining_results p.
       and_then_run (mine_while_pending env clocks snapshot_id mining_results p) (\<lambda>mining_results p.
         Some (Return (Inr mining_results, p\<lparr>pd_snapshots := AList.delete snapshot_id (pd_snapshots p)\<rparr>))))"

definition is_eip4844 :: "transaction \<Rightarrow> bool" where
  "is_eip4844 tx \<longleftrightarrow> tx_type tx = 3"

definition send_blob_transaction ::
  "('w, 'bp, 'bx, 'v, 'x, 'i, 'ie, 'o, 'g, 'c) provider_env \<Rightarrow> clock \<Rightarrow> ('w built_block \<Rightarrow> 'i) \<Rightarrow> ('w, 'bp, 'c) provider_data
     \<Rightarrow> transaction
     \<Rightarrow> ((('v, 'x, 'r, 'ie, 'g) provider_error + b256 \<times> ('w, 'o) mine_block_result list) \<times> ('w, 'bp, 'c) provider_data) outcome option" where
  "send_blob_transaction env clock observer_after p tx =
     (if \<not> pd_is_auto_mining p \<or> has_transactions (pd_mem_pool p) then Some (Return (Inl BlobMemPoolUnsupported, p))
      else
        (let p = notify_pending_transaction p (tx_hash tx)
         in and_then_run
              (mine_and_commit_block_impl env clock (pd_mine_block_with_single_transaction env tx observer_after) p
                 (provider_header_overrides p))
              (\<lambda>result p. Some (Return (Inr (tx_hash tx, [result]), p)))))"

definition send_transaction ::
  "('w, 'bp, 'bx, 'v, 'x, 'i, 'ie, 'o, 'g, 'c) provider_env \<Rightarrow> (nat \<Rightarrow> clock) \<Rightarrow> ('w built_block \<Rightarrow> 'i) \<Rightarrow> ('w, 'bp, 'c) provider_data
     \<Rightarrow> transaction
     \<Rightarrow> ((('v, 'x, 'r, 'ie, 'g) provider_error + b256 \<times> ('w, 'o) mine_block_result list) \<times> ('w, 'bp, 'c) provider_data) outcome option" where
  "send_transaction env clocks observer_after p tx =
     (if is_eip4844 tx then send_blob_transaction env (clocks 0) observer_after p tx
      else if pd_is_auto_mining p
      then
        and_then_run (Some (validate_auto_mine_transaction env p tx)) (\<lambda>_ p.
          let (snapshot_id, p) = make_snapshot (clocks 0) p
          in and_then_run (Some (revert_on_error (clocks 0) snapshot_id (add_pending_transaction env p tx)))
               (\<lambda>transaction_hash p.
                  and_then_run (auto_mine env clocks snapshot_id transaction_hash p) (\<lambda>mining_results p.
                    Some (Return (Inr (transaction_hash, mining_results), p)))))
      else
        and_then_run (Some (add_pending_transaction env p tx)) (\<lambda>transaction_hash p.
          Some (Return (Inr (transaction_hash, []), p))))"

section \<open>Reading in the context of a block\<close>

text \<open>The function that is run gets the block and its state; the hashes of the blocks that it can also
  read are those of the blockchain.\<close>

definition execute_in_block_context ::
  "('w, 'bp, 'bx, 'v, 'x, 'i, 'ie, 'o, 'g, 'c) provider_env \<Rightarrow> clock \<Rightarrow> ('w, 'bp, 'c) provider_data \<Rightarrow> block_spec option
     \<Rightarrow> ('w local_block \<Rightarrow> state_trie \<Rightarrow> ('v, 'x, 'r, 'ie, 'g) provider_error + 't)
     \<Rightarrow> ((('v, 'x, 'r, 'ie, 'g) provider_error + 't) \<times> ('w, 'bp, 'c) provider_data) outcome option" where
  "execute_in_block_context env clock p spec f =
     and_then_run
       (Some (case spec of
                Some spec \<Rightarrow> block_by_block_spec env p spec
              | None \<Rightarrow> and_then (pd_last_block env p) (\<lambda>block p. Return (Inr (Some block), p))))
       (\<lambda>block p.
          case block of
            Some block \<Rightarrow>
              and_then_run (Some (get_or_compute_state env p (bh_number (lb_header block)))) (\<lambda>contextual_state p.
                Some (Return (f block contextual_state, p)))
          | None \<Rightarrow>
              and_then_run (mine_pending_block env clock p) (\<lambda>(built, _) p.
                Some (Return (f (bt_block built) (bt_state built), p))))"

definition get_balance ::
  "('w, 'bp, 'bx, 'v, 'x, 'i, 'ie, 'o, 'g, 'c) provider_env \<Rightarrow> clock \<Rightarrow> ('w, 'bp, 'c) provider_data \<Rightarrow> address \<Rightarrow> block_spec option
     \<Rightarrow> ((('v, 'x, 'r, 'ie, 'g) provider_error + u256) \<times> ('w, 'bp, 'c) provider_data) outcome option" where
  "get_balance env clock p a spec =
     execute_in_block_context env clock p spec (\<lambda>_ state.
       Inr (case state_basic state a of Some account \<Rightarrow> ai_balance account | None \<Rightarrow> 0))"

definition get_code ::
  "('w, 'bp, 'bx, 'v, 'x, 'i, 'ie, 'o, 'g, 'c) provider_env \<Rightarrow> clock \<Rightarrow> ('w, 'bp, 'c) provider_data \<Rightarrow> address \<Rightarrow> block_spec option
     \<Rightarrow> ((('v, 'x, 'r, 'ie, 'g) provider_error + bytecode) \<times> ('w, 'bp, 'c) provider_data) outcome option" where
  "get_code env clock p a spec =
     execute_in_block_context env clock p spec (\<lambda>_ state.
       case state_basic state a of
         Some account \<Rightarrow> map_sum StateError id (state_code_by_hash state (ai_code_hash account))
       | None \<Rightarrow> Inr [])"

definition get_storage_at ::
  "('w, 'bp, 'bx, 'v, 'x, 'i, 'ie, 'o, 'g, 'c) provider_env \<Rightarrow> clock \<Rightarrow> ('w, 'bp, 'c) provider_data \<Rightarrow> address \<Rightarrow> u256
     \<Rightarrow> block_spec option \<Rightarrow> ((('v, 'x, 'r, 'ie, 'g) provider_error + u256) \<times> ('w, 'bp, 'c) provider_data) outcome option" where
  "get_storage_at env clock p a index spec =
     execute_in_block_context env clock p spec (\<lambda>_ state. Inr (state_storage state a index))"

definition get_transaction_count ::
  "('w, 'bp, 'bx, 'v, 'x, 'i, 'ie, 'o, 'g, 'c) provider_env \<Rightarrow> clock \<Rightarrow> ('w, 'bp, 'c) provider_data \<Rightarrow> address \<Rightarrow> block_spec option
     \<Rightarrow> ((('v, 'x, 'r, 'ie, 'g) provider_error + u64) \<times> ('w, 'bp, 'c) provider_data) outcome option" where
  "get_transaction_count env clock p a spec =
     execute_in_block_context env clock p spec (\<lambda>_ state.
       Inr (case state_basic state a of Some account \<Rightarrow> ai_nonce account | None \<Rightarrow> 0))"

end
