(* ===== verification/Provider_Requests.thy ===== *)
theory Provider_Requests
  imports Provider_Mining
begin

text \<open>
  The JSON-RPC requests of a provider (\<^verbatim>\<open>crates/edr_provider/src/provider.rs\<close> and the handlers under
  \<^verbatim>\<open>requests/\<close>): all methods that change the provider, apart from the switch of the interval miner
  and of the logger, and the methods that read blocks, accounts, fees and filters. A transaction is
  sent as it is after it was resolved and signed. A response is the value before its
  serialization.
\<close>

section \<open>Requests and responses\<close>

datatype 'a one_or_more = One 'a | Many "'a list"

record log_filter_options =
  fo_from_block :: "block_spec option"
  fo_to_block :: "block_spec option"
  fo_block_hash :: "b256 option"
  fo_address :: "address one_or_more option"
  fo_topics :: "b256 one_or_more option list option"

datatype method_invocation =
    BlobBaseFee
  | BlockNumber
  | ChainId
  | Coinbase
  | GasPrice
  | GetBalance address "block_spec option"
  | GetCode address "block_spec option"
  | GetFilterChanges u256
  | GetFilterLogs u256
  | GetLogs log_filter_options
  | GetStorageAt address u256 "block_spec option"
  | GetTransactionCount address "block_spec option"
  | MaxPriorityFeePerGas
  | NewBlockFilter
  | NewFilter log_filter_options
  | NewPendingTransactionFilter
  | SendTransaction transaction
  | Subscribe subscription_type "log_filter_options option"
  | Syncing
  | UninstallFilter u256
  | Unsubscribe u256
  | EvmIncreaseTime u64
  | EvmMine "u64 option"
  | EvmRevert u64
  | EvmSetAutomine bool
  | EvmSetBlockGasLimit u64
  | EvmSetNextBlockTimestamp u64
  | EvmSnapshot
  | DropTransaction b256
  | GetAutomine
  | ImpersonateAccount address
  | Mine "u64 option" "u64 option"
  | SetBalance address u256
  | SetCode address bytecode
  | SetCoinbase address
  | SetMinGasPrice u128
  | SetNextBlockBaseFeePerGas u128
  | SetNonce address u64
  | SetPrevRandao b256
  | SetStorageAt address u256 u256
  | StopImpersonatingAccount address

datatype response =
    JsonBool bool
  | JsonNumber u256
  | JsonDecimal int
  | JsonString string
  | JsonAddress address
  | JsonHash b256
  | JsonBytes bytecode
  | JsonLogs "log_output list"
  | JsonEvents filtered_events
  | JsonNull

text \<open>A result with its value turned into a response.\<close>

definition respond ::
  "('a \<Rightarrow> response) \<Rightarrow> (('e + 'a) \<times> 's) outcome option \<Rightarrow> (('e + response) \<times> 's) outcome option" where
  "respond f m = and_then_run m (\<lambda>x s. Some (Return (Inr (f x), s)))"

section \<open>Filter criteria\<close>

definition validate_post_merge_block_tags :: "l1_hardfork \<Rightarrow> block_spec \<Rightarrow> ('v, 'x, 'r, 'ie, 'g) provider_error + unit" where
  "validate_post_merge_block_tags hardfork spec =
     (if into_evm_spec hardfork < MERGE
      then (case spec of
              SpecTag Safe \<Rightarrow> Inl (InvalidBlockTag Safe hardfork)
            | SpecTag Finalized \<Rightarrow> Inl (InvalidBlockTag Finalized hardfork)
            | _ \<Rightarrow> Inr ())
      else Inr ())"

definition validate_optional_tags ::
  "l1_hardfork \<Rightarrow> block_spec option \<Rightarrow> ('v, 'x, 'r, 'ie, 'g) provider_error + unit" where
  "validate_optional_tags hardfork spec =
     (case spec of None \<Rightarrow> Inr () | Some spec \<Rightarrow> validate_post_merge_block_tags hardfork spec)"

definition block_number_of_hash ::
  "('w, 'bp, 'c) provider_data \<Rightarrow> b256 \<Rightarrow> ('v, 'x, 'r, 'ie, 'g) provider_error + u64" where
  "block_number_of_hash p block_hash =
     (case lc_block_by_hash (pd_blockchain p) block_hash of
        Inl e \<Rightarrow> Inl (Blockchain e)
      | Inr None \<Rightarrow> Inl (InvalidArgument ''blockHash cannot be found'')
      | Inr (Some block) \<Rightarrow> Inr (bh_number (lb_header block)))"

definition normalize_block_spec ::
  "('w, 'bp, 'c) provider_data \<Rightarrow> block_spec option \<Rightarrow> ('v, 'x, 'r, 'ie, 'g) provider_error + u64 option" where
  "normalize_block_spec p spec =
     (case validate_optional_tags (pd_hardfork p) spec of
        Inl e \<Rightarrow> Inl e
      | Inr _ \<Rightarrow>
          (case spec of
             None \<Rightarrow> Inr None
           | Some (SpecNumber n) \<Rightarrow> Inr (Some n)
           | Some (SpecEip1898 (Eip1898Number n)) \<Rightarrow> Inr (Some n)
           | Some (SpecTag Earliest) \<Rightarrow> Inr (Some 0)
           | Some (SpecTag _) \<Rightarrow> Inr None
           | Some (SpecEip1898 (Eip1898Hash block_hash _)) \<Rightarrow> map_sum id Some (block_number_of_hash p block_hash)))"

definition filter_block_range ::
  "bool \<Rightarrow> ('w, 'bp, 'c) provider_data \<Rightarrow> log_filter_options \<Rightarrow> ('v, 'x, 'r, 'ie, 'g) provider_error + u64 \<times> u64 option" where
  "filter_block_range should_resolve_latest p options =
     (case fo_block_hash options of
        Some block_hash \<Rightarrow>
          if fo_from_block options \<noteq> None \<or> fo_to_block options \<noteq> None
          then Inl (InvalidArgument ''blockHash is mutually exclusive with fromBlock/toBlock'')
          else map_sum id (\<lambda>n. (n, Some n)) (block_number_of_hash p block_hash)
      | None \<Rightarrow>
          (case normalize_block_spec p (fo_from_block options) of
             Inl e \<Rightarrow> Inl e
           | Inr from_block \<Rightarrow>
               (case normalize_block_spec p (fo_to_block options) of
                  Inl e \<Rightarrow> Inl e
                | Inr to_block \<Rightarrow>
                    Inr (unwrap_or from_block (pd_last_block_number p),
                         if should_resolve_latest \<and> to_block = None then Some (pd_last_block_number p) else to_block))))"

definition validate_filter_criteria ::
  "bool \<Rightarrow> ('w, 'bp, 'c) provider_data \<Rightarrow> log_filter_options \<Rightarrow> ('v, 'x, 'r, 'ie, 'g) provider_error + log_filter" where
  "validate_filter_criteria should_resolve_latest p options =
     (case filter_block_range should_resolve_latest p options of
        Inl e \<Rightarrow> Inl e
      | Inr (from_block, to_block) \<Rightarrow>
          Inr \<lparr>lf_from_block = from_block, lf_to_block = to_block,
               lf_addresses = (case fo_address options of None \<Rightarrow> [] | Some (One a) \<Rightarrow> [a] | Some (Many as) \<Rightarrow> as),
               lf_normalized_topics =
                 (case fo_topics options of
                    None \<Rightarrow> []
                  | Some topics \<Rightarrow> map (map_option (\<lambda>ts. case ts of One t \<Rightarrow> [t] | Many ts \<Rightarrow> ts)) topics)\<rparr>)"

section \<open>Handlers\<close>

definition handle_get_logs_request ::
  "('w, 'bp, 'c) provider_data \<Rightarrow> log_filter_options \<Rightarrow> ('v, 'x, 'r, 'ie, 'g) provider_error + log_output list" where
  "handle_get_logs_request p options =
     (case validate_optional_tags (pd_hardfork p) (fo_from_block options) of
        Inl e \<Rightarrow> Inl e
      | Inr _ \<Rightarrow>
     (case validate_optional_tags (pd_hardfork p) (fo_to_block options) of
        Inl e \<Rightarrow> Inl e
      | Inr _ \<Rightarrow>
     (case validate_filter_criteria True p options of
        Inl e \<Rightarrow> Inl e
      | Inr flt \<Rightarrow> map_sum id (map log_output_of) (pd_logs p flt))))"

definition handle_new_log_filter_request ::
  "clock \<Rightarrow> bool \<Rightarrow> ('w, 'bp, 'c) provider_data \<Rightarrow> log_filter_options
     \<Rightarrow> ((('v, 'x, 'r, 'ie, 'g) provider_error + u256) \<times> ('w, 'bp, 'c) provider_data) outcome" where
  "handle_new_log_filter_request clock is_subscription p options =
     (case validate_filter_criteria False p options of
        Inl e \<Rightarrow> Return (Inl e, p)
      | Inr criteria \<Rightarrow> add_log_filter clock is_subscription p criteria)"

definition handle_subscribe_request ::
  "('w, 'bp, 'bx, 'v, 'x, 'i, 'ie, 'o, 'g, 'c) provider_env \<Rightarrow> clock \<Rightarrow> ('w, 'bp, 'c) provider_data \<Rightarrow> subscription_type
     \<Rightarrow> log_filter_options option
     \<Rightarrow> ((('v, 'x, 'r, 'ie, 'g) provider_error + u256) \<times> ('w, 'bp, 'c) provider_data) outcome" where
  "handle_subscribe_request env clock p subscription_type options =
     (case subscription_type of
        SubscribeLogs \<Rightarrow>
          (case options of
             None \<Rightarrow> Return (Inl (InvalidArgument ''Missing params argument''), p)
           | Some options \<Rightarrow> handle_new_log_filter_request clock True p options)
      | SubscribeNewHeads \<Rightarrow> add_block_filter env clock True p
      | SubscribeNewPendingTransactions \<Rightarrow>
          bind_outcome (add_pending_transaction_filter clock True p) (\<lambda>(i, p). Return (Inr i, p)))"

definition handle_drop_transaction ::
  "('w, 'bp, 'c) provider_data \<Rightarrow> b256 \<Rightarrow> (('v, 'x, 'r, 'ie, 'g) provider_error + bool) \<times> ('w, 'bp, 'c) provider_data" where
  "handle_drop_transaction p h =
     (let (removed, p) = remove_pending_transaction p h
      in if removed \<noteq> None then (Inr True, p)
         else
           (case lc_receipt_by_transaction_hash (pd_blockchain p) h of
              Inl e \<Rightarrow> (Inl (Blockchain e), p)
            | Inr receipt \<Rightarrow> (if receipt \<noteq> None then Inl (InvalidDropTransactionHash h) else Inr False, p)))"

definition handle_set_block_gas_limit_request ::
  "('w, 'bp, 'bx, 'v, 'x, 'i, 'ie, 'o, 'g, 'c) provider_env \<Rightarrow> ('w, 'bp, 'c) provider_data \<Rightarrow> u64
     \<Rightarrow> ((('v, 'x, 'r, 'ie, 'g) provider_error + unit) \<times> ('w, 'bp, 'c) provider_data) outcome" where
  "handle_set_block_gas_limit_request env p gas_limit =
     (if gas_limit = 0 then Return (Inl SetBlockGasLimitMustBeGreaterThanZero, p)
      else pd_set_block_gas_limit env p gas_limit)"

definition handle_mine_request ::
  "('w, 'bp, 'bx, 'v, 'x, 'i, 'ie, 'o, 'g, 'c) provider_env \<Rightarrow> clock \<Rightarrow> ('w, 'bp, 'c) provider_data \<Rightarrow> u64 option
     \<Rightarrow> ((('v, 'x, 'r, 'ie, 'g) provider_error + ('w, 'o) mine_block_result) \<times> ('w, 'bp, 'c) provider_data) outcome option" where
  "handle_mine_request env clock p timestamp =
     mine_and_commit_block env clock p (no_overrides\<lparr>ho_timestamp := timestamp\<rparr>)"

definition handle_mine ::
  "('w, 'bp, 'bx, 'v, 'x, 'i, 'ie, 'o, 'g, 'c) provider_env \<Rightarrow> (nat \<Rightarrow> clock) \<Rightarrow> ('w, 'bp, 'c) provider_data \<Rightarrow> u64 option
     \<Rightarrow> u64 option
     \<Rightarrow> ((('v, 'x, 'r, 'ie, 'g) provider_error + ('w, 'o) mine_block_result list) \<times> ('w, 'bp, 'c) provider_data) outcome option" where
  "handle_mine env clocks p number_of_blocks interval =
     mine_and_commit_blocks env clocks p (unwrap_or number_of_blocks 1) (unwrap_or interval 1)"

text \<open>A request about an account at a block: the tag of the block is validated first.\<close>

definition with_block_tag ::
  "('w, 'bp, 'c) provider_data \<Rightarrow> block_spec option
     \<Rightarrow> ((('v, 'x, 'r, 'ie, 'g) provider_error + 'a) \<times> ('w, 'bp, 'c) provider_data) outcome option
     \<Rightarrow> ((('v, 'x, 'r, 'ie, 'g) provider_error + 'a) \<times> ('w, 'bp, 'c) provider_data) outcome option" where
  "with_block_tag p spec m =
     (case validate_optional_tags (pd_hardfork p) spec of Inl e \<Rightarrow> Some (Return (Inl e, p)) | Inr _ \<Rightarrow> m)"

text \<open>The requests that mine are given the clocks at the time of each block, the others the first of
  them.\<close>

primrec handle_single_request ::
  "('w, 'bp, 'bx, 'v, 'x, 'i, 'ie, 'o, 'g, 'c) provider_env \<Rightarrow> (nat \<Rightarrow> clock) \<Rightarrow> ('w built_block \<Rightarrow> 'i)
     \<Rightarrow> ('w, 'bp, 'c) provider_data \<Rightarrow> method_invocation
     \<Rightarrow> ((('v, 'x, 'r, 'ie, 'g) provider_error + response) \<times> ('w, 'bp, 'c) provider_data) outcome option" where
  "handle_single_request env clocks obs p BlobBaseFee =
     respond (\<lambda>fee. JsonNumber (ucast (unwrap_or fee 0))) (Some (next_block_base_fee_per_blob_gas env p))"
| "handle_single_request env clocks obs p BlockNumber = Some (Return (Inr (JsonNumber (ucast (pd_last_block_number p))), p))"
| "handle_single_request env clocks obs p ChainId = Some (Return (Inr (JsonNumber (ucast (pd_chain_id p))), p))"
| "handle_single_request env clocks obs p Coinbase = Some (Return (Inr (JsonAddress (pd_beneficiary p)), p))"
| "handle_single_request env clocks obs p GasPrice = respond (\<lambda>fee. JsonNumber (ucast fee)) (Some (gas_price env p))"
| "handle_single_request env clocks obs p (GetBalance a spec) =
     respond JsonNumber (with_block_tag p spec (get_balance env (clocks 0) p a spec))"
| "handle_single_request env clocks obs p (GetCode a spec) =
     respond JsonBytes (with_block_tag p spec (get_code env (clocks 0) p a spec))"
| "handle_single_request env clocks obs p (GetFilterChanges i) =
     (let (events, p) = pd_get_filter_changes (clocks 0) p i
      in Some (Return (Inr (case events of None \<Rightarrow> JsonNull | Some events \<Rightarrow> JsonEvents events), p)))"
| "handle_single_request env clocks obs p (GetFilterLogs i) =
     respond (\<lambda>logs. case logs of None \<Rightarrow> JsonNull | Some logs \<Rightarrow> JsonLogs logs)
       (Some (Return (pd_get_filter_logs (clocks 0) p i)))"
| "handle_single_request env clocks obs p (GetLogs options) =
     respond JsonLogs (Some (Return (handle_get_logs_request p options, p)))"
| "handle_single_request env clocks obs p (GetStorageAt a index spec) =
     respond JsonNumber (with_block_tag p spec (get_storage_at env (clocks 0) p a index spec))"
| "handle_single_request env clocks obs p (GetTransactionCount a spec) =
     respond (\<lambda>n. JsonNumber (ucast n)) (with_block_tag p spec (get_transaction_count env (clocks 0) p a spec))"
| "handle_single_request env clocks obs p MaxPriorityFeePerGas = Some (Return (Inr (JsonNumber 1000000000), p))"
| "handle_single_request env clocks obs p NewBlockFilter = respond JsonNumber (Some (add_block_filter env (clocks 0) False p))"
| "handle_single_request env clocks obs p (NewFilter options) =
     respond JsonNumber (Some (handle_new_log_filter_request (clocks 0) False p options))"
| "handle_single_request env clocks obs p NewPendingTransactionFilter =
     respond JsonNumber
       (Some (bind_outcome (add_pending_transaction_filter (clocks 0) False p) (\<lambda>(i, p). Return (Inr i, p))))"
| "handle_single_request env clocks obs p (SendTransaction tx) =
     respond (\<lambda>(h, _). JsonHash h) (send_transaction env clocks obs p tx)"
| "handle_single_request env clocks obs p (Subscribe subscription_type options) =
     respond JsonNumber (Some (handle_subscribe_request env (clocks 0) p subscription_type options))"
| "handle_single_request env clocks obs p Syncing = Some (Return (Inr (JsonBool False), p))"
| "handle_single_request env clocks obs p (UninstallFilter i) =
     (let (removed, p) = remove_filter p i in Some (Return (Inr (JsonBool removed), p)))"
| "handle_single_request env clocks obs p (Unsubscribe i) =
     (let (removed, p) = remove_subscription p i in Some (Return (Inr (JsonBool removed), p)))"
| "handle_single_request env clocks obs p (EvmIncreaseTime increment) =
     Some (bind_outcome (increase_block_time p increment) (\<lambda>(offset, p). Return (Inr (JsonDecimal (sint offset)), p)))"
| "handle_single_request env clocks obs p (EvmMine timestamp) =
     respond (\<lambda>_. JsonString ''0'') (handle_mine_request env (clocks 0) p timestamp)"
| "handle_single_request env clocks obs p (EvmRevert i) =
     Some (bind_outcome (revert_to_snapshot (clocks 0) p i) (\<lambda>(reverted, p). Return (Inr (JsonBool reverted), p)))"
| "handle_single_request env clocks obs p (EvmSetAutomine enabled) = Some (Return (Inr (JsonBool True), set_auto_mining p enabled))"
| "handle_single_request env clocks obs p (EvmSetBlockGasLimit gas_limit) =
     respond (\<lambda>_. JsonBool True) (Some (handle_set_block_gas_limit_request env p gas_limit))"
| "handle_single_request env clocks obs p (EvmSetNextBlockTimestamp timestamp) =
     respond (\<lambda>t. JsonDecimal (uint t)) (Some (set_next_block_timestamp env p timestamp))"
| "handle_single_request env clocks obs p EvmSnapshot =
     (let (i, p) = make_snapshot (clocks 0) p in Some (Return (Inr (JsonNumber (ucast i)), p)))"
| "handle_single_request env clocks obs p (DropTransaction h) =
     respond JsonBool (Some (Return (handle_drop_transaction p h)))"
| "handle_single_request env clocks obs p GetAutomine = Some (Return (Inr (JsonBool (pd_is_auto_mining p)), p))"
| "handle_single_request env clocks obs p (ImpersonateAccount a) = Some (Return (Inr (JsonBool True), impersonate_account p a))"
| "handle_single_request env clocks obs p (Mine number_of_blocks interval) =
     respond (\<lambda>_. JsonBool True) (handle_mine env clocks p number_of_blocks interval)"
| "handle_single_request env clocks obs p (SetBalance a balance) = respond (\<lambda>_. JsonBool True) (Some (set_balance env p a balance))"
| "handle_single_request env clocks obs p (SetCode a code) = respond (\<lambda>_. JsonBool True) (Some (set_code env p a code))"
| "handle_single_request env clocks obs p (SetCoinbase a) = Some (Return (Inr (JsonBool True), set_coinbase p a))"
| "handle_single_request env clocks obs p (SetMinGasPrice price) =
     respond (\<lambda>_. JsonBool True) (Some (Return (set_min_gas_price p price)))"
| "handle_single_request env clocks obs p (SetNextBlockBaseFeePerGas fee) =
     respond (\<lambda>_. JsonBool True) (Some (Return (set_next_block_base_fee_per_gas p fee)))"
| "handle_single_request env clocks obs p (SetNonce a nonce) = respond (\<lambda>_. JsonBool True) (Some (set_nonce env p a nonce))"
| "handle_single_request env clocks obs p (SetPrevRandao v) =
     respond (\<lambda>_. JsonBool True) (Some (Return (set_next_prev_randao p v)))"
| "handle_single_request env clocks obs p (SetStorageAt a index v) =
     respond (\<lambda>_. JsonBool True) (Some (pd_set_account_storage_slot env p a index v))"
| "handle_single_request env clocks obs p (StopImpersonatingAccount a) =
     (let (removed, p) = stop_impersonating_account p a in Some (Return (Inr (JsonBool removed), p)))"

text \<open>A batch: the requests one after the other, until the first error. The \<open>i\<close>-th request is handled
  with the clocks \<open>clocks i\<close>.\<close>

fun handle_batch_request ::
  "('w, 'bp, 'bx, 'v, 'x, 'i, 'ie, 'o, 'g, 'c) provider_env \<Rightarrow> (nat \<Rightarrow> nat \<Rightarrow> clock) \<Rightarrow> ('w built_block \<Rightarrow> 'i)
     \<Rightarrow> ('w, 'bp, 'c) provider_data \<Rightarrow> response list \<Rightarrow> method_invocation list
     \<Rightarrow> ((('v, 'x, 'r, 'ie, 'g) provider_error + response list) \<times> ('w, 'bp, 'c) provider_data) outcome option" where
  "handle_batch_request env clocks obs p results [] = Some (Return (Inr results, p))"
| "handle_batch_request env clocks obs p results (req # reqs) =
     and_then_run (handle_single_request env (clocks (length results)) obs p req) (\<lambda>response p.
       handle_batch_request env clocks obs p (results @ [response]) reqs)"

end
