(* ===== verification/Provider_Facts.thy ===== *)
theory Provider_Facts
  imports Provider_Requests Mem_Pool_Ops Mining_Chain
begin

text \<open>
  The well-formedness of a provider, which every request keeps. The proofs compose along the
  results of the operations with the rules for \<open>keeps\<close>.
\<close>

section \<open>Results that keep a predicate of the state\<close>

definition keeps :: "('s \<Rightarrow> bool) \<Rightarrow> (('e + 'a) \<times> 's) outcome option \<Rightarrow> bool" where
  "keeps P m \<longleftrightarrow> (\<forall>r s. m = Some (Return (r, s)) \<longrightarrow> P s)"

named_theorems keeps_rules \<open>rules for results that keep a predicate\<close>

lemma keeps_trivial [keeps_rules]: "keeps P None" "keeps P (Some Panic)"
  by (simp_all add: keeps_def)

lemma keeps_Return [keeps_rules]: "P s \<Longrightarrow> keeps P (Some (Return (r, s)))"
  by (simp add: keeps_def)

lemma keeps_pair [keeps_rules]: "P (snd x) \<Longrightarrow> keeps P (Some (Return x))"
  by (cases x) (simp add: keeps_def)

lemma keeps_and_then_run [keeps_rules]:
  "keeps P m \<Longrightarrow> (\<And>x s. P s \<Longrightarrow> keeps P (f x s)) \<Longrightarrow> keeps P (and_then_run m f)"
  by (auto simp: keeps_def and_then_run_def split: option.splits outcome.splits sum.splits)

lemma keeps_and_then [keeps_rules]:
  "keeps P (Some m) \<Longrightarrow> (\<And>x s. P s \<Longrightarrow> keeps P (Some (f x s))) \<Longrightarrow> keeps P (Some (and_then m f))"
  by (auto simp: keeps_def and_then_def split: outcome.splits sum.splits)

lemma keeps_bind: "(\<And>x. m = Return x \<Longrightarrow> keeps P (Some (f x))) \<Longrightarrow> keeps P (Some (bind_outcome m f))"
  by (auto simp: keeps_def)

lemma keeps_case_sum [keeps_rules]:
  "(\<And>e. r = Inl e \<Longrightarrow> keeps P (f e)) \<Longrightarrow> (\<And>x. r = Inr x \<Longrightarrow> keeps P (g x)) \<Longrightarrow> keeps P (case r of Inl e \<Rightarrow> f e | Inr x \<Rightarrow> g x)"
  by (cases r) auto

lemma keeps_if [keeps_rules]: "(b \<Longrightarrow> keeps P m) \<Longrightarrow> (\<not> b \<Longrightarrow> keeps P m') \<Longrightarrow> keeps P (if b then m else m')"
  by auto

lemma keeps_Some_if [keeps_rules]:
  "(b \<Longrightarrow> keeps P (Some m)) \<Longrightarrow> (\<not> b \<Longrightarrow> keeps P (Some m')) \<Longrightarrow> keeps P (Some (if b then m else m'))"
  by auto

lemma keeps_respond [keeps_rules]: "keeps P m \<Longrightarrow> keeps P (respond f m)"
  by (auto simp: keeps_def respond_def and_then_run_def split: option.splits outcome.splits sum.splits)

lemma keeps_with_block_tag [keeps_rules]: "P p \<Longrightarrow> keeps P m \<Longrightarrow> keeps P (with_block_tag p spec m)"
  by (auto simp: with_block_tag_def keeps_def split: sum.splits)

section \<open>Well-formed providers\<close>

definition snapshot_ok :: "snapshot \<Rightarrow> bool" where
  "snapshot_ok s \<longleftrightarrow> pool_inv (sn_mem_pool s) \<and> btree_ok (sn_irregular_state s)"

definition filters_ok :: "u256 \<Rightarrow> filters \<Rightarrow> bool" where
  "filters_ok last_id fs \<longleftrightarrow> distinct (map fst fs) \<and> (\<forall>i \<in> set (map fst fs). 0 < i \<and> i \<le> last_id)"

definition snapshots_ok :: "(u64 \<times> snapshot) list \<Rightarrow> bool" where
  "snapshots_ok ss \<longleftrightarrow> btree_ok ss \<and> (\<forall>(i, s) \<in> set ss. snapshot_ok s)"

definition provider_ok :: "('w, 'bp, 'c) provider_data \<Rightarrow> bool" where
  "provider_ok p \<longleftrightarrow>
     pool_inv (pd_mem_pool p) \<and> btree_ok (pd_irregular_state p)
     \<and> snapshots_ok (pd_snapshots p)
     \<and> filters_ok (pd_last_filter_id p) (pd_filters p)"

lemma provider_okD:
  assumes "provider_ok p"
  shows "pool_inv (pd_mem_pool p)" "btree_ok (pd_irregular_state p)"
    "snapshots_ok (pd_snapshots p)" "filters_ok (pd_last_filter_id p) (pd_filters p)"
  using assms by (simp_all add: provider_ok_def)

text \<open>What the operations change that is not part of the well-formedness.\<close>

lemma provider_ok_update [simp]:
  "provider_ok (p\<lparr>pd_beneficiary := a\<rparr>) = provider_ok p"
  "provider_ok (p\<lparr>pd_blockchain := lc\<rparr>) = provider_ok p"
  "provider_ok (p\<lparr>pd_is_auto_mining := b\<rparr>) = provider_ok p"
  "provider_ok (p\<lparr>pd_min_gas_price := price\<rparr>) = provider_ok p"
  "provider_ok (p\<lparr>pd_parent_beacon_block_root_generator := g\<rparr>) = provider_ok p"
  "provider_ok (p\<lparr>pd_prev_randao_generator := g\<rparr>) = provider_ok p"
  "provider_ok (p\<lparr>pd_block_time_offset_seconds := t\<rparr>) = provider_ok p"
  "provider_ok (p\<lparr>pd_next_block_base_fee_per_gas := fee\<rparr>) = provider_ok p"
  "provider_ok (p\<lparr>pd_next_block_timestamp := ts\<rparr>) = provider_ok p"
  "provider_ok (p\<lparr>pd_impersonated_accounts := A\<rparr>) = provider_ok p"
  "provider_ok (p\<lparr>pd_subscriber_events := ev\<rparr>) = provider_ok p"
  "provider_ok (p\<lparr>pd_block_state_cache := c\<rparr>) = provider_ok p"
  "provider_ok (p\<lparr>pd_current_state_id := i\<rparr>) = provider_ok p"
  "provider_ok (p\<lparr>pd_block_number_to_state_id := m\<rparr>) = provider_ok p"
  by (simp_all add: provider_ok_def)

lemma provider_ok_pool: "provider_ok p \<Longrightarrow> pool_inv pool \<Longrightarrow> provider_ok (p\<lparr>pd_mem_pool := pool\<rparr>)"
  by (simp add: provider_ok_def)

lemma provider_ok_filters:
  "provider_ok p \<Longrightarrow> filters_ok (pd_last_filter_id p) fs \<Longrightarrow> provider_ok (p\<lparr>pd_filters := fs\<rparr>)"
  by (simp add: provider_ok_def)

subsection \<open>Reading the blockchain and the states\<close>

lemma lift_blockchain_ok [keeps_rules]: "provider_ok p \<Longrightarrow> keeps provider_ok (Some (lift_blockchain p m))"
  unfolding lift_blockchain_def by (rule keeps_bind) (auto intro: keeps_rules)

lemma last_block_ok [keeps_rules]: "provider_ok p \<Longrightarrow> keeps provider_ok (Some (pd_last_block env p))"
  unfolding pd_last_block_def by (rule keeps_rules)

lemma block_or_invalid_ok [keeps_rules]: "provider_ok p \<Longrightarrow> keeps provider_ok (Some (block_or_invalid spec found p))"
  unfolding block_or_invalid_def by (rule keeps_rules)

lemma block_by_block_spec_ok [keeps_rules]: "provider_ok p \<Longrightarrow> keeps provider_ok (Some (block_by_block_spec env p spec))"
  unfolding block_by_block_spec_def Let_def
  by (auto intro!: keeps_rules split: block_spec.split block_tag.split eip1898_block_spec.split option.split)

lemma base_fee_ok [keeps_rules]:
  "provider_ok p \<Longrightarrow> keeps provider_ok (Some (next_block_base_fee_per_gas env p))"
  "provider_ok p \<Longrightarrow> keeps provider_ok (Some (next_block_base_fee_per_blob_gas env p))"
  unfolding next_block_base_fee_per_gas_def next_block_base_fee_per_blob_gas_def
  by (auto intro!: keeps_rules keeps_bind split: option.split)

lemma gas_price_ok [keeps_rules]: "provider_ok p \<Longrightarrow> keeps provider_ok (Some (gas_price env p))"
  unfolding gas_price_def by (auto intro!: keeps_rules)

lemma add_state_to_cache_ok [simp]: "provider_ok (snd (add_state_to_cache env p state n)) = provider_ok p"
  by (simp add: add_state_to_cache_def Let_def)

lemma compute_state_ok [keeps_rules]: "provider_ok p \<Longrightarrow> keeps provider_ok (Some (compute_state env p n))"
  unfolding compute_state_def add_state_to_cache_def Let_def
  by (rule keeps_bind) (auto intro!: keeps_rules split: sum.split prod.split option.split)

lemma get_or_compute_state_ok [keeps_rules]: "provider_ok p \<Longrightarrow> keeps provider_ok (Some (get_or_compute_state env p n))"
  unfolding get_or_compute_state_def Let_def by (auto intro!: keeps_rules split: option.split prod.split)

lemma current_state_ok [keeps_rules]: "provider_ok p \<Longrightarrow> keeps provider_ok (Some (current_state env p))"
  unfolding current_state_def by (rule keeps_rules)

lemma account_next_nonce_ok [keeps_rules]: "provider_ok p \<Longrightarrow> keeps provider_ok (Some (pd_account_next_nonce env p a))"
  unfolding pd_account_next_nonce_def by (intro keeps_rules keeps_bind)

subsection \<open>Changing the state\<close>

lemma update_pool_ok:
  fixes r :: "'r state_error + unit"
  assumes "pool_inv pool" and "mem_pool_update pool (basic_of state) = (r, pool')"
  shows "r = Inr () \<and> pool_inv pool'"
proof -
  have "fst (mem_pool_update pool (basic_of state :: 'r state_error basic_fn)) = Inr ()"
    unfolding basic_of_def by (rule mem_pool_update_total)
  with assms(2) have "r = Inr ()" by simp
  with assms mem_pool_update_result show ?thesis by blast
qed

lemma updated_pool_ok:
  "provider_ok p \<Longrightarrow> mem_pool_update (pd_mem_pool p) (basic_of state) = (r, pool) \<Longrightarrow> provider_ok (p\<lparr>pd_mem_pool := pool\<rparr>)"
  using update_pool_ok provider_okD(1) provider_ok_pool by blast

lemma set_block_gas_limit_ok:
  assumes "pool_inv pool" and "set_block_gas_limit pool (basic_of state) limit = (r, pool')"
  shows "pool_inv pool'"
proof -
  have "pool_inv (pool\<lparr>mp_block_gas_limit := limit\<rparr>)"
    using assms(1) by (simp add: pool_inv_def queues_inv_def pool_mset_def)
  with assms(2) update_pool_ok show ?thesis unfolding set_block_gas_limit_def by blast
qed

lemma change_override_ok: "btree_ok m \<Longrightarrow> btree_ok (change_override m n root f)"
  by (simp add: change_override_def Let_def btree_ok_insert)

lemma commit_override_ok: "provider_ok p \<Longrightarrow> provider_ok (commit_override env p state change)"
  unfolding commit_override_def Let_def add_state_to_cache_ok by (simp add: provider_ok_def change_override_ok)

lemma set_account_storage_slot_ok [keeps_rules]:
  "provider_ok p \<Longrightarrow> keeps provider_ok (Some (pd_set_account_storage_slot env p a index v))"
  unfolding pd_set_account_storage_slot_def Let_def
  by (auto intro!: keeps_rules commit_override_ok split: prod.split sum.split)

lemma set_balance_ok [keeps_rules]: "provider_ok p \<Longrightarrow> keeps provider_ok (Some (set_balance env p a balance))"
  unfolding set_balance_def
  by (auto intro!: keeps_rules commit_override_ok split: prod.split sum.split)
    (erule (1) updated_pool_ok)+

lemma set_code_ok [keeps_rules]: "provider_ok p \<Longrightarrow> keeps provider_ok (Some (set_code env p a code))"
  unfolding set_code_def by (auto intro!: keeps_rules commit_override_ok split: prod.split sum.split)

lemma set_nonce_ok [keeps_rules]: "provider_ok p \<Longrightarrow> keeps provider_ok (Some (set_nonce env p a nonce))"
  unfolding set_nonce_def Let_def
  by (auto intro!: keeps_rules commit_override_ok split: prod.split sum.split)
    (erule (1) updated_pool_ok)+

lemma pd_set_block_gas_limit_ok [keeps_rules]:
  "provider_ok p \<Longrightarrow> keeps provider_ok (Some (pd_set_block_gas_limit env p limit))"
  unfolding pd_set_block_gas_limit_def
  by (auto intro!: keeps_rules provider_ok_pool split: prod.split)
    (erule set_block_gas_limit_ok [OF provider_okD(1)])

subsection \<open>Settings, filters and snapshots\<close>

lemma settings_ok:
  assumes "provider_ok p"
  shows "provider_ok (snd (set_min_gas_price p price))" "provider_ok (snd (set_next_block_base_fee_per_gas p price))"
    "provider_ok (snd (set_next_prev_randao p v))" "provider_ok (set_auto_mining p b)" "provider_ok (set_coinbase p a)"
    "provider_ok (impersonate_account p a)" "provider_ok (snd (stop_impersonating_account p a))"
  using assms by (simp_all add: set_min_gas_price_def set_next_block_base_fee_per_gas_def set_next_prev_randao_def
      set_auto_mining_def set_coinbase_def impersonate_account_def stop_impersonating_account_def)

lemma set_next_block_timestamp_ok [keeps_rules]:
  "provider_ok p \<Longrightarrow> keeps provider_ok (Some (set_next_block_timestamp env p timestamp))"
  unfolding set_next_block_timestamp_def Let_def by (auto intro!: keeps_rules split: ordering.split)

lemma remove_pending_transaction_ok: "provider_ok p \<Longrightarrow> provider_ok (snd (remove_pending_transaction p h))"
  using remove_transaction_result [of "pd_mem_pool p" h]
  by (auto simp: remove_pending_transaction_def dest: provider_okD(1) intro: provider_ok_pool split: prod.split)

lemma handle_drop_transaction_ok: "provider_ok p \<Longrightarrow> provider_ok (snd (handle_drop_transaction p h))"
  using remove_pending_transaction_ok [of p h]
  by (auto simp: handle_drop_transaction_def Let_def split: prod.split sum.split)

lemma filters_ok_keys: "map fst fs' = map fst fs \<Longrightarrow> filters_ok n fs \<Longrightarrow> filters_ok n fs'"
  by (simp add: filters_ok_def)

lemma notify_filters_keys: "map fst (snd (notify_filters notify fs)) = map fst fs"
  by (induction fs) (auto simp: case_prod_unfold Let_def)

lemma filters_ok_filter: "filters_ok n fs \<Longrightarrow> filters_ok n (filter P fs)"
  by (auto simp: filters_ok_def distinct_map_filter)

lemma filters_ok_update: "filters_ok n fs \<Longrightarrow> map_of fs i \<noteq> None \<Longrightarrow> filters_ok n (AList.update i f fs)"
  by (auto simp: filters_ok_def distinct_update update_keys dest: map_of_SomeD)

lemma filters_ok_delete: "filters_ok n fs \<Longrightarrow> filters_ok n (AList.delete i fs)"
  unfolding AList.delete_eq by (rule filters_ok_filter)

lemma filter_changes_ok: "provider_ok p \<Longrightarrow> provider_ok (snd (pd_get_filter_changes clock p i))"
  by (auto simp: pd_get_filter_changes_def get_filter_changes_def Let_def case_prod_unfold
      intro!: provider_ok_filters filters_ok_update dest: provider_okD(4) split: option.split)

lemma filter_logs_ok: "provider_ok p \<Longrightarrow> provider_ok (snd (pd_get_filter_logs clock p i))"
  by (auto simp: pd_get_filter_logs_def get_filter_logs_def Let_def case_prod_unfold
      intro!: provider_ok_filters filters_ok_update dest: provider_okD(4) split: option.split)

lemma remove_filter_ok:
  "provider_ok p \<Longrightarrow> provider_ok (snd (remove_filter p i))" "provider_ok p \<Longrightarrow> provider_ok (snd (remove_subscription p i))"
  by (auto simp: remove_filter_def remove_subscription_def remove_filter_impl_def Let_def
      intro!: provider_ok_filters filters_ok_delete dest: provider_okD(4) split: option.split)

lemma insert_filter_ok:
  assumes "provider_ok p" and "insert_filter p f = Return (i, p')"
  shows "provider_ok p' \<and> i \<notin> fst ` set (pd_filters p)"
proof -
  let ?n = "pd_last_filter_id p"
  from assms(2) have n: "?n \<noteq> - 1" and i: "i = ?n + 1"
    and p': "p' = p\<lparr>pd_last_filter_id := i, pd_filters := AList.update i f (pd_filters p)\<rparr>"
    by (auto simp: insert_filter_def next_filter_id_def split: if_splits)
  have "1 + ?n \<noteq> 0" using n max_word_wrap [of ?n] by (auto simp: add.commute)
  from unatSuc [OF this] have gt: "?n < i" using i by (simp add: add.commute word_less_nat_alt)
  note ok = provider_okD(4) [OF assms(1), unfolded filters_ok_def]
  have pos: "0 < i" using order.strict_trans1 [OF word_zero_le gt] .
  have "i \<notin> fst ` set (pd_filters p)" using ok gt by (auto simp: not_le)
  moreover have "filters_ok i (AList.update i f (pd_filters p))"
    using ok gt pos by (auto simp: filters_ok_def distinct_update update_keys intro: order.strict_trans2 less_imp_le order.trans)
  ultimately show ?thesis using assms(1) by (simp add: p' provider_ok_def)
qed

lemma inserted_filter_ok: "provider_ok p \<Longrightarrow> insert_filter p f = Return (i, p') \<Longrightarrow> provider_ok p'"
  using insert_filter_ok by blast

lemma add_filter_ok [keeps_rules]:
  assumes "provider_ok p"
  shows "keeps provider_ok (Some (add_block_filter env clock is_subscription p))"
    and "keeps provider_ok (Some (add_log_filter clock is_subscription p criteria))"
    and "keeps provider_ok (Some (bind_outcome (add_pending_transaction_filter clock is_subscription p) (\<lambda>(i, p). Return (Inr i, p))))"
  using assms unfolding add_block_filter_def add_log_filter_def add_pending_transaction_filter_def
  by (auto intro!: keeps_rules keeps_bind split: sum.split) (erule (1) inserted_filter_ok)+

lemma handle_new_log_filter_ok [keeps_rules]:
  "provider_ok p \<Longrightarrow> keeps provider_ok (Some (handle_new_log_filter_request clock is_subscription p options))"
  unfolding handle_new_log_filter_request_def by (auto intro!: keeps_rules split: sum.split)

lemma handle_subscribe_ok [keeps_rules]:
  "provider_ok p \<Longrightarrow> keeps provider_ok (Some (handle_subscribe_request env clock p subscription_type options))"
  unfolding handle_subscribe_request_def by (auto intro!: keeps_rules split: subscription_type.split option.split)

lemma snapshots_ok_insert: "snapshots_ok ss \<Longrightarrow> snapshot_ok s \<Longrightarrow> snapshots_ok (btree_insert i s ss)"
proof -
  have "set (btree_insert i s ss) \<subseteq> insert (i, s) (set ss)"
    by (induction i s ss rule: btree_insert.induct) auto
  then show "snapshots_ok ss \<Longrightarrow> snapshot_ok s \<Longrightarrow> snapshots_ok (btree_insert i s ss)"
    by (auto simp: snapshots_ok_def btree_ok_insert)
qed

lemma snapshots_ok_filter: "snapshots_ok ss \<Longrightarrow> snapshots_ok (filter P ss)"
  by (auto simp: snapshots_ok_def btree_ok_def sorted_wrt_map intro: sorted_wrt_filter)

lemma make_snapshot_ok: "provider_ok p \<Longrightarrow> provider_ok (snd (make_snapshot clock p))"
  by (auto simp: make_snapshot_def provider_ok_def snapshot_ok_def Let_def intro!: snapshots_ok_insert)

lemma revert_to_snapshot_ok:
  assumes "provider_ok p" and "revert_to_snapshot clock p i = Return (b, p')"
  shows "provider_ok p'"
proof -
  let ?p = "p\<lparr>pd_snapshots := filter (\<lambda>(id, _). id < i) (pd_snapshots p)\<rparr>"
  have p: "provider_ok ?p" using assms(1) by (simp add: provider_ok_def snapshots_ok_filter)
  show ?thesis
  proof (cases "map_of (filter (\<lambda>(id, _). i \<le> id) (pd_snapshots p)) i")
    case None
    with assms(2) p show ?thesis by (simp add: revert_to_snapshot_def Let_def)
  next
    case (Some s)
    then have "snapshot_ok s"
      using provider_okD(3) [OF assms(1)] by (auto simp: snapshots_ok_def dest!: map_of_SomeD)
    moreover from assms(2) Some obtain r lc where "restore_snapshot clock ?p s = Return p'"
      and "lc_revert_to_block (pd_blockchain p) (sn_block_number s) = Return (r, lc)"
      by (auto simp: revert_to_snapshot_def restore_snapshot_def Let_def split: if_splits)
    ultimately show ?thesis
      using p by (cases r) (auto simp: restore_snapshot_def provider_ok_def snapshot_ok_def Let_def split: if_splits)
  qed
qed

subsection \<open>Mining\<close>

lemma next_block_timestamp_ok [keeps_rules]:
  "provider_ok p \<Longrightarrow> keeps provider_ok (Some (next_block_timestamp env clock p timestamp))"
  unfolding next_block_timestamp_def Let_def by (auto intro!: keeps_rules keeps_bind split: option.split)

lemma mine_block_with_mem_pool_ok [keeps_rules]:
  "provider_ok p \<Longrightarrow> keeps provider_ok (mine_block_with_mem_pool env p config options)"
  unfolding mine_block_with_mem_pool_def Let_def
  by (auto intro!: keeps_rules keeps_bind split: outcome.split option.split)

lemma mine_single_transaction_ok [keeps_rules]:
  "provider_ok p \<Longrightarrow> keeps provider_ok (pd_mine_block_with_single_transaction env tx obs p config options)"
  unfolding pd_mine_block_with_single_transaction_def Let_def
  by (auto intro!: keeps_rules keeps_bind split: outcome.split)

lemma pd_mine_block_ok [keeps_rules]:
  "(\<And>config options. keeps provider_ok (mine_fn p config options)) \<Longrightarrow> keeps provider_ok (pd_mine_block env mine_fn p options)"
  unfolding pd_mine_block_def by (auto intro!: keeps_rules split: option.split sum.split)

lemma notified_filters_ok:
  assumes "provider_ok p" and "notify_subscribers_about_mined_block c now (pd_filters p) b td = (events, fs)"
  shows "provider_ok (p\<lparr>pd_filters := fs\<rparr>)"
proof -
  have "filters_ok n (snd (notify_subscribers_about_mined_block c now fs b td))" if "filters_ok n fs" for n fs
    using that filters_ok_keys [OF notify_filters_keys]
    by (auto simp: notify_subscribers_about_mined_block_def case_prod_unfold Let_def intro!: filters_ok_filter)
  from this [OF provider_okD(4) [OF assms(1)]] show ?thesis using assms by (simp add: provider_ok_def)
qed

lemma commit_mined_block_ok [keeps_rules]:
  assumes "provider_ok p"
  shows "keeps provider_ok (Some (commit_mined_block env clock new_offset built data p))"
  using assms unfolding commit_mined_block_def Let_def
  by (auto intro!: keeps_rules split: prod.split sum.split)
    (auto simp: provider_ok_def dest: update_pool_ok dest!: notified_filters_ok [unfolded provider_ok_def, simplified, rotated])

lemma mine_and_commit_block_impl_ok [keeps_rules]:
  assumes "\<And>p config options. provider_ok p \<Longrightarrow> keeps provider_ok (mine_fn p config options)" and "provider_ok p"
  shows "keeps provider_ok (mine_and_commit_block_impl env clock mine_fn p options)"
  unfolding mine_and_commit_block_impl_def using assms by (auto intro!: keeps_rules)

lemma mine_and_commit_block_ok [keeps_rules]: "provider_ok p \<Longrightarrow> keeps provider_ok (mine_and_commit_block env clock p options)"
  unfolding mine_and_commit_block_def by (intro keeps_rules)

lemma mine_pending_block_ok [keeps_rules]: "provider_ok p \<Longrightarrow> keeps provider_ok (mine_pending_block env clock p)"
  unfolding mine_pending_block_def by (auto intro!: keeps_rules)

lemma mine_block_with_interval_ok [keeps_rules]:
  "provider_ok p \<Longrightarrow> keeps provider_ok (mine_block_with_interval env clocks interval mined p)"
  unfolding mine_block_with_interval_def Let_def by (auto intro!: keeps_rules)

lemma mine_pending_blocks_ok [keeps_rules]:
  "provider_ok p \<Longrightarrow> keeps provider_ok (mine_pending_blocks env clocks interval left mined p)"
  by (induction left arbitrary: mined p) (auto intro!: keeps_rules)

lemma mine_remaining_blocks_ok [keeps_rules]:
  "provider_ok p \<Longrightarrow> keeps provider_ok (mine_remaining_blocks env clocks interval left mined p)"
  by (induction left arbitrary: mined p) (auto intro!: keeps_rules)

lemma reserve_and_mine_ok [keeps_rules]:
  "provider_ok p \<Longrightarrow> keeps provider_ok (reserve_and_mine env clocks interval remaining mined p)"
  unfolding reserve_and_mine_def Let_def by (auto intro!: keeps_rules)

lemma mine_and_commit_blocks_ok [keeps_rules]:
  "provider_ok p \<Longrightarrow> keeps provider_ok (mine_and_commit_blocks env clocks p number interval)"
  unfolding mine_and_commit_blocks_def Let_def by (auto intro!: keeps_rules)

subsection \<open>Sending transactions\<close>

lemma validate_auto_mine_transaction_ok [keeps_rules]:
  "provider_ok p \<Longrightarrow> keeps provider_ok (Some (validate_auto_mine_transaction env p tx))"
  unfolding validate_auto_mine_transaction_def Let_def by (auto intro!: keeps_rules split: ordering.split)

lemma notify_pending_transaction_ok: "provider_ok p \<Longrightarrow> provider_ok (notify_pending_transaction p h)"
  using filters_ok_keys [OF notify_filters_keys]
  by (auto simp: notify_pending_transaction_def notify_subscribers_about_pending_transaction_def provider_ok_def case_prod_unfold Let_def)

lemma added_transaction_ok:
  fixes r :: "'r state_error add_error + unit"
  assumes "provider_ok p" and "add_transaction (pd_mem_pool p) (basic_of state) tx = Return (r, pool)"
  shows "provider_ok (p\<lparr>pd_mem_pool := pool\<rparr>)"
  using add_transaction_pool_inv [OF provider_okD(1) [OF assms(1)], of "basic_of state :: 'r state_error basic_fn" tx] assms
  by (auto intro: provider_ok_pool)

lemma add_pending_transaction_ok [keeps_rules]:
  "provider_ok p \<Longrightarrow> keeps provider_ok (Some (add_pending_transaction env p tx))"
  unfolding add_pending_transaction_def Let_def
  by (auto intro!: keeps_rules keeps_bind notify_pending_transaction_ok split: sum.split) (erule (1) added_transaction_ok)+

lemma revert_on_error_ok: "keeps provider_ok (Some m) \<Longrightarrow> keeps provider_ok (Some (revert_on_error clock i m))"
  unfolding revert_on_error_def
  by (auto intro!: keeps_bind keeps_rules split: sum.split) (auto simp: keeps_def dest: revert_to_snapshot_ok)

lemma map_revert_on_error_ok: "keeps provider_ok m \<Longrightarrow> keeps provider_ok (map_option (revert_on_error clock i) m)"
  by (cases m) (auto intro: keeps_rules revert_on_error_ok)

lemma mine_until_mined_ok [keeps_rules]:
  assumes "provider_ok p"
  shows "keeps provider_ok (mine_until_mined env clocks i h results p)"
proof -
  have "\<forall>r p'. y = Return (r, p') \<longrightarrow> provider_ok p \<longrightarrow> provider_ok p'"
    if "mine_until_mined env clocks i h results p = Some y" for y
  proof (induction rule: mine_until_mined.raw_induct [OF _ that])
    case (1 mine env clocks i h results p y)
    show ?case
    proof (intro allI impI)
      fix r p' assume y: "y = Return (r, p')" and ok: "provider_ok p"
      have "keeps provider_ok (Some y)"
        unfolding 1(2) [symmetric] Let_def and_then_run_def [symmetric]
        by (intro keeps_rules map_revert_on_error_ok ok) (use 1(1) in \<open>auto simp: keeps_def\<close>)
      then show "provider_ok p'" by (simp add: keeps_def y)
    qed
  qed
  with assms show ?thesis by (auto simp: keeps_def)
qed

lemma mine_while_pending_ok [keeps_rules]:
  assumes "provider_ok p"
  shows "keeps provider_ok (mine_while_pending env clocks i results p)"
proof -
  have "\<forall>r p'. y = Return (r, p') \<longrightarrow> provider_ok p \<longrightarrow> provider_ok p'"
    if "mine_while_pending env clocks i results p = Some y" for y
  proof (induction rule: mine_while_pending.raw_induct [OF _ that])
    case (1 mine env clocks i results p y)
    show ?case
    proof (intro allI impI)
      fix r p' assume y: "y = Return (r, p')" and ok: "provider_ok p"
      have "keeps provider_ok (Some y)"
        unfolding 1(2) [symmetric] Let_def and_then_run_def [symmetric]
        by (intro keeps_rules map_revert_on_error_ok ok) (use 1(1) in \<open>auto simp: keeps_def\<close>)
      then show "provider_ok p'" by (simp add: keeps_def y)
    qed
  qed
  with assms show ?thesis by (auto simp: keeps_def)
qed

lemma forget_snapshot_ok: "provider_ok p \<Longrightarrow> provider_ok (p\<lparr>pd_snapshots := AList.delete i (pd_snapshots p)\<rparr>)"
  by (simp add: provider_ok_def AList.delete_eq snapshots_ok_filter)

lemma auto_mine_ok [keeps_rules]: "provider_ok p \<Longrightarrow> keeps provider_ok (auto_mine env clocks i h p)"
  unfolding auto_mine_def by (auto intro!: keeps_rules forget_snapshot_ok)

lemma made_snapshot_ok: "provider_ok p \<Longrightarrow> make_snapshot clock p = (i, p') \<Longrightarrow> provider_ok p'"
  using make_snapshot_ok [of p clock] by simp

lemma send_transaction_ok [keeps_rules]: "provider_ok p \<Longrightarrow> keeps provider_ok (send_transaction env clocks obs p tx)"
  unfolding send_transaction_def send_blob_transaction_def Let_def
  by (auto intro!: keeps_rules notify_pending_transaction_ok revert_on_error_ok split: prod.split) (erule (1) made_snapshot_ok)+

section \<open>Every request keeps the provider well-formed\<close>

lemma execute_in_block_context_ok [keeps_rules]:
  "provider_ok p \<Longrightarrow> keeps provider_ok (execute_in_block_context env clock p spec f)"
  unfolding execute_in_block_context_def by (auto intro!: keeps_rules split: option.split)

lemma changed_ok: "provider_ok (snd x) \<Longrightarrow> x = (r, p) \<Longrightarrow> provider_ok p"
  by simp

lemma handle_single_request_ok: "provider_ok p \<Longrightarrow> keeps provider_ok (handle_single_request env clocks obs p req)"
  by (cases req)
    (auto intro!: keeps_rules keeps_bind settings_ok handle_drop_transaction_ok filter_logs_ok
      simp: get_balance_def get_code_def get_storage_at_def get_transaction_count_def handle_mine_request_def handle_mine_def
        handle_set_block_gas_limit_request_def increase_block_time_def add_pending_transaction_filter_def Let_def
      dest: revert_to_snapshot_ok inserted_filter_ok
        changed_ok [OF filter_changes_ok] changed_ok [OF remove_filter_ok(1)] changed_ok [OF remove_filter_ok(2)]
        changed_ok [OF make_snapshot_ok] changed_ok [OF settings_ok(7)]
      split: prod.split)

lemma handle_batch_request_ok: "provider_ok p \<Longrightarrow> keeps provider_ok (handle_batch_request env clocks obs p results reqs)"
  by (induction reqs arbitrary: p results) (auto intro!: keeps_rules handle_single_request_ok)

end
