(* ===== verification/Provider_Reach.thy ===== *)
theory Provider_Reach
  imports Provider_Create Provider_Facts
begin

text \<open>
  The providers that are created and then handle requests, the states that they read and write,
  and their snapshots.
\<close>

section \<open>Reachable providers\<close>

text \<open>A provider on a local blockchain has no RPC client, whose errors are the parameter \<open>unit\<close>.\<close>

inductive provider_reachable ::
  "('w, 'bp, 'bx, 'v, 'x, 'i, 'ie, 'o, 'g, 'c) provider_env \<Rightarrow> ('w, 'bp, 'c) provider_data \<Rightarrow> bool" for env where
  new: "provider_reachable env p"
    if "provider_new env seed_hash extra_data now clock empty_cache block_config config = Return (Inr p)"
| request: "provider_reachable env p'"
    if "provider_reachable env p"
      and "handle_single_request env clocks obs p req = Some (Return (r :: ('v, 'x, unit, 'ie, 'g) provider_error + response, p'))"
| interval_mine: "provider_reachable env p'"
    if "provider_reachable env p"
      and "interval_mine env clock p = Some (Return (r :: ('v, 'x, unit, 'ie, 'g) provider_error + bool, p'))"

lemma keepsD: "keeps P m \<Longrightarrow> m = Some (Return (r, s)) \<Longrightarrow> P s"
  by (simp add: keeps_def)

lemma keeps_SomeD: "keeps P (Some m) \<Longrightarrow> m = Return (r, s) \<Longrightarrow> P s"
  by (simp add: keeps_def)

lemma provider_new_cases:
  assumes "provider_new env seed_hash extra_data now clock cache block_config config = Return (Inr p)"
  obtains bs where "create_local_blockchain_and_state env seed_hash extra_data now clock block_config config = Return (Inr bs)"
    and "pd_blockchain p = bs_blockchain bs" and "pd_block_state_cache p = pe_cache_push env 0 (bs_state bs) cache"
    and "pd_block_number_to_state_id p = [lc_last_block_number (bs_blockchain bs) \<mapsto> 0]" and "pd_current_state_id p = 0"
    and "pd_mem_pool p = mem_pool_new (cf_block_gas_limit config) (cf_transaction_gas_cap config)"
    and "pd_irregular_state p = []" and "pd_snapshots p = []" and "pd_filters p = []" and "pd_last_filter_id p = 0"
    and "pd_block_time_offset_seconds p = bs_block_time_offset_seconds bs" and "pd_next_block_timestamp p = None"
    and "pd_allow_blocks_with_same_timestamp p = cf_allow_blocks_with_same_timestamp config"
    and "pd_block_config p = block_config" and "pd_mining_order p = cf_mining_order config"
    and "pd_beneficiary p = cf_coinbase config" and "pd_next_snapshot_id p = 1"
proof -
  from assms obtain r where r: "create_local_blockchain_and_state env seed_hash extra_data now clock block_config config = Return r"
    by (auto simp: provider_new_def)
  with assms obtain bs where "r = Inr bs" by (cases r) (auto simp: provider_new_def)
  with assms r show thesis by (intro that [of bs]) (auto simp: provider_new_def)
qed

lemma provider_new_ok:
  assumes "provider_new env seed_hash extra_data now clock cache block_config config = Return (Inr p)"
  shows "provider_ok p"
  by (rule provider_new_cases [OF assms]) (simp add: provider_ok_def pool_inv_new btree_ok_def snapshots_ok_def filters_ok_def)

lemma interval_mine_ok: "provider_ok p \<Longrightarrow> keeps provider_ok (interval_mine env clock p)"
  unfolding interval_mine_def by (auto intro!: keeps_rules)

lemma provider_reachable_inv: "provider_reachable env p \<Longrightarrow> provider_ok p"
proof (induction rule: provider_reachable.induct)
  case (new seed_hash extra_data now clock empty_cache block_config config p)
  then show ?case by (rule provider_new_ok)
next
  case (request p clocks obs req r p')
  then show ?case by (blast intro: keepsD handle_single_request_ok)
next
  case (interval_mine p clock r p')
  then show ?case by (blast intro: keepsD interval_mine_ok)
qed

text \<open>C6. Every provider that is created and then handles any sequence of requests, whether they
  succeed or fail, is well-formed: its pool is, the overrides and the snapshots are ordered by
  block number and id, the filters have different ids that were given out before, and every
  snapshot holds a well-formed pool and ordered overrides.\<close>

theorem provider_reachable_well_formed:
  assumes "provider_reachable env p"
  shows "pool_inv (pd_mem_pool p) \<and> btree_ok (pd_irregular_state p) \<and> btree_ok (pd_snapshots p)
    \<and> distinct (map fst (pd_filters p)) \<and> (\<forall>i \<in> set (map fst (pd_filters p)). 0 < i \<and> i \<le> pd_last_filter_id p)
    \<and> (\<forall>(i, s) \<in> set (pd_snapshots p). pool_inv (sn_mem_pool s) \<and> btree_ok (sn_irregular_state s))"
  using provider_reachable_inv [OF assms]
  by (auto simp: provider_ok_def snapshots_ok_def filters_ok_def snapshot_ok_def)

section \<open>A sample provider\<close>

text \<open>The cache is an association list, and the EVM executes every transaction as a transfer.\<close>

definition sample_execute :: "transaction \<Rightarrow> (local_blockchain_error, nat, unit) dry_run_result" where
  "sample_execute tx = (if tx_gas_limit tx < 21000 then Inl (InvalidTransaction 1) else Inr (transfer_result, []))"

type_synonym sample_cache = "(u64 \<times> state_trie) list"

definition sample_provider_env :: "(unit, nat, u64, nat, unit, unit, unit, unit, unit, sample_cache) provider_env" where
  "sample_provider_env =
     \<lparr>pe_builder =
        \<lparr>bb_header_env = sample_env, bb_state_env = sample_state_env, bb_dry_run = (\<lambda>_ tx _. sample_execute tx),
         bb_dry_run_with_inspector = (\<lambda>_ tx _ i. (sample_execute tx, i)), bb_accrue = (\<lambda>_ b. or b 1),
         bb_transactions_root = (\<lambda>_. 1), bb_receipts_root = (\<lambda>_. 2), bb_access_list_hash = id,
         bb_rlp_length = (\<lambda>_. 600), bb_now = 5000\<rparr>,
      pe_less_than_basefee = 0, pe_flush_inspector_data = (\<lambda>i. (Inr (), i)), pe_observer = (),
      pe_on_collected_gas_report = None, pe_bloom_contains = (\<lambda>_ b. bit b 0), pe_keccak256 = (\<lambda>v. v + 1),
      pe_cache_push = (\<lambda>i s c. (i, s) # c), pe_cache_get = (\<lambda>i c. (map_of c i, c))\<rparr>"

definition sample_provider_config :: provider_config where
  "sample_provider_config =
     \<lparr>cf_allow_blocks_with_same_timestamp = False, cf_allow_unlimited_contract_size = False, cf_base_fee_params = None,
      cf_chain_id = 31337, cf_coinbase = 12, cf_genesis_state = [], cf_initial_base_fee_per_gas = Some 900,
      cf_initial_parent_beacon_block_root = None, cf_auto_mine = True, cf_block_gas_limit = Some 60000,
      cf_mining_order = Fifo, cf_min_gas_price = 0, cf_owned_accounts = [1, 2, 1], cf_transaction_gas_cap = None,
      cf_genesis_blob_gas = None, cf_genesis_block_gas_limit = 60000, cf_genesis_block_time = Some 1000\<rparr>"

definition sample_clock :: clock where
  "sample_clock = \<lparr>ck_now = 7 * 10 ^ 9, ck_since_epoch = 1000\<rparr>"

abbreviation new_sample_provider :: "(creation_error + (unit, nat, sample_cache) provider_data) outcome" where
  "new_sample_provider \<equiv>
     provider_new sample_provider_env (\<lambda>_. 3) [] 1000 sample_clock [] (sample_config Shanghai) sample_provider_config"

lemma sample_provider_new:
  "\<exists>p. new_sample_provider = Return (Inr p) \<and> rv_state_diffs (lc_storage (pd_blockchain p)) = [(0, [])]
     \<and> pd_block_time_offset_seconds p = 0
     \<and> map_option (\<lambda>b. bh_timestamp (lb_header b)) (chain_block sample_env (lc_storage (pd_blockchain p)) 0) = Some 1000"
  by (simp add: provider_new_def create_local_blockchain_and_state_def sample_provider_config_def sample_provider_env_def
      genesis_timestamp_def genesis_time_offset_def l1_genesis_block_def with_genesis_state_def header_eval
      overrides_from_genesis_def spec_le_simps generate_next_def expect_nonneg_def sample_clock_def
      local_blockchain_new_def local_block_empty_def header_new_def with_genesis_block_def
      state_at_block_number_def compute_state_at_block_def btree_range_def state_diffs_until_block_def diff_index_def
      chain_block_def find_reservation_def sparse_with_block_def sparse_block_by_number_def Let_def)

text \<open>A new provider has a chain of one block, the genesis block, whose state is cached.\<close>

lemma case_sum_Return_Inr:
  "(case r of Inl e \<Rightarrow> Return (Inl (f e)) | Inr x \<Rightarrow> g x) = Return (Inr y) \<longleftrightarrow> (\<exists>x. r = Inr x \<and> g x = Return (Inr y))"
  "(case r of Inl e \<Rightarrow> Panic | Inr x \<Rightarrow> h x) = Return z \<longleftrightarrow> (\<exists>x. r = Inr x \<and> h x = Return z)"
  by (cases r; simp)+

lemma local_blockchain_new_Inr:
  "local_blockchain_new genesis diff chain_id hardfork = Inr lc
    \<Longrightarrow> lc_storage lc = with_genesis_block genesis diff (bh_difficulty (lb_header genesis)) \<and> lc_hardfork lc = hardfork"
  by (auto simp: local_blockchain_new_def Let_def split: if_splits)

lemma created_blockchain:
  assumes "create_local_blockchain_and_state env seed_hash extra_data now clock block_config config = Return (Inr bs)"
  obtains genesis diff options where
    "with_genesis_state (pe_header_env env) (state_root (state_from_diff (pe_state_env env) diff)) now block_config options =
      Return (Inr genesis)"
    and "local_blockchain_new genesis diff (cf_chain_id config) (bc_hardfork block_config) = Inr (bs_blockchain bs)"
    and "state_at_block_number (pe_state_env env) (bs_blockchain bs) 0 [] = Return (Inr (bs_state bs))"
  using assms
  by (auto simp: create_local_blockchain_and_state_def l1_genesis_block_def case_sum_Return_Inr case_prod_unfold Let_def)

lemma provider_new_genesis:
  assumes "provider_new env seed_hash extra_data now clock cache block_config config = Return (Inr p)"
  obtains genesis diff td state where "lc_storage (pd_blockchain p) = with_genesis_block genesis diff td"
    and "block_number genesis = 0" and "lb_hash genesis = he_header_hash (pe_header_env env) (lb_header genesis)"
    and "lc_hardfork (pd_blockchain p) = bc_hardfork block_config"
    and "state_at_block_number (pe_state_env env) (pd_blockchain p) 0 [] = Return (Inr state)"
    and "pd_block_state_cache p = pe_cache_push env 0 state cache"
    and "pd_block_number_to_state_id p = [0 \<mapsto> 0]" and "pd_current_state_id p = 0"
proof -
  from assms obtain bs where
    bs: "create_local_blockchain_and_state env seed_hash extra_data now clock block_config config = Return (Inr bs)"
    and p: "pd_blockchain p = bs_blockchain bs" "pd_block_state_cache p = pe_cache_push env 0 (bs_state bs) cache"
      "pd_block_number_to_state_id p = [lc_last_block_number (bs_blockchain bs) \<mapsto> 0]" "pd_current_state_id p = 0"
    by (rule provider_new_cases)
  from bs obtain genesis diff options where
    g: "with_genesis_state (pe_header_env env) (state_root (state_from_diff (pe_state_env env) diff)) now block_config options =
      Return (Inr genesis)"
    and lc: "local_blockchain_new genesis diff (cf_chain_id config) (bc_hardfork block_config) = Inr (pd_blockchain p)"
    and state: "state_at_block_number (pe_state_env env) (pd_blockchain p) 0 [] = Return (Inr (bs_state bs))"
    unfolding p(1) by (rule created_blockchain)
  from lc have "lc_storage (pd_blockchain p) = with_genesis_block genesis diff (bh_difficulty (lb_header genesis))"
    and "lc_hardfork (pd_blockchain p) = bc_hardfork block_config"
    by (auto dest: local_blockchain_new_Inr)
  with p(1) [symmetric] p(2-) state genesis_block_spec [OF g] show thesis
    by (intro that [of genesis diff _ "bs_state bs"]) (simp_all add: lc_last_block_number_def with_genesis_block_def)
qed

section \<open>The sample provider handles requests\<close>

theorem provider_reachable_well_formed_witness:
  "\<exists>p p'. new_sample_provider = Return (Inr p)
     \<and> handle_single_request sample_provider_env (\<lambda>_. sample_clock) (\<lambda>_. ()) p NewPendingTransactionFilter =
         Some (Return (Inr (JsonNumber 1) :: (nat, unit, unit, unit, unit) provider_error + response, p'))
     \<and> map fst (pd_filters p') = [1] \<and> pool_inv (pd_mem_pool p')"
proof -
  obtain p where p: "new_sample_provider = Return (Inr p)" using sample_provider_new by blast
  then have "pd_filters p = []" "pd_last_filter_id p = 0" by (auto elim: provider_new_cases)
  then obtain p' where p': "handle_single_request sample_provider_env (\<lambda>_. sample_clock) (\<lambda>_. ()) p NewPendingTransactionFilter =
      Some (Return (Inr (JsonNumber 1) :: (nat, unit, unit, unit, unit) provider_error + response, p'))"
    and "map fst (pd_filters p') = [1]"
    by (simp add: respond_def add_pending_transaction_filter_def insert_filter_def next_filter_id_def)
  with p provider_reachable_well_formed [OF provider_reachable.request [OF provider_reachable.new [OF p] p']] show ?thesis by auto
qed

end
