(* ===== verification/Provider_State.thy ===== *)
theory Provider_State
  imports Provider_Reach
begin

text \<open>
  The accounts that a request changes are read back by the requests that follow. The cache of states
  is only assumed to return the state that was pushed last (\<^verbatim>\<open>LruCache::push\<close> and
  \<^verbatim>\<open>LruCache::get\<close>).
\<close>

section \<open>Changes of the state\<close>

lemma tries_set_account_reads:
  "tries_account (tries_set_account env t a info) =
     (tries_account t)(a \<mapsto> basic_of_info info (case map_of (pt_storage_tries t) a of
        Some trie \<Rightarrow> st_root trie | None \<Rightarrow> st_root (storage_trie_default env)))"
  "tries_account_storage_slot (tries_set_account env t a info) = tries_account_storage_slot t"
  by (auto simp: fun_eq_iff tries_set_account_def insert_account_info_def insert_info_with_root_def tries_account_def mutate_def
      drop_mutation_def tries_account_storage_slot_def storage_trie_default_def storage_trie_of_def update_conv' Let_def
      split: option.split)

lemma state_modify_account_reads:
  assumes "state_modify_account env s a modifier = (Inr info, s')"
  shows "state_basic s' = (state_basic s)(a \<mapsto> info\<lparr>ai_code := None\<rparr>)" and "state_storage s' = state_storage s"
  using modify_account_tries [OF assms [unfolded state_modify_account_def]]
  by (auto simp: fun_eq_iff state_basic_def state_storage_def tries_set_account_reads info_of_basic_of_info)

lemma state_modify_account_result:
  assumes "state_modify_account env s a (\<lambda>(balance, nonce, code). (f balance, g nonce, h code)) = (Inr info, s')"
  shows "ai_balance info = f (case state_basic s a of Some i \<Rightarrow> ai_balance i | None \<Rightarrow> 0)"
    and "ai_nonce info = g (case state_basic s a of Some i \<Rightarrow> ai_nonce i | None \<Rightarrow> 0)"
  using assms
  by (auto simp: state_modify_account_def modify_account_or_else_def state_basic_def default_account_info_def Let_def
      split: option.splits sum.splits if_splits)

lemma state_set_storage_reads:
  assumes "state_set_account_storage_slot env s a i v = (Inr old, s')"
  shows "state_storage s' b j = (if b = a \<and> j = i then v else state_storage s b j)"
    and "old = state_storage s a i"
    and "state_basic s' b = (if b = a then Some (case state_basic s a of Some info \<Rightarrow> info | None \<Rightarrow> default_account_info\<lparr>ai_code := None\<rparr>)
      else state_basic s b)"
  using assms
  by (auto simp: state_set_account_storage_slot_def set_account_storage_slot_or_else_def tries_set_account_storage_slot_def
      insert_storage_slot_def insert_info_with_root_def tries_account_def mutate_def drop_mutation_def state_storage_def
      tries_account_storage_slot_def storage_trie_default_def storage_trie_of_def update_conv' Let_def set_storage_slot_def
      state_basic_def info_of_basic_def basic_of_info_def default_account_info_def
      split: option.splits if_splits)

section \<open>Reading the current state\<close>

definition cache_returns_pushed :: "('w, 'bp, 'bx, 'v, 'x, 'i, 'ie, 'o, 'g, 'c) provider_env \<Rightarrow> bool" where
  "cache_returns_pushed env \<longleftrightarrow> (\<forall>i s c. fst (pe_cache_get env i (pe_cache_push env i s c)) = Some s)"

definition provider_chain_ok ::
  "('w, 'bp, 'bx, 'v, 'x, 'i, 'ie, 'o, 'g, 'c) provider_env \<Rightarrow> ('w, 'bp, 'c) provider_data \<Rightarrow> bool" where
  "provider_chain_ok env p \<longleftrightarrow>
     reservable_reachable (pe_header_env env) (lc_storage (pd_blockchain p)) \<and> hash_separates (pe_header_env env)"

text \<open>Reading a state changes only the cache.\<close>

lemma compute_state_frame:
  "keeps (\<lambda>s. pd_blockchain s = pd_blockchain p \<and> pd_mem_pool s = pd_mem_pool p \<and> pd_irregular_state s = pd_irregular_state p)
     (Some (compute_state env p n))"
  unfolding compute_state_def Let_def case_prod_unfold
  by (rule keeps_bind) (auto simp: add_state_to_cache_def Let_def intro!: keeps_rules split: option.split sum.split)

lemma get_or_compute_state_frame:
  fixes r :: "('v, 'x, 'r, 'ie, 'g) provider_error + state_trie"
  assumes "get_or_compute_state env p n = Return (r, p')"
  shows "pd_blockchain p' = pd_blockchain p \<and> pd_mem_pool p' = pd_mem_pool p \<and> pd_irregular_state p' = pd_irregular_state p"
proof -
  have "keeps (\<lambda>s. pd_blockchain s = pd_blockchain p \<and> pd_mem_pool s = pd_mem_pool p \<and> pd_irregular_state s = pd_irregular_state p)
      (Some (get_or_compute_state env p n :: ((('v, 'x, 'r, 'ie, 'g) provider_error + state_trie) \<times> _) outcome))"
    unfolding get_or_compute_state_def Let_def case_prod_unfold
    using compute_state_frame [of "p\<lparr>pd_block_state_cache := c\<rparr>" for c]
    by (auto intro!: keeps_rules compute_state_frame split: option.split)
  with assms show ?thesis by (simp add: keeps_def)
qed

lemma pd_last_block_ok:
  assumes "provider_chain_ok env p"
  obtains b s' where "pd_last_block env p = Return (Inr b, p\<lparr>pd_blockchain := (pd_blockchain p)\<lparr>lc_storage := s'\<rparr>\<rparr>)"
    and "chain_block (pe_header_env env) (lc_storage (pd_blockchain p)) (pd_last_block_number p) = Some b"
    and "block_number b = pd_last_block_number p"
    and "reservable_reachable (pe_header_env env) s'"
    and "chain_block (pe_header_env env) s' = chain_block (pe_header_env env) (lc_storage (pd_blockchain p))"
    and "rv_last_block_number s' = pd_last_block_number p"
proof -
  from assms have reach: "reservable_reachable (pe_header_env env) (lc_storage (pd_blockchain p))"
    and sep: "hash_separates (pe_header_env env)" by (simp_all add: provider_chain_ok_def)
  obtain b s' where l: "last_local_block (pe_header_env env) (pd_blockchain p) = Return (Inr b, (pd_blockchain p)\<lparr>lc_storage := s'\<rparr>)"
    and b: "chain_block (pe_header_env env) (lc_storage (pd_blockchain p)) (pd_last_block_number p) = Some b"
    and s': "reservable_reachable (pe_header_env env) s'"
      "chain_block (pe_header_env env) s' = chain_block (pe_header_env env) (lc_storage (pd_blockchain p))"
      "rv_last_block_number s' = pd_last_block_number p"
    unfolding pd_last_block_number_def lc_last_block_number_def by (rule last_local_block_ok [OF reach sep])
  have "block_number b = pd_last_block_number p"
    using chain_block_number [OF _ b] reservable_reachable_ok(1) [OF reach sep] by (simp add: rv_ok_def)
  with l b s' show thesis by (intro that) (simp_all add: pd_last_block_def lift_blockchain_def)
qed

lemma commit_override_fields:
  "pd_blockchain (commit_override env p st f) = pd_blockchain p"
  "pd_last_block_number (commit_override env p st f) = pd_last_block_number p"
  "pd_mem_pool (commit_override env p st f) = pd_mem_pool p"
  by (simp_all add: commit_override_def add_state_to_cache_def pd_last_block_number_def Let_def)

lemma read_committed:
  fixes env :: "('w, 'bp, 'bx, 'v, 'x, 'i, 'ie, 'o, 'g, 'c) provider_env"
  assumes "cache_returns_pushed env" and "provider_chain_ok env p"
  shows "\<exists>p'. execute_in_block_context env clock (commit_override env p st f) None (\<lambda>_ st. Inr (h st)) =
    Some (Return (Inr (h st) :: ('v, 'x, 'r, 'ie, 'g) provider_error + 't, p'))"
proof -
  let ?p = "commit_override env p st f"
  from assms(2) have "provider_chain_ok env ?p" by (simp add: provider_chain_ok_def commit_override_fields)
  then obtain b s' where
    b: "pd_last_block env ?p = Return (Inr b :: ('v, 'x, 'r, 'ie, 'g) provider_error + _, ?p\<lparr>pd_blockchain := (pd_blockchain ?p)\<lparr>lc_storage := s'\<rparr>\<rparr>)"
    and n: "block_number b = pd_last_block_number ?p"
    by (rule pd_last_block_ok)
  have "get_or_compute_state env (?p\<lparr>pd_blockchain := (pd_blockchain ?p)\<lparr>lc_storage := s'\<rparr>\<rparr>) (pd_last_block_number p) =
      Return (Inr st :: ('v, 'x, 'r, 'ie, 'g) provider_error + _, ?p\<lparr>pd_blockchain := (pd_blockchain ?p)\<lparr>lc_storage := s'\<rparr>,
        pd_block_state_cache := snd (pe_cache_get env (pd_current_state_id ?p) (pd_block_state_cache ?p))\<rparr>)"
    using assms(1)
    by (simp add: get_or_compute_state_def commit_override_def add_state_to_cache_def cache_returns_pushed_def Let_def
        case_prod_unfold)
  with b n show ?thesis by (simp add: execute_in_block_context_def commit_override_fields)
qed

text \<open>The balance and the nonce of an account that may not exist.\<close>

definition read_balance :: "state_trie \<Rightarrow> address \<Rightarrow> u256" where
  "read_balance st a = (case state_basic st a of Some info \<Rightarrow> ai_balance info | None \<Rightarrow> 0)"

definition read_nonce :: "state_trie \<Rightarrow> address \<Rightarrow> u64" where
  "read_nonce st a = (case state_basic st a of Some info \<Rightarrow> ai_nonce info | None \<Rightarrow> 0)"

lemma committed_reads:
  fixes env :: "('w, 'bp, 'bx, 'v, 'x, 'i, 'ie, 'o, 'g, 'c) provider_env"
  assumes "cache_returns_pushed env" and "provider_chain_ok env p"
  shows "\<exists>p'. get_balance env clock (commit_override env p st f) b None =
      Some (Return (Inr (read_balance st b) :: ('v, 'x, 'r, 'ie, 'g) provider_error + u256, p'))"
    and "\<exists>p'. get_transaction_count env clock (commit_override env p st f) b None =
      Some (Return (Inr (read_nonce st b) :: ('v, 'x, 'r, 'ie, 'g) provider_error + u64, p'))"
    and "\<exists>p'. get_storage_at env clock (commit_override env p st f) b i None =
      Some (Return (Inr (state_storage st b i) :: ('v, 'x, 'r, 'ie, 'g) provider_error + u256, p'))"
  unfolding get_balance_def get_transaction_count_def get_storage_at_def read_balance_def read_nonce_def
  by (rule read_committed [OF assms])+

lemma set_balance_cases:
  fixes env :: "('w, 'bp, 'bx, 'v, 'x, 'i, 'ie, 'o, 'g, 'c) provider_env"
  assumes "set_balance env p a v = Return (Inr () :: ('v, 'x, 'r, 'ie, 'g) provider_error + unit, p')"
  obtains st p1 info st' pool f where "current_state env p = Return (Inr st :: ('v, 'x, 'r, 'ie, 'g) provider_error + state_trie, p1)"
    and "state_modify_account (pe_state_env env) st a (\<lambda>(balance, nonce, code). (v, nonce, code)) =
      (Inr info :: 'r state_error + _, st')"
    and "p' = commit_override env (p1\<lparr>pd_mem_pool := pool\<rparr>) st' f"
proof -
  obtain st p1 where st: "current_state env p = Return (Inr st :: ('v, 'x, 'r, 'ie, 'g) provider_error + state_trie, p1)"
    using assms by (auto simp: set_balance_def and_then_def split: outcome.split_asm sum.split_asm)
  let ?m = "state_modify_account (pe_state_env env) st a (\<lambda>(balance, nonce, code). (v, nonce, code)) :: ('r state_error + _) \<times> _"
  obtain info st' where m: "?m = (Inr info, st')" using assms st by (cases ?m; cases "fst ?m") (auto simp: set_balance_def)
  show thesis
    using assms st m that [OF st m] by (auto simp: set_balance_def split: prod.split_asm sum.split_asm)
qed

text \<open>C10. The balance that a request sets is the balance that is read afterwards, and nothing else
  changes: the other balances, all nonces and all storage slots are those of the state before.\<close>

theorem set_balance_read_back:
  fixes env :: "('w, 'bp, 'bx, 'v, 'x, 'i, 'ie, 'o, 'g, 'c) provider_env"
  assumes "cache_returns_pushed env" and "provider_chain_ok env p"
    and "set_balance env p a v = Return (Inr () :: ('v, 'x, 'r, 'ie, 'g) provider_error + unit, p')"
  shows "\<exists>st p1. current_state env p = Return (Inr st :: ('v, 'x, 'r, 'ie, 'g) provider_error + state_trie, p1)
    \<and> (\<forall>b i.
      (\<exists>p2. get_balance env clock p' b None =
         Some (Return (Inr (if b = a then v else read_balance st b) :: ('v, 'x, 'r, 'ie, 'g) provider_error + u256, p2)))
      \<and> (\<exists>p2. get_transaction_count env clock p' b None =
         Some (Return (Inr (read_nonce st b) :: ('v, 'x, 'r, 'ie, 'g) provider_error + u64, p2)))
      \<and> (\<exists>p2. get_storage_at env clock p' b i None =
         Some (Return (Inr (state_storage st b i) :: ('v, 'x, 'r, 'ie, 'g) provider_error + u256, p2))))"
proof -
  from assms(3) obtain st p1 info st' pool f where
    st: "current_state env p = Return (Inr st :: ('v, 'x, 'r, 'ie, 'g) provider_error + state_trie, p1)"
    and m: "state_modify_account (pe_state_env env) st a (\<lambda>(balance, nonce, code). (v, nonce, code)) =
      (Inr info :: 'r state_error + _, st')"
    and p': "p' = commit_override env (p1\<lparr>pd_mem_pool := pool\<rparr>) st' f"
    by (rule set_balance_cases)
  have chain: "provider_chain_ok env (p1\<lparr>pd_mem_pool := pool\<rparr>)"
    using assms(2) st unfolding current_state_def by (auto simp: provider_chain_ok_def dest: get_or_compute_state_frame)
  have "ai_balance info = v" and "ai_nonce info = read_nonce st a"
    using state_modify_account_result [of _ st a "\<lambda>_. v" "\<lambda>nonce. nonce" "\<lambda>code. code", OF m] by (simp_all add: read_nonce_def)
  with state_modify_account_reads [OF m]
  have reads: "read_balance st' b = (if b = a then v else read_balance st b)" "read_nonce st' b = read_nonce st b"
    "state_storage st' b i = state_storage st b i" for b i by (auto simp: read_balance_def read_nonce_def)
  show ?thesis
    by (rule exI [of _ st], rule exI [of _ p1], rule conjI [OF st], unfold p' reads [symmetric])
      (intro allI conjI committed_reads [OF assms(1) chain])
qed

lemma set_storage_cases:
  fixes env :: "('w, 'bp, 'bx, 'v, 'x, 'i, 'ie, 'o, 'g, 'c) provider_env"
  assumes "pd_set_account_storage_slot env p a i v = Return (Inr () :: ('v, 'x, 'r, 'ie, 'g) provider_error + unit, p')"
  obtains st p1 old st' info where "current_state env p = Return (Inr st :: ('v, 'x, 'r, 'ie, 'g) provider_error + state_trie, p1)"
    and "state_set_account_storage_slot (pe_state_env env) st a i v = (Inr old :: 'r state_error + _, st')"
    and "p' = commit_override env p1 st'
      (\<lambda>d. apply_storage_change d a i \<lparr>sl_original_value = old, sl_present_value = v\<rparr> info)"
proof -
  obtain st p1 where st: "current_state env p = Return (Inr st :: ('v, 'x, 'r, 'ie, 'g) provider_error + state_trie, p1)"
    using assms by (auto simp: pd_set_account_storage_slot_def and_then_def split: outcome.split_asm sum.split_asm)
  let ?m = "state_set_account_storage_slot (pe_state_env env) st a i v :: ('r state_error + _) \<times> _"
  obtain old st' where m: "?m = (Inr old, st')"
    using assms st by (cases ?m; cases "fst ?m") (auto simp: pd_set_account_storage_slot_def)
  show thesis
    using assms st m that [OF st m] by (auto simp: pd_set_account_storage_slot_def Let_def split: sum.split_asm)
qed

text \<open>The change of an account that the irregular state records for a block.\<close>

definition recorded_account :: "('w, 'bp, 'c) provider_data \<Rightarrow> u64 \<Rightarrow> address \<Rightarrow> account option" where
  "recorded_account p n a =
     (case map_of (pd_irregular_state p) n of Some override \<Rightarrow> map_of (so_diff override) a | None \<Rightarrow> None)"

lemma recorded_commit_override:
  assumes "btree_ok (pd_irregular_state p)"
  shows "recorded_account (commit_override env p st f) n =
    (if n = pd_last_block_number p
     then map_of (f (case map_of (pd_irregular_state p) n of Some override \<Rightarrow> so_diff override | None \<Rightarrow> []))
     else recorded_account p n)"
  using assms
  by (auto simp: recorded_account_def commit_override_def add_state_to_cache_def change_override_def map_of_btree_insert
      with_state_root_def fun_eq_iff Let_def split: option.split simp del: map_of_eq_Some_iff)

lemma map_of_storage_change:
  "map_of (apply_storage_change d a i slot info) b =
     (if b = a
      then Some (case map_of d a of
                   Some c \<Rightarrow> c\<lparr>ac_storage := AList.update i slot (ac_storage c)\<rparr>
                 | None \<Rightarrow> (account_from (account_or_default info))\<lparr>ac_storage := [(i, slot)], ac_status := {Created, Touched}\<rparr>)
      else map_of d b)"
  by (simp add: apply_storage_change_def update_conv')

text \<open>C16. The storage slot that a request sets is read back from the current state, which is in the cache
  of states, and nothing else of that state changes: the other slots of the account and of the other
  accounts, all balances and all nonces are those of the state before. What is recorded, for the
  time when the state is not in the cache any more and is computed anew, is the slot with its old and its new
  value; the records for other accounts and other blocks stay. But an account without a record is
  recorded as created, so that the state that is computed anew has lost its other slots
  (which is a bug).\<close>

theorem set_storage_read_back:
  fixes env :: "('w, 'bp, 'bx, 'v, 'x, 'i, 'ie, 'o, 'g, 'c) provider_env"
  assumes "cache_returns_pushed env" and "provider_chain_ok env p" and "btree_ok (pd_irregular_state p)"
    and "pd_set_account_storage_slot env p a i v = Return (Inr () :: ('v, 'x, 'r, 'ie, 'g) provider_error + unit, p')"
  shows "\<exists>st p1. current_state env p = Return (Inr st :: ('v, 'x, 'r, 'ie, 'g) provider_error + state_trie, p1)
    \<and> (\<forall>b j.
      (\<exists>p2. get_balance env clock p' b None =
         Some (Return (Inr (read_balance st b) :: ('v, 'x, 'r, 'ie, 'g) provider_error + u256, p2)))
      \<and> (\<exists>p2. get_transaction_count env clock p' b None =
         Some (Return (Inr (read_nonce st b) :: ('v, 'x, 'r, 'ie, 'g) provider_error + u64, p2)))
      \<and> (\<exists>p2. get_storage_at env clock p' b j None =
         Some (Return (Inr (if b = a \<and> j = i then v else state_storage st b j)
           :: ('v, 'x, 'r, 'ie, 'g) provider_error + u256, p2))))
    \<and> (\<forall>n b. n \<noteq> pd_last_block_number p \<or> b \<noteq> a \<longrightarrow> recorded_account p' n b = recorded_account p n b)
    \<and> (\<exists>c. recorded_account p' (pd_last_block_number p) a = Some c
        \<and> (case recorded_account p (pd_last_block_number p) a of
             None \<Rightarrow> map_of (ac_storage c) = [i \<mapsto> \<lparr>sl_original_value = state_storage st a i, sl_present_value = v\<rparr>]
                     \<and> ac_status c = {Created, Touched}
           | Some c0 \<Rightarrow>
               map_of (ac_storage c) =
                 (map_of (ac_storage c0))(i \<mapsto> \<lparr>sl_original_value = state_storage st a i, sl_present_value = v\<rparr>)
               \<and> ac_info c = ac_info c0 \<and> ac_status c = ac_status c0))"
proof -
  from assms(4) obtain st p1 old st' info where
    st: "current_state env p = Return (Inr st :: ('v, 'x, 'r, 'ie, 'g) provider_error + state_trie, p1)"
    and m: "state_set_account_storage_slot (pe_state_env env) st a i v = (Inr old :: 'r state_error + _, st')"
    and p': "p' = commit_override env p1 st'
      (\<lambda>d. apply_storage_change d a i \<lparr>sl_original_value = old, sl_present_value = v\<rparr> info)"
    by (rule set_storage_cases)
  have p1: "pd_blockchain p1 = pd_blockchain p" "pd_irregular_state p1 = pd_irregular_state p"
    using st unfolding current_state_def by (auto dest: get_or_compute_state_frame)
  then have chain: "provider_chain_ok env p1" and last: "pd_last_block_number p1 = pd_last_block_number p"
    and rec: "recorded_account p1 = recorded_account p"
    using assms(2) by (auto simp: provider_chain_ok_def pd_last_block_number_def recorded_account_def fun_eq_iff)
  from state_set_storage_reads [OF m]
  have reads: "read_balance st' b = read_balance st b" "read_nonce st' b = read_nonce st b"
    "state_storage st' b j = (if b = a \<and> j = i then v else state_storage st b j)" "old = state_storage st a i" for b j
    by (auto simp: read_balance_def read_nonce_def default_account_info_def split: option.split)
  have "recorded_account p' n b =
      (if n = pd_last_block_number p \<and> b = a
       then Some (case recorded_account p n a of
                    Some c \<Rightarrow> c\<lparr>ac_storage := AList.update i \<lparr>sl_original_value = old, sl_present_value = v\<rparr> (ac_storage c)\<rparr>
                  | None \<Rightarrow> (account_from (account_or_default info))
                      \<lparr>ac_storage := [(i, \<lparr>sl_original_value = old, sl_present_value = v\<rparr>)], ac_status := {Created, Touched}\<rparr>)
       else recorded_account p n b)" for n b
    unfolding p' using assms(3) p1(2)
    by (auto simp: recorded_commit_override map_of_storage_change last rec recorded_account_def split: option.split)
  note recorded = this
  show ?thesis
  proof (intro exI conjI)
    show "current_state env p = Return (Inr st :: ('v, 'x, 'r, 'ie, 'g) provider_error + state_trie, p1)" by (rule st)
    show "\<forall>b j.
      (\<exists>p2. get_balance env clock p' b None =
         Some (Return (Inr (read_balance st b) :: ('v, 'x, 'r, 'ie, 'g) provider_error + u256, p2)))
      \<and> (\<exists>p2. get_transaction_count env clock p' b None =
         Some (Return (Inr (read_nonce st b) :: ('v, 'x, 'r, 'ie, 'g) provider_error + u64, p2)))
      \<and> (\<exists>p2. get_storage_at env clock p' b j None =
         Some (Return (Inr (if b = a \<and> j = i then v else state_storage st b j)
           :: ('v, 'x, 'r, 'ie, 'g) provider_error + u256, p2)))"
      unfolding p' reads(1-3) [symmetric] by (intro allI conjI committed_reads [OF assms(1) chain])
    show "\<forall>n b. n \<noteq> pd_last_block_number p \<or> b \<noteq> a \<longrightarrow> recorded_account p' n b = recorded_account p n b"
      by (auto simp: recorded)
    show "recorded_account p' (pd_last_block_number p) a = Some (the (recorded_account p' (pd_last_block_number p) a))"
      by (simp add: recorded)
    show "case recorded_account p (pd_last_block_number p) a of
             None \<Rightarrow> map_of (ac_storage (the (recorded_account p' (pd_last_block_number p) a))) =
                       [i \<mapsto> \<lparr>sl_original_value = state_storage st a i, sl_present_value = v\<rparr>]
                     \<and> ac_status (the (recorded_account p' (pd_last_block_number p) a)) = {Created, Touched}
           | Some c0 \<Rightarrow>
               map_of (ac_storage (the (recorded_account p' (pd_last_block_number p) a))) =
                 (map_of (ac_storage c0))(i \<mapsto> \<lparr>sl_original_value = state_storage st a i, sl_present_value = v\<rparr>)
               \<and> ac_info (the (recorded_account p' (pd_last_block_number p) a)) = ac_info c0
               \<and> ac_status (the (recorded_account p' (pd_last_block_number p) a)) = ac_status c0"
      by (simp add: recorded reads(4) update_conv' split: option.split)
  qed
qed

section \<open>The sample provider\<close>

lemma mem_pool_update_basic_of:
  obtains pool' where "mem_pool_update pool (basic_of st) = (Inr () :: 'r state_error + unit, pool')"
  using mem_pool_update_total [where 'e = "'r state_error"] unfolding basic_of_def by (metis prod.exhaust_sel)

lemma sample_provider_state:
  obtains p st where "new_sample_provider = Return (Inr p)"
    and "current_state sample_provider_env p = Return (Inr st :: (nat, unit, unit, unit, unit) provider_error + state_trie, p)"
    and "tries_account (sx_tries st) = Map.empty"
    and "provider_chain_ok sample_provider_env p" and "provider_ok p"
proof -
  obtain p where p: "new_sample_provider = Return (Inr p)" and d: "rv_state_diffs (lc_storage (pd_blockchain p)) = [(0, [])]"
    using sample_provider_new by blast
  from p obtain genesis diff td st where g: "lc_storage (pd_blockchain p) = with_genesis_block genesis diff td"
    and n: "block_number genesis = 0" and h: "lb_hash genesis = he_header_hash (pe_header_env sample_provider_env) (lb_header genesis)"
    and "lc_hardfork (pd_blockchain p) = bc_hardfork (sample_config Shanghai :: nat block_config)"
    and st: "state_at_block_number (pe_state_env sample_provider_env) (pd_blockchain p) 0 [] = Return (Inr st)"
    and c: "pd_block_state_cache p = pe_cache_push sample_provider_env 0 st []"
      "pd_block_number_to_state_id p = [0 \<mapsto> 0]" "pd_current_state_id p = 0"
    by (rule provider_new_genesis)
  have "tries_account (sx_tries st) = Map.empty"
    using st d
    by (auto simp: g with_genesis_block_def state_at_block_number_def lc_last_block_number_def compute_state_at_block_def
        state_diffs_until_block_def diff_index_def btree_range_def btree_collect_def tries_commit_def mutate_def drop_mutation_def
        state_default_def tries_default_def tries_account_def Let_def)
  moreover have "provider_chain_ok sample_provider_env p"
    using reservable_reachable.genesis [OF n h] sample_env_separates
    by (simp add: provider_chain_ok_def g) (simp add: sample_provider_env_def)
  moreover have "current_state sample_provider_env p = Return (Inr st :: (nat, unit, unit, unit, unit) provider_error + state_trie, p)"
    by (simp add: current_state_def get_or_compute_state_def pd_last_block_number_def lc_last_block_number_def g c
        with_genesis_block_def) (simp add: sample_provider_env_def c)
  ultimately show thesis using p provider_new_ok [OF p] by (intro that)
qed

theorem set_balance_read_back_witness:
  "\<exists>p p' p2. new_sample_provider = Return (Inr p)
     \<and> set_balance sample_provider_env p 1 500 = Return (Inr () :: (nat, unit, unit, unit, unit) provider_error + unit, p')
     \<and> get_balance sample_provider_env sample_clock p' 1 None =
         Some (Return (Inr 500 :: (nat, unit, unit, unit, unit) provider_error + u256, p2))"
proof -
  obtain p st where p: "new_sample_provider = Return (Inr p)"
    and st: "current_state sample_provider_env p = Return (Inr st :: (nat, unit, unit, unit, unit) provider_error + state_trie, p)"
    and e: "tries_account (sx_tries st) = Map.empty"
    and chain: "provider_chain_ok sample_provider_env p" and "provider_ok p" by (rule sample_provider_state)
  obtain info st' where m: "state_modify_account (pe_state_env sample_provider_env) st 1 (\<lambda>(balance, nonce, code). (500, nonce, code)) =
      (Inr info :: unit state_error + _, st')"
    using e by (simp add: state_modify_account_def modify_account_or_else_def default_account_info_def Let_def)
  obtain pool where "mem_pool_update (pd_mem_pool p) (basic_of st') = (Inr () :: unit state_error + unit, pool)"
    by (rule mem_pool_update_basic_of)
  with st m obtain p' where
    p': "set_balance sample_provider_env p 1 500 = Return (Inr () :: (nat, unit, unit, unit, unit) provider_error + unit, p')"
    by (simp add: set_balance_def)
  have "cache_returns_pushed sample_provider_env" by (simp add: cache_returns_pushed_def sample_provider_env_def)
  from set_balance_read_back [OF this chain p', of sample_clock] p p' show ?thesis by (auto dest!: spec [of _ 1])
qed

theorem set_storage_read_back_witness:
  "\<exists>p p' p2. new_sample_provider = Return (Inr p)
     \<and> pd_set_account_storage_slot sample_provider_env p 1 7 500 =
         Return (Inr () :: (nat, unit, unit, unit, unit) provider_error + unit, p')
     \<and> get_storage_at sample_provider_env sample_clock p' 1 7 None =
         Some (Return (Inr 500 :: (nat, unit, unit, unit, unit) provider_error + u256, p2))
     \<and> recorded_account p' 0 1 \<noteq> None"
proof -
  obtain p st where p: "new_sample_provider = Return (Inr p)"
    and st: "current_state sample_provider_env p = Return (Inr st :: (nat, unit, unit, unit, unit) provider_error + state_trie, p)"
    and e: "tries_account (sx_tries st) = Map.empty"
    and chain: "provider_chain_ok sample_provider_env p" and ok: "provider_ok p" by (rule sample_provider_state)
  have n: "pd_last_block_number p = 0"
    using p by (rule provider_new_genesis) (simp add: pd_last_block_number_def lc_last_block_number_def with_genesis_block_def)
  let ?m = "state_set_account_storage_slot (pe_state_env sample_provider_env) st 1 7 500 :: (unit state_error + u256) \<times> _"
  obtain old st' where m: "?m = (Inr old, st')"
    using fun_cong [OF e, of 1]
    by (simp add: state_set_account_storage_slot_def set_account_storage_slot_or_else_def tries_set_account_storage_slot_def
        insert_storage_slot_def mutate_def tries_account_def set_storage_slot_def Let_def)
  have "state_basic st' 1 = Some (default_account_info\<lparr>ai_code := None\<rparr>)"
    using state_set_storage_reads(3) [OF m, of 1] e by (simp add: state_basic_def)
  with st m obtain p' where p': "pd_set_account_storage_slot sample_provider_env p 1 7 500 =
      Return (Inr () :: (nat, unit, unit, unit, unit) provider_error + unit, p')"
    by (simp add: pd_set_account_storage_slot_def default_account_info_def Let_def)
  have "cache_returns_pushed sample_provider_env" by (simp add: cache_returns_pushed_def sample_provider_env_def)
  from set_storage_read_back [OF this chain provider_okD(2) [OF ok] p', of sample_clock, unfolded n] p p'
  show ?thesis by (auto dest!: spec [of _ "1 :: address"] spec [of _ "7 :: u256"])
qed

end
