(* ===== verification/Provider_Snapshots.thy ===== *)
theory Provider_Snapshots
  imports Provider_State
begin

text \<open>
  Snapshots: what a revert restores, and the two ways in which it differs from its comments.
\<close>

lemma map_of_make_snapshot:
  assumes "btree_ok (pd_snapshots p)" and "make_snapshot clock p = (i, p1)"
  shows "i = pd_next_snapshot_id p"
    and "map_of (pd_snapshots p1) i =
      Some \<lparr>sn_block_number = pd_last_block_number p, sn_block_number_to_state_id = pd_block_number_to_state_id p,
            sn_block_time_offset_seconds = pd_block_time_offset_seconds p, sn_coinbase = pd_beneficiary p,
            sn_irregular_state = pd_irregular_state p, sn_mem_pool = pd_mem_pool p,
            sn_next_block_base_fee_per_gas = pd_next_block_base_fee_per_gas p,
            sn_next_block_timestamp = pd_next_block_timestamp p,
            sn_parent_beacon_block_root_generator = pd_parent_beacon_block_root_generator p,
            sn_prev_randao_generator = pd_prev_randao_generator p, sn_time = ck_now clock\<rparr>"
  using assms by (auto simp: make_snapshot_def map_of_btree_insert Let_def simp del: map_of_eq_Some_iff)

lemma map_of_split_off: "map_of (filter (\<lambda>(id, _). i \<le> id) m) i = map_of m i" for i :: "'a :: order"
  by (induction m) auto

lemma revert_to_snapshot_unfold:
  "revert_to_snapshot clock p i =
     (let p = p\<lparr>pd_snapshots := filter (\<lambda>(id, _). id < i) (pd_snapshots p)\<rparr>
      in case map_of (pd_snapshots p0) i of
           None \<Rightarrow> Return (False, p)
         | Some s \<Rightarrow> bind_outcome (restore_snapshot clock p s) (\<lambda>p. Return (True, p)))"
  if "p0 = p" for p p0
  using that by (simp add: revert_to_snapshot_def map_of_split_off Let_def)

lemma lc_revert_ok:
  assumes "provider_chain_ok env p" and "n \<le> pd_last_block_number p"
    and "n = 0 \<or> diff_index (lc_storage (pd_blockchain p)) n \<noteq> None"
  obtains s' where "lc_revert_to_block (pd_blockchain p) n = Return (Inr (), (pd_blockchain p)\<lparr>lc_storage := s'\<rparr>)"
    and "reservable_reachable (pe_header_env env) s'" and "rv_last_block_number s' = n"
    and "chain_block (pe_header_env env) s' =
      (\<lambda>m. if m \<le> n then chain_block (pe_header_env env) (lc_storage (pd_blockchain p)) m else None)"
    and "\<forall>m \<le> n. state_diffs_until_block s' m = state_diffs_until_block (lc_storage (pd_blockchain p)) m"
proof -
  let ?s = "lc_storage (pd_blockchain p)"
  from assms(1) have reach: "reservable_reachable (pe_header_env env) ?s" and sep: "hash_separates (pe_header_env env)"
    by (simp_all add: provider_chain_ok_def)
  note ok = reservable_reachable_ok [OF reach sep]
  from revert_cases(3) [OF ok(1), of n] assms(2,3) obtain s' where s': "reservable_revert_to_block ?s n = Return (True, s')"
    by (auto simp: pd_last_block_number_def lc_last_block_number_def)
  then have "reservable_reachable (pe_header_env env) s'"
    by (intro reservable_reachable.step [OF reach] reservable_step.revert)
  moreover have "chain_block (pe_header_env env) s' = (\<lambda>m. if m \<le> n then chain_block (pe_header_env env) ?s m else None)"
    by (rule ext) (rule revert_chain(4) [OF ok(1) s'])
  moreover note D = diffs_ok_revert [OF ok s']
  have "state_diffs_until_block s' m = state_diffs_until_block ?s m" if "m \<le> n" for m
    using that by (auto simp: state_diffs_until_block_ok [OF D(1)] state_diffs_until_block_ok [OF ok(2)] D(2,3)
        intro!: map_option_cong filter_cong)
  ultimately show thesis using s' revert_chain(3) [OF ok(1) s'] by (intro that [of s']) (simp_all add: lc_revert_to_block_def)
qed

lemma no_diffs_iff:
  assumes "provider_chain_ok env p"
  shows "state_diffs_until_block (lc_storage (pd_blockchain p)) n = Return None \<longleftrightarrow> diff_index (lc_storage (pd_blockchain p)) n = None"
    and "diff_index (lc_storage (pd_blockchain p)) n = None \<Longrightarrow> n \<le> pd_last_block_number p \<Longrightarrow>
      lc_revert_to_block (pd_blockchain p) n = Panic"
proof -
  note ok = reservable_reachable_ok [of "pe_header_env env" "lc_storage (pd_blockchain p)"]
  have rv: "rv_ok (pe_header_env env) (lc_storage (pd_blockchain p))" and ds: "diffs_ok (lc_storage (pd_blockchain p))"
    using assms ok by (auto simp: provider_chain_ok_def)
  show "state_diffs_until_block (lc_storage (pd_blockchain p)) n = Return None \<longleftrightarrow> diff_index (lc_storage (pd_blockchain p)) n = None"
    by (simp add: state_diffs_until_block_ok [OF ds])
  assume *: "diff_index (lc_storage (pd_blockchain p)) n = None" "n \<le> pd_last_block_number p"
  then have "0 < n" using diffs_okD(8) [OF ds] by (cases "n = 0") (auto simp: word_neq_0_conv)
  then show "lc_revert_to_block (pd_blockchain p) n = Panic"
    using revert_cases(2) [OF rv] * by (simp add: lc_revert_to_block_def pd_last_block_number_def lc_last_block_number_def)
qed

text \<open>The state at a block depends on the diffs up to it.\<close>

lemma state_at_same_diffs:
  assumes "state_diffs_until_block (lc_storage lc') m = state_diffs_until_block (lc_storage lc) m"
    and "m \<le> lc_last_block_number lc" and "m \<le> lc_last_block_number lc'"
  shows "state_at_block_number senv lc' m overrides = state_at_block_number senv lc m overrides"
  using assms by (auto simp: state_at_block_number_def compute_state_at_block_def)

text \<open>C8. A snapshot is taken and reverted to later, when the blocks up to the snapshot are still there.
  If no state diffs are recorded for the last block of the snapshot (it is a reserved block that was asked
  for and built), the revert panics. Otherwise it succeeds and restores the chain, the pool, the
  overrides, the coinbase, the settings of the next block, and the generators; the snapshot and the
  later ones are gone, the earlier ones stay. The state that is computed for a block of the chain is
  the one that was computed when the snapshot was taken, unless the block is a reserved one that was
  built in the meantime.\<close>

theorem revert_restores_snapshot:
  assumes "btree_ok (pd_snapshots p)" and "make_snapshot clock p = (i, p1)"
    and "provider_chain_ok env p" and "provider_chain_ok env q"
    and "map_of (pd_snapshots q) i = map_of (pd_snapshots p1) i"
    and "pd_last_block_number p \<le> pd_last_block_number q"
    and "\<forall>m \<le> pd_last_block_number p. chain_block (pe_header_env env) (lc_storage (pd_blockchain q)) m =
      chain_block (pe_header_env env) (lc_storage (pd_blockchain p)) m"
    and "(ck_now clock' - ck_now clock) div 10 ^ 9 < 2 ^ 63"
  shows "if state_diffs_until_block (lc_storage (pd_blockchain q)) (pd_last_block_number p) = Return None
    then revert_to_snapshot clock' q i = Panic
    else \<exists>q'. revert_to_snapshot clock' q i = Return (True, q')
      \<and> provider_chain_ok env q'
      \<and> pd_last_block_number q' = pd_last_block_number p
      \<and> chain_block (pe_header_env env) (lc_storage (pd_blockchain q')) =
          chain_block (pe_header_env env) (lc_storage (pd_blockchain p))
      \<and> pd_mem_pool q' = pd_mem_pool p \<and> pd_irregular_state q' = pd_irregular_state p
      \<and> pd_beneficiary q' = pd_beneficiary p
      \<and> pd_next_block_base_fee_per_gas q' = pd_next_block_base_fee_per_gas p
      \<and> pd_next_block_timestamp q' = pd_next_block_timestamp p
      \<and> pd_prev_randao_generator q' = pd_prev_randao_generator p
      \<and> pd_parent_beacon_block_root_generator q' = pd_parent_beacon_block_root_generator p
      \<and> pd_block_number_to_state_id q' = pd_block_number_to_state_id p
      \<and> pd_snapshots q' = filter (\<lambda>(id, _). id < i) (pd_snapshots q)
      \<and> (\<forall>m \<le> pd_last_block_number p.
          state_diffs_until_block (lc_storage (pd_blockchain q)) m = state_diffs_until_block (lc_storage (pd_blockchain p)) m \<longrightarrow>
          (\<forall>overrides. state_at_block_number (pe_state_env env) (pd_blockchain q') m overrides =
            state_at_block_number (pe_state_env env) (pd_blockchain p) m overrides))"
proof (cases "diff_index (lc_storage (pd_blockchain q)) (pd_last_block_number p) = None")
  case True
  with map_of_make_snapshot(2) [OF assms(1,2)] assms(5,8) no_diffs_iff [OF assms(4)] assms(6) show ?thesis
    by (simp add: revert_to_snapshot_unfold [OF refl] restore_snapshot_def not_le Let_def)
next
  case False
  let ?h = "pe_header_env env" and ?n = "pd_last_block_number p"
  from False have "?n = 0 \<or> diff_index (lc_storage (pd_blockchain q)) ?n \<noteq> None" by simp
  with assms(4,6) obtain s' where
    revert: "lc_revert_to_block (pd_blockchain q) ?n = Return (Inr (), (pd_blockchain q)\<lparr>lc_storage := s'\<rparr>)"
    and reach: "reservable_reachable ?h s'" and last: "rv_last_block_number s' = ?n"
    and chain: "chain_block ?h s' = (\<lambda>m. if m \<le> ?n then chain_block ?h (lc_storage (pd_blockchain q)) m else None)"
    and diffs: "\<forall>m \<le> ?n. state_diffs_until_block s' m = state_diffs_until_block (lc_storage (pd_blockchain q)) m"
    by (rule lc_revert_ok)
  have "chain_block ?h (lc_storage (pd_blockchain p)) m = None" if "\<not> m \<le> ?n" for m
    using that assms(3) chain_block_None_iff [of "lc_storage (pd_blockchain p)" ?h m] reservable_reachable_ok(1) [of ?h]
    by (auto simp: provider_chain_ok_def pd_last_block_number_def lc_last_block_number_def rv_ok_def)
  with chain assms(7) have same: "chain_block ?h s' = chain_block ?h (lc_storage (pd_blockchain p))" by auto
  have "state_at_block_number (pe_state_env env) ((pd_blockchain q)\<lparr>lc_storage := s'\<rparr>) m overrides =
      state_at_block_number (pe_state_env env) (pd_blockchain p) m overrides"
    if "m \<le> ?n" "state_diffs_until_block (lc_storage (pd_blockchain q)) m = state_diffs_until_block (lc_storage (pd_blockchain p)) m"
    for m overrides
    by (rule state_at_same_diffs) (use that diffs last in \<open>simp_all add: pd_last_block_number_def lc_last_block_number_def\<close>)
  with map_of_make_snapshot(2) [OF assms(1,2)] assms(4,5,8) revert reach last same False no_diffs_iff(1) [OF assms(4)]
  show ?thesis
    by (simp add: revert_to_snapshot_unfold [OF refl] restore_snapshot_def provider_chain_ok_def pd_last_block_number_def
        lc_last_block_number_def not_le Let_def)
qed

theorem revert_restores_snapshot_witness:
  "\<exists>p p1 q'. new_sample_provider = Return (Inr p) \<and> make_snapshot sample_clock p = (1, p1)
     \<and> revert_to_snapshot sample_clock (set_coinbase p1 77) 1 = Return (True, q')
     \<and> pd_beneficiary (set_coinbase p1 77) = 77 \<and> pd_beneficiary q' = 12 \<and> pd_last_block_number q' = 0 \<and> pd_snapshots q' = []
     \<and> state_at_block_number (pe_state_env sample_provider_env) (pd_blockchain q') 0 [] =
         state_at_block_number (pe_state_env sample_provider_env) (pd_blockchain p) 0 []"
proof -
  obtain p st where p: "new_sample_provider = Return (Inr p)"
    and "current_state sample_provider_env p = Return (Inr st :: (nat, unit, unit, unit, unit) provider_error + state_trie, p)"
    and "tries_account (sx_tries st) = Map.empty"
    and chain: "provider_chain_ok sample_provider_env p" and ok: "provider_ok p" by (rule sample_provider_state)
  obtain p1 where p1: "make_snapshot sample_clock p = (1, p1)" and q: "pd_blockchain p1 = pd_blockchain p"
    and snaps: "filter (\<lambda>(id, _). id = 0) (pd_snapshots p1) = []"
    by (rule provider_new_cases [OF p]) (simp add: make_snapshot_def Let_def)
  have n: "pd_last_block_number p = 0"
    using p by (rule provider_new_genesis) (simp add: pd_last_block_number_def lc_last_block_number_def with_genesis_block_def)
  have b: "pd_beneficiary p = 12" by (rule provider_new_cases [OF p]) (simp add: sample_provider_config_def)
  have "diffs_ok (lc_storage (pd_blockchain p))"
    using chain reservable_reachable_ok(2) by (auto simp: provider_chain_ok_def)
  then have d: "state_diffs_until_block (lc_storage (pd_blockchain p)) 0 \<noteq> Return None"
    using no_diffs_iff(1) [OF chain, of 0] diffs_okD(8) by auto
  have "btree_ok (pd_snapshots p)" using ok by (simp add: provider_ok_def snapshots_ok_def)
  from revert_restores_snapshot [OF this p1 chain, where q = "set_coinbase p1 77" and clock' = sample_clock] chain n q b d
  obtain q' where "revert_to_snapshot sample_clock (set_coinbase p1 77) 1 = Return (True, q')"
    "pd_beneficiary q' = 12" "pd_last_block_number q' = 0" "pd_snapshots q' = []"
    "state_at_block_number (pe_state_env sample_provider_env) (pd_blockchain q') 0 [] =
         state_at_block_number (pe_state_env sample_provider_env) (pd_blockchain p) 0 []"
    by (auto simp: set_coinbase_def provider_chain_ok_def pd_last_block_number_def snaps)
  with p p1 show ?thesis by (auto simp: set_coinbase_def)
qed

text \<open>C34. The clock after a revert. The comment in the code asks for an offset with which the time is
  that of the snapshot; the elapsed seconds are added to the old offset instead of subtracted, so the
  time after the revert is ahead of that of the snapshot by twice the elapsed seconds.\<close>

theorem revert_doubles_elapsed_time:
  assumes "btree_ok (pd_snapshots p)" and "make_snapshot clock p = (i, p1)"
    and "map_of (pd_snapshots q) i = map_of (pd_snapshots p1) i"
    and "ck_now clock' = ck_now clock + d * 10 ^ 9" and "ck_since_epoch clock' = ck_since_epoch clock + of_nat d"
    and "revert_to_snapshot clock' q i = Return (True, q')"
  shows "ck_since_epoch clock' + pd_block_time_offset_seconds q' =
    ck_since_epoch clock + pd_block_time_offset_seconds p + 2 * of_nat d"
proof -
  obtain lc where "pd_block_time_offset_seconds q' = pd_block_time_offset_seconds p + of_nat d"
    using map_of_make_snapshot(2) [OF assms(1,2)] assms(3,4,6)
    by (auto simp: revert_to_snapshot_unfold [OF refl] restore_snapshot_def case_sum_Return_Inr case_prod_unfold Let_def
        split: if_splits)
  with assms(5) show ?thesis by simp
qed

theorem revert_doubles_elapsed_time_witness:
  "\<exists>p p1 q'. new_sample_provider = Return (Inr p) \<and> make_snapshot sample_clock p = (1, p1)
     \<and> revert_to_snapshot \<lparr>ck_now = 17 * 10 ^ 9, ck_since_epoch = 1010\<rparr> p1 1 = Return (True, q')
     \<and> 1010 + pd_block_time_offset_seconds q' = 1000 + pd_block_time_offset_seconds p + 20"
proof -
  obtain p st where p: "new_sample_provider = Return (Inr p)"
    and "current_state sample_provider_env p = Return (Inr st :: (nat, unit, unit, unit, unit) provider_error + state_trie, p)"
    and "tries_account (sx_tries st) = Map.empty"
    and chain: "provider_chain_ok sample_provider_env p" and ok: "provider_ok p" by (rule sample_provider_state)
  obtain p1 where p1: "make_snapshot sample_clock p = (1, p1)" and q: "pd_blockchain p1 = pd_blockchain p"
    by (rule provider_new_cases [OF p]) (simp add: make_snapshot_def Let_def)
  have n: "pd_last_block_number p = 0"
    using p by (rule provider_new_genesis) (simp add: pd_last_block_number_def lc_last_block_number_def with_genesis_block_def)
  let ?c = "\<lparr>ck_now = 17 * 10 ^ 9, ck_since_epoch = 1010\<rparr>"
  have snaps: "btree_ok (pd_snapshots p)" using ok by (simp add: provider_ok_def snapshots_ok_def)
  obtain s' where "lc_revert_to_block (pd_blockchain p) 0 = Return (Inr (), (pd_blockchain p)\<lparr>lc_storage := s'\<rparr>)"
    using lc_revert_ok [OF chain, of 0] by auto
  with map_of_make_snapshot(2) [OF snaps p1] q n obtain q' where q': "revert_to_snapshot ?c p1 1 = Return (True, q')"
    by (simp add: revert_to_snapshot_unfold [OF refl] restore_snapshot_def sample_clock_def Let_def)
  from revert_doubles_elapsed_time [OF snaps p1 refl _ _ q', of 10] p p1 q' show ?thesis by (auto simp: sample_clock_def)
qed

text \<open>A revert to a snapshot that does not exist reports so, but it is not without effect: the
  snapshots with a greater id are dropped, although the comment says that this happens if the
  snapshot exists.\<close>

theorem revert_to_unknown_drops_later_snapshots:
  assumes "map_of (pd_snapshots p) i = None"
  shows "\<exists>p'. revert_to_snapshot clock p i = Return (False, p')
    \<and> (\<forall>j. map_of (pd_snapshots p') j = (if j < i then map_of (pd_snapshots p) j else None))"
proof -
  have "map_of (filter (\<lambda>(id, _). id < i) m) j = (if j < i then map_of m j else None)" for j and m :: "(u64 \<times> snapshot) list"
    by (induction m) auto
  with assms show ?thesis by (simp add: revert_to_snapshot_unfold [OF refl] Let_def)
qed

theorem revert_to_unknown_drops_later_snapshots_witness:
  "\<exists>p p1 p'. new_sample_provider = Return (Inr p) \<and> make_snapshot sample_clock p = (1, p1)
     \<and> map_of (pd_snapshots p1) 1 \<noteq> None
     \<and> revert_to_snapshot sample_clock p1 0 = Return (False, p') \<and> map_of (pd_snapshots p') 1 = None"
proof -
  obtain p where p: "new_sample_provider = Return (Inr p)" using sample_provider_new by blast
  obtain p1 where p1: "make_snapshot sample_clock p = (1, p1)" and s: "map_of (pd_snapshots p1) 0 = None"
    and one: "map_of (pd_snapshots p1) 1 \<noteq> None"
    by (rule provider_new_cases [OF p]) (simp add: make_snapshot_def Let_def)
  obtain p' where "revert_to_snapshot sample_clock p1 0 = Return (False, p')"
    and "\<forall>j. map_of (pd_snapshots p') j = (if j < 0 then map_of (pd_snapshots p1) j else None)"
    using revert_to_unknown_drops_later_snapshots [OF s, of sample_clock] by blast
  with p p1 one show ?thesis by auto
qed

end
