(* ===== verification/Provider_Chain.thy ===== *)
theory Provider_Chain
  imports Provider_Snapshots
begin

text \<open>
  Mining in a provider: the blocks that it mines extend its chain, and what changes with a block.
\<close>

section \<open>Successful results\<close>

lemma and_then_run_Inr:
  "and_then_run m f = Some (Return (Inr y, q)) \<longleftrightarrow>
     (\<exists>x s. m = Some (Return (Inr x, s)) \<and> f x s = Some (Return (Inr y, q)))"
  by (auto simp: and_then_run_def split: option.splits outcome.splits sum.splits)

lemma and_then_Inr:
  "and_then m f = Return (Inr y, q) \<longleftrightarrow> (\<exists>x s. m = Return (Inr x, s) \<and> f x s = Return (Inr y, q))"
  by (auto simp: and_then_def split: outcome.splits sum.splits)

lemma map_sum_Inr: "map_sum f id r = Inr x \<longleftrightarrow> r = Inr x"
  by (cases r) auto

lemma lift_blockchain_Inr:
  "lift_blockchain p m = Return (Inr x, q) \<longleftrightarrow> (\<exists>lc. m = Return (Inr x, lc) \<and> q = p\<lparr>pd_blockchain := lc\<rparr>)"
  by (cases m) (auto simp: lift_blockchain_def map_sum_Inr)

section \<open>Operations that only read\<close>

text \<open>Reading fetches reserved blocks into the storage and changes the cache of states, but no block
  of the chain and nothing else.\<close>

definition only_reads ::
  "('w, 'bp, 'bx, 'v, 'x, 'i, 'ie, 'o, 'g, 'c) provider_env \<Rightarrow> ('w, 'bp, 'c) provider_data \<Rightarrow> ('w, 'bp, 'c) provider_data \<Rightarrow> bool" where
  "only_reads env p q \<longleftrightarrow>
     (\<exists>s c i m. q = p\<lparr>pd_blockchain := (pd_blockchain p)\<lparr>lc_storage := s\<rparr>, pd_block_state_cache := c, pd_current_state_id := i,
                      pd_block_number_to_state_id := m\<rparr>
        \<and> reservable_reachable (pe_header_env env) s
        \<and> chain_block (pe_header_env env) s = chain_block (pe_header_env env) (lc_storage (pd_blockchain p))
        \<and> rv_last_block_number s = pd_last_block_number p)"

lemma only_readsD:
  assumes "only_reads env p q"
  shows "chain_block (pe_header_env env) (lc_storage (pd_blockchain q)) =
      chain_block (pe_header_env env) (lc_storage (pd_blockchain p))"
    and "pd_last_block_number q = pd_last_block_number p" and "pd_hardfork q = pd_hardfork p"
    and "pd_mem_pool q = pd_mem_pool p" and "pd_block_config q = pd_block_config p"
    and "pd_filters q = pd_filters p" and "pd_irregular_state q = pd_irregular_state p"
    and "pd_snapshots q = pd_snapshots p" and "pd_block_time_offset_seconds q = pd_block_time_offset_seconds p"
    and "pd_prev_randao_generator q = pd_prev_randao_generator p"
    and "pd_parent_beacon_block_root_generator q = pd_parent_beacon_block_root_generator p"
    and "pd_next_block_timestamp q = pd_next_block_timestamp p" and "pd_min_gas_price q = pd_min_gas_price p"
    and "pd_allow_blocks_with_same_timestamp q = pd_allow_blocks_with_same_timestamp p"
    and "pd_subscriber_events q = pd_subscriber_events p" and "pd_beneficiary q = pd_beneficiary p"
  using assms by (auto simp: only_reads_def pd_last_block_number_def lc_last_block_number_def pd_hardfork_def)

lemma only_reads_ok:
  "only_reads env p q \<Longrightarrow> provider_chain_ok env p \<Longrightarrow> provider_chain_ok env q"
  by (auto simp: only_reads_def provider_chain_ok_def)

lemma only_reads_refl: "provider_chain_ok env p \<Longrightarrow> only_reads env p p"
  unfolding only_reads_def provider_chain_ok_def pd_last_block_number_def lc_last_block_number_def
  by (rule exI [of _ "lc_storage (pd_blockchain p)"], rule exI [of _ "pd_block_state_cache p"],
      rule exI [of _ "pd_current_state_id p"], rule exI [of _ "pd_block_number_to_state_id p"]) simp

lemma only_reads_trans:
  assumes "only_reads env p q" and "only_reads env q r"
  shows "only_reads env p r"
proof -
  from assms(2) obtain s c i m where r: "r = q\<lparr>pd_blockchain := (pd_blockchain q)\<lparr>lc_storage := s\<rparr>, pd_block_state_cache := c,
      pd_current_state_id := i, pd_block_number_to_state_id := m\<rparr>" and "reservable_reachable (pe_header_env env) s"
    "chain_block (pe_header_env env) s = chain_block (pe_header_env env) (lc_storage (pd_blockchain q))"
    "rv_last_block_number s = pd_last_block_number q" unfolding only_reads_def by blast
  moreover from assms(1) r have "r = p\<lparr>pd_blockchain := (pd_blockchain p)\<lparr>lc_storage := s\<rparr>, pd_block_state_cache := c,
      pd_current_state_id := i, pd_block_number_to_state_id := m\<rparr>" by (auto simp: only_reads_def)
  ultimately show ?thesis using only_readsD(1,2) [OF assms(1)] unfolding only_reads_def by metis
qed

lemma only_reads_last_block:
  fixes r :: "('v, 'x, 'r, 'ie, 'g) provider_error + 'w local_block"
    and env :: "('w, 'bp, 'bx, 'v, 'x, 'i, 'ie, 'o, 'g, 'c) provider_env"
  assumes "provider_chain_ok env p" and "pd_last_block env p = Return (r, q)"
  shows "only_reads env p q" and "\<exists>b. r = Inr b
    \<and> chain_block (pe_header_env env) (lc_storage (pd_blockchain p)) (pd_last_block_number p) = Some b"
proof -
  from assms(1) obtain b s' where
    l: "pd_last_block env p = Return (Inr b :: ('v, 'x, 'r, 'ie, 'g) provider_error + _,
      p\<lparr>pd_blockchain := (pd_blockchain p)\<lparr>lc_storage := s'\<rparr>\<rparr>)"
    and b: "chain_block (pe_header_env env) (lc_storage (pd_blockchain p)) (pd_last_block_number p) = Some b"
    and "block_number b = pd_last_block_number p"
    and s': "reservable_reachable (pe_header_env env) s'"
      "chain_block (pe_header_env env) s' = chain_block (pe_header_env env) (lc_storage (pd_blockchain p))"
      "rv_last_block_number s' = pd_last_block_number p"
    by (rule pd_last_block_ok)
  from assms(2) l s' show "only_reads env p q"
    unfolding only_reads_def
    by (intro exI [of _ s'] exI [of _ "pd_block_state_cache p"] exI [of _ "pd_current_state_id p"]
        exI [of _ "pd_block_number_to_state_id p"]) auto
  from assms(2) l b show "\<exists>b. r = Inr b
    \<and> chain_block (pe_header_env env) (lc_storage (pd_blockchain p)) (pd_last_block_number p) = Some b" by simp
qed

lemma only_reads_cache:
  assumes "only_reads env p q"
  shows "only_reads env p (q\<lparr>pd_block_state_cache := c\<rparr>)" "only_reads env p (q\<lparr>pd_current_state_id := i\<rparr>)"
    "only_reads env p (q\<lparr>pd_block_number_to_state_id := m\<rparr>)"
proof -
  from assms obtain s c' i' m' where q: "q = p\<lparr>pd_blockchain := (pd_blockchain p)\<lparr>lc_storage := s\<rparr>, pd_block_state_cache := c',
      pd_current_state_id := i', pd_block_number_to_state_id := m'\<rparr>" and s: "reservable_reachable (pe_header_env env) s"
    "chain_block (pe_header_env env) s = chain_block (pe_header_env env) (lc_storage (pd_blockchain p))"
    "rv_last_block_number s = pd_last_block_number p" unfolding only_reads_def by blast
  show "only_reads env p (q\<lparr>pd_block_state_cache := c\<rparr>)"
    unfolding only_reads_def q by (rule exI [of _ s], rule exI [of _ c], rule exI [of _ i'], rule exI [of _ m']) (simp add: s)
  show "only_reads env p (q\<lparr>pd_current_state_id := i\<rparr>)"
    unfolding only_reads_def q by (rule exI [of _ s], rule exI [of _ c'], rule exI [of _ i], rule exI [of _ m']) (simp add: s)
  show "only_reads env p (q\<lparr>pd_block_number_to_state_id := m\<rparr>)"
    unfolding only_reads_def q by (rule exI [of _ s], rule exI [of _ c'], rule exI [of _ i'], rule exI [of _ m]) (simp add: s)
qed

lemma only_reads_state:
  assumes "only_reads env p q"
  shows "keeps (only_reads env p) (Some (get_or_compute_state env q n))"
proof -
  have "keeps (only_reads env p) (Some (compute_state env q n))" if "only_reads env p q" for q
    unfolding compute_state_def add_state_to_cache_def Let_def case_prod_unfold
    using that
    by (auto intro!: keeps_bind keeps_rules only_reads_cache split: option.split sum.split)
  with assms show ?thesis
    unfolding get_or_compute_state_def Let_def case_prod_unfold
    by (auto intro!: keeps_rules only_reads_cache split: option.split)
qed

lemma only_reads_keeps_last_block:
  "provider_chain_ok env p \<Longrightarrow> keeps (only_reads env p) (Some (pd_last_block env p))"
  by (auto simp: keeps_def dest: only_reads_last_block)

lemma only_reads_timestamp:
  "provider_chain_ok env p \<Longrightarrow> keeps (only_reads env p) (Some (next_block_timestamp env clock p timestamp))"
  unfolding next_block_timestamp_def Let_def
  by (auto intro!: keeps_rules keeps_bind only_reads_keeps_last_block split: option.split)

section \<open>Mining a block\<close>

lemma commit_mined_block_cases:
  fixes env :: "('w, 'bp, 'bx, 'v, 'x, 'i, 'ie, 'o, 'g, 'c) provider_env"
  assumes "commit_mined_block env clock off built data p = Return (Inr result :: ('v, 'x, 'r, 'ie, 'g) provider_error + _, p')"
  obtains block td lc pool where
    "lc_insert_block (pe_header_env env) (pd_blockchain p) (bt_block built) (bt_state_diff built) = Return (Inr (block, td), lc)"
    and "mem_pool_update (pd_mem_pool p) (basic_of (bt_state built)) = (Inr () :: 'r state_error + unit, pool)"
    and "mr_block result = block" and "mr_transaction_results result = bt_transaction_results built"
    and "pd_blockchain p' = lc" and "pd_mem_pool p' = pool"
    and "pd_block_time_offset_seconds p' = unwrap_or off (pd_block_time_offset_seconds p)"
    and "pd_next_block_base_fee_per_gas p' = None" and "pd_next_block_timestamp p' = None"
    and "pd_prev_randao_generator p' = snd (generate_next (pe_keccak256 env) (pd_prev_randao_generator p))"
    and "pd_filters p' = snd (notify_subscribers_about_mined_block (pe_bloom_contains env) (ck_now clock) (pd_filters p) block td)"
    and "pd_subscriber_events p' = pd_subscriber_events p @
      fst (notify_subscribers_about_mined_block (pe_bloom_contains env) (ck_now clock) (pd_filters p) block td)"
    and "pd_current_state_id p' = pd_current_state_id p + 1"
    and "pd_block_state_cache p' = pe_cache_push env (pd_current_state_id p + 1) (bt_state built) (pd_block_state_cache p)"
    and "pd_block_number_to_state_id p' = (pd_block_number_to_state_id p)(block_number block \<mapsto> pd_current_state_id p + 1)"
    and "pd_irregular_state p' = pd_irregular_state p" and "pd_snapshots p' = pd_snapshots p"
    and "pd_block_config p' = pd_block_config p"
    and "pd_allow_blocks_with_same_timestamp p' = pd_allow_blocks_with_same_timestamp p"
proof -
  obtain block td lc where i: "lc_insert_block (pe_header_env env) (pd_blockchain p) (bt_block built) (bt_state_diff built) =
      Return (Inr (block, td), lc)"
    using assms by (auto simp: commit_mined_block_def and_then_Inr lift_blockchain_Inr)
  obtain pool where "mem_pool_update (pd_mem_pool p) (basic_of (bt_state built)) = (Inr () :: 'r state_error + unit, pool)"
    by (rule mem_pool_update_basic_of)
  with assms i show thesis
    by (intro that [of block td lc pool])
      (auto simp: commit_mined_block_def lift_blockchain_def add_state_to_cache_def case_prod_unfold Let_def)
qed


lemma pd_mine_block_Inr:
  assumes "pd_mine_block env mine_fn p options = Some (Return (Inr (built, data), q))"
  shows "mine_fn p (create_evm_config p (pd_chain_id p)) (complete_options p options) = Some (Return (Inr (built, data), q))"
proof -
  from assms obtain built' data' q' where
    m: "mine_fn p (create_evm_config p (pd_chain_id p)) (complete_options p options) = Some (Return (Inr (built', data'), q'))"
    by (auto simp: pd_mine_block_def and_then_run_Inr)
  with assms show ?thesis by (auto simp: pd_mine_block_def split: option.split_asm sum.split_asm)
qed

text \<open>What is behind a block that a provider mined: the timestamp was chosen, the state read, and a block
  mined on the last block of the chain; then the block was committed.\<close>

lemma mine_and_commit_block_cases:
  fixes env :: "('w, 'bp, 'bx, 'v, 'x, 'i, 'ie, 'o, 'g, 'c) provider_env"
  assumes "provider_chain_ok env p"
    and "mine_and_commit_block env clock p options =
      Some (Return (Inr result :: ('v, 'x, 'r, 'ie, 'g) provider_error + ('w, 'o) mine_block_result, p'))"
  obtains t off p1 st p2 l q built data where
    "next_block_timestamp env clock p (ho_timestamp options) =
      Return (Inr (t, off) :: ('v, 'x, 'r, 'ie, 'g) provider_error + _, p1)"
    and "only_reads env p p1"
    and "current_state env p1 = Return (Inr st :: ('v, 'x, 'r, 'ie, 'g) provider_error + _, p2)"
    and "chain_block (pe_header_env env) (lc_storage (pd_blockchain p)) (pd_last_block_number p) = Some l"
    and "only_reads env p q"
    and "mine_block (pe_builder env) (pe_flush_inspector_data env) (pe_less_than_basefee env) (Inr l) (pd_hardfork q)
      (pd_block_config q) st (pd_mem_pool q) (mp_block_gas_limit (pd_mem_pool q) = None)
      (complete_options p1 (options\<lparr>ho_timestamp := Some t\<rparr>)) (pd_min_gas_price q) (pd_mining_order q)
      (Some (pe_observer env)) = Some (Return (Inr (built, data) :: (local_blockchain_error, 'v, 'x, 'r, 'ie) mine_block_error + _))"
    and "commit_mined_block env clock off built data q = Return (Inr result :: ('v, 'x, 'r, 'ie, 'g) provider_error + _, p')"
proof -
  from assms(2) obtain t off p1 where
    t: "next_block_timestamp env clock p (ho_timestamp options) = Return (Inr (t, off) :: ('v, 'x, 'r, 'ie, 'g) provider_error + _, p1)"
    and m: "and_then_run (pd_mine_block env (mine_block_with_mem_pool env) p1 (options\<lparr>ho_timestamp := Some t\<rparr>)) (\<lambda>(built, data) p.
      Some (commit_mined_block env clock off built data p)) = Some (Return (Inr result :: ('v, 'x, 'r, 'ie, 'g) provider_error + _, p'))"
    by (auto simp: mine_and_commit_block_def mine_and_commit_block_impl_def and_then_run_Inr)
  have p1: "only_reads env p p1" using only_reads_timestamp [OF assms(1)] t by (rule keeps_SomeD)
  let ?config = "create_evm_config p1 (pd_chain_id p1)" and ?options = "complete_options p1 (options\<lparr>ho_timestamp := Some t\<rparr>)"
  from m obtain built data q where
    mine: "mine_block_with_mem_pool env p1 ?config ?options = Some (Return (Inr (built, data) :: ('v, 'x, 'r, 'ie, 'g) provider_error + _, q))"
    and commit: "commit_mined_block env clock off built data q = Return (Inr result :: ('v, 'x, 'r, 'ie, 'g) provider_error + _, p')"
    by (auto simp: and_then_run_Inr dest: pd_mine_block_Inr)
  from mine obtain st p2 where st: "current_state env p1 = Return (Inr st :: ('v, 'x, 'r, 'ie, 'g) provider_error + _, p2)"
    by (auto simp: mine_block_with_mem_pool_def and_then_run_Inr)
  have p2: "only_reads env p p2"
    using only_reads_state [OF p1, of "pd_last_block_number p1"] st unfolding current_state_def by (rule keeps_SomeD)
  have chain2: "provider_chain_ok env p2" by (rule only_reads_ok [OF p2 assms(1)])
  then obtain l s' where l: "last_local_block (pe_header_env env) (pd_blockchain p2) = Return (Inr l, (pd_blockchain p2)\<lparr>lc_storage := s'\<rparr>)"
    unfolding provider_chain_ok_def by (auto elim: last_local_block_ok)
  let ?q = "p2\<lparr>pd_blockchain := (pd_blockchain p2)\<lparr>lc_storage := s'\<rparr>\<rparr>"
  have "pd_last_block env p2 = Return (Inr l :: ('v, 'x, 'r, 'ie, 'g) provider_error + _, ?q)"
    using l by (simp add: pd_last_block_def lift_blockchain_def)
  note last = only_reads_last_block [OF chain2 this]
  have q: "only_reads env p ?q" by (rule only_reads_trans [OF p2 last(1)])
  have "chain_block (pe_header_env env) (lc_storage (pd_blockchain p)) (pd_last_block_number p) = Some l"
    using last(2) only_readsD(1,2) [OF p2] by simp
  moreover have "q = ?q" and "mine_block (pe_builder env) (pe_flush_inspector_data env) (pe_less_than_basefee env) (Inr l) (pd_hardfork ?q)
      (pd_block_config ?q) st (pd_mem_pool ?q) (mp_block_gas_limit (pd_mem_pool ?q) = None)
      ?options (pd_min_gas_price ?q) (pd_mining_order ?q)
      (Some (pe_observer env)) = Some (Return (Inr (built, data) :: (local_blockchain_error, 'v, 'x, 'r, 'ie) mine_block_error + _))"
    using mine st l only_readsD(4) [OF p1] only_readsD(4) [OF p2]
    by (auto simp: mine_block_with_mem_pool_def create_evm_config_def map_sum_Inr Let_def split: option.split_asm)
  ultimately show thesis using t p1 st q commit by (intro that) simp_all
qed

lemma complete_options_number: "ho_number (complete_options p options) = ho_number options"
  by (simp add: complete_options_def Let_def)

lemma mined_insert:
  assumes "provider_chain_ok env q" and "pool_inv pool"
    and "chain_block (pe_header_env env) (lc_storage (pd_blockchain q)) (pd_last_block_number q) = Some l"
    and "bc_hardfork config = pd_hardfork q" and "ho_number overrides = None" and "unat (pd_last_block_number q) + 2 < 2 ^ 64"
    and "mine_block (pe_builder env) flush ltb (Inr l) (pd_hardfork q) config st pool disable overrides min_gas_price ord inspector =
      Some (Return (Inr (built, data)))"
    and "lc_insert_block (pe_header_env env) (pd_blockchain q) (bt_block built) (bt_state_diff built) = Return (r, lc)"
  shows "valid_insert (pe_header_env env) (pd_blockchain q) l (bt_block built) (bt_state_diff built) r lc"
proof -
  from assms(1) have reach: "reservable_reachable (pe_header_env env) (lc_storage (pd_blockchain q))"
    and sep: "hash_separates (pe_header_env env)" by (simp_all add: provider_chain_ok_def)
  note valid = mined_block_valid [OF assms(2,4,5,7)]
  show ?thesis
    by (rule insert_block_cases [OF reach sep valid(2), of "bt_state_diff built"])
      (use assms(3,6,8) valid(1) in \<open>auto simp: pd_last_block_number_def pd_hardfork_def\<close>)
qed

lemma mined_block_committed:
  fixes env :: "('w, 'bp, 'bx, 'v, 'x, 'i, 'ie, 'o, 'g, 'c) provider_env"
  assumes "provider_ok p" and "provider_chain_ok env p" and "cache_returns_pushed env"
    and "bc_hardfork (pd_block_config p) = pd_hardfork p" and "ho_number options = None"
    and "unat (pd_last_block_number p) + 2 < 2 ^ 64"
    and "mine_and_commit_block env clock p options =
      Some (Return (Inr result :: ('v, 'x, 'r, 'ie, 'g) provider_error + ('w, 'o) mine_block_result, p'))"
  shows "provider_chain_ok env p'
    \<and> pd_last_block_number p' = pd_last_block_number p + 1
    \<and> chain_block (pe_header_env env) (lc_storage (pd_blockchain p')) =
        (chain_block (pe_header_env env) (lc_storage (pd_blockchain p)))(pd_last_block_number p + 1 \<mapsto> mr_block result)
    \<and> (\<forall>c. prefix (filter (\<lambda>tx. tx_caller tx = c) (lb_transactions (mr_block result)))
        (map ot_transaction (unwrap_or (map_of (mp_pending_transactions (pd_mem_pool p)) c) [])))
    \<and> (\<exists>st q. current_state env p' = Return (Inr st :: ('v, 'x, 'r, 'ie, 'g) provider_error + state_trie, q)
        \<and> in_sync (pd_mem_pool p') (basic_of st :: 'r state_error basic_fn)
        \<and> pool_mset (pd_mem_pool p') =
            filter_mset (allowed (basic_of st :: 'r state_error basic_fn) (mp_block_gas_limit (pd_mem_pool p))) (pool_mset (pd_mem_pool p)))
    \<and> pd_next_block_timestamp p' = None \<and> pd_next_block_base_fee_per_gas p' = None"
proof -
  let ?h = "pe_header_env env"
  from assms(2,7) obtain t off p1 st p2 l q built data where "only_reads env p p1"
    and l: "chain_block ?h (lc_storage (pd_blockchain p)) (pd_last_block_number p) = Some l" and q: "only_reads env p q"
    and mine: "mine_block (pe_builder env) (pe_flush_inspector_data env) (pe_less_than_basefee env) (Inr l) (pd_hardfork q)
      (pd_block_config q) st (pd_mem_pool q) (mp_block_gas_limit (pd_mem_pool q) = None)
      (complete_options p1 (options\<lparr>ho_timestamp := Some t\<rparr>)) (pd_min_gas_price q) (pd_mining_order q)
      (Some (pe_observer env)) = Some (Return (Inr (built, data) :: (local_blockchain_error, 'v, 'x, 'r, 'ie) mine_block_error + _))"
    and commit: "commit_mined_block env clock off built data q = Return (Inr result :: ('v, 'x, 'r, 'ie, 'g) provider_error + _, p')"
    by (rule mine_and_commit_block_cases)
  note same = only_readsD [OF q]
  have chain: "provider_chain_ok env q" by (rule only_reads_ok [OF q assms(2)])
  have pool: "pool_inv (pd_mem_pool q)" using provider_okD(1) [OF assms(1)] by (simp add: same)
  from commit obtain block td lc pool' where
    ins: "lc_insert_block ?h (pd_blockchain q) (bt_block built) (bt_state_diff built) = Return (Inr (block, td), lc)"
    and upd: "mem_pool_update (pd_mem_pool q) (basic_of (bt_state built)) = (Inr () :: 'r state_error + unit, pool')"
    and b: "mr_block result = block"
    and p': "pd_blockchain p' = lc" "pd_mem_pool p' = pool'" "pd_next_block_base_fee_per_gas p' = None" "pd_next_block_timestamp p' = None"
      "pd_current_state_id p' = pd_current_state_id q + 1"
      "pd_block_state_cache p' = pe_cache_push env (pd_current_state_id q + 1) (bt_state built) (pd_block_state_cache q)"
      "pd_block_number_to_state_id p' = (pd_block_number_to_state_id q)(block_number block \<mapsto> pd_current_state_id q + 1)"
    by (rule commit_mined_block_cases)
  have valid: "valid_insert ?h (pd_blockchain q) l (bt_block built) (bt_state_diff built) (Inr (block, td)) lc"
    by (rule mined_insert [OF chain pool _ _ _ _ mine ins]) (use assms(4-6) l in \<open>simp_all add: same complete_options_number\<close>)
  then have "block = bt_block built" and num: "lc_last_block_number lc = pd_last_block_number p + 1"
    and chain': "provider_chain_ok env p'"
    and blocks: "chain_block ?h (lc_storage lc) = (chain_block ?h (lc_storage (pd_blockchain p)))(pd_last_block_number p + 1 \<mapsto> block)"
    using chain same(1,2) by (auto simp: valid_insert_def provider_chain_ok_def p' pd_last_block_number_def split: if_splits)
  moreover have "block_number block = pd_last_block_number p'"
    using chain' by (rule pd_last_block_ok) (simp add: p' pd_last_block_number_def num [unfolded pd_last_block_number_def] blocks [unfolded pd_last_block_number_def])
  then have "\<exists>r. current_state env p' = Return (Inr (bt_state built) :: ('v, 'x, 'r, 'ie, 'g) provider_error + state_trie, r)"
    using assms(3) by (auto simp: current_state_def get_or_compute_state_def p' cache_returns_pushed_def case_prod_unfold Let_def)
  moreover note mem_pool_update_result [OF pool upd] mined_transactions_prefix [OF pool mine]
  ultimately show ?thesis using p' b by (auto simp: same pd_last_block_number_def)
qed

text \<open>C5. A block that a provider mines with a well-formed chain and pool is the next block of the chain
  and leaves the chain well-formed. Its transactions come from the pool. The pool keeps exactly the
  transactions that the state after the block allows and agrees with that state, which is the
  current state from then on. The settings of the next block are reset.\<close>

theorem provider_mines_block:
  fixes env :: "('w, 'bp, 'bx, 'v, 'x, 'i, 'ie, 'o, 'g, 'c) provider_env"
  assumes "provider_ok p" and "provider_chain_ok env p" and "cache_returns_pushed env"
    and "bc_hardfork (pd_block_config p) = pd_hardfork p" and "ho_number options = None"
    and "unat (pd_last_block_number p) + 2 < 2 ^ 64"
    and "mine_and_commit_block env clock p options =
      Some (Return (Inr result :: ('v, 'x, 'r, 'ie, 'g) provider_error + ('w, 'o) mine_block_result, p'))"
  shows "provider_chain_ok env p'
    \<and> pd_last_block_number p' = pd_last_block_number p + 1
    \<and> chain_block (pe_header_env env) (lc_storage (pd_blockchain p')) =
        (chain_block (pe_header_env env) (lc_storage (pd_blockchain p)))(pd_last_block_number p + 1 \<mapsto> mr_block result)
    \<and> (\<forall>c. prefix (filter (\<lambda>tx. tx_caller tx = c) (lb_transactions (mr_block result)))
        (map ot_transaction (unwrap_or (map_of (mp_pending_transactions (pd_mem_pool p)) c) [])))
    \<and> (\<exists>st q. current_state env p' = Return (Inr st :: ('v, 'x, 'r, 'ie, 'g) provider_error + state_trie, q)
        \<and> in_sync (pd_mem_pool p') (basic_of st :: 'r state_error basic_fn)
        \<and> pool_mset (pd_mem_pool p') =
            filter_mset (allowed (basic_of st :: 'r state_error basic_fn) (mp_block_gas_limit (pd_mem_pool p))) (pool_mset (pd_mem_pool p)))
    \<and> pd_next_block_timestamp p' = None \<and> pd_next_block_base_fee_per_gas p' = None"
  using assms by (rule mined_block_committed)

section \<open>The sample provider mines\<close>

lemma sample_block_builder_new:
  assumes "ho_gas_limit options = Some 60000" and "ho_base_fee options = Some 100" and "ho_mix_hash options = Some v"
    and "ho_number options = None"
  shows "\<exists>b. block_builder_new (pe_builder sample_provider_env) (Inr parent) Shanghai (sample_config Shanghai) state False
      (block_inputs_empty Shanghai) options = Return (Inr b)"
  using assms
  by (simp add: block_builder_new_def partial_header_new_def next_base_fee_def next_blob_gas_def sample_provider_env_def
      sample_config_def block_inputs_empty_def spec_le_simps unwrap_or_def Let_def split: option.split)

lemma sample_mine_empty:
  assumes "ho_gas_limit options = Some 60000" and "ho_base_fee options = Some 100" and "ho_mix_hash options = Some v"
    and "ho_number options = None"
  shows "\<exists>built. mine_block (pe_builder sample_provider_env) (pe_flush_inspector_data sample_provider_env) 0 (Inr parent) Shanghai
      (sample_config Shanghai) state (mem_pool_new limit cap) False options min_gas_price ord (Some ()) =
      Some (Return (Inr (built, []) :: (local_blockchain_error, nat, unit, 'r, unit) mine_block_error + _))
    \<and> lb_transactions (bt_block built) = [] \<and> lb_transaction_receipts (bt_block built) = []"
proof -
  obtain b where new: "block_builder_new (pe_builder sample_provider_env) (Inr parent) Shanghai (sample_config Shanghai) state False
      (block_inputs_empty Shanghai) options = Return (Inr b)" using sample_block_builder_new [OF assms] by blast
  note b = block_builder_new_fields [OF new]
  obtain built where fin: "finalize_block (pe_builder sample_provider_env) b = (Inr built :: 'r block_finalize_error + _)"
    using b(2) by (simp add: finalize_block_def bu_finalize_def sample_provider_env_def MAX_RLP_BLOCK_SIZE_def Let_def)
  from finalize_block_finished [OF this] b(4)
  have "lb_transactions (bt_block built) = [] \<and> lb_transaction_receipts (bt_block built) = []"
    by (simp add: finished_block_def Let_def)
  with new fin show ?thesis
    by (simp add: mine_block_def mine_loop.simps pending_next_def pool_iter_def mem_pool_new_def Let_def)
qed

lemma insert_empty_mined:
  assumes "provider_chain_ok env q"
    and "chain_block (pe_header_env env) (lc_storage (pd_blockchain q)) (pd_last_block_number q) = Some l"
    and "validate_next_block (pd_hardfork q) l b = Inr ()" and "lb_hash b = he_header_hash (pe_header_env env) (lb_header b)"
    and "lb_transactions b = []" and "lb_transaction_receipts b = []" and "unat (pd_last_block_number q) + 1 < 2 ^ 64"
  shows "\<exists>td lc. lc_insert_block (pe_header_env env) (pd_blockchain q) b diff = Return (Inr (b, td), lc)"
proof -
  let ?h = "pe_header_env env" and ?s = "lc_storage (pd_blockchain q)"
  from assms(1) have reach: "reservable_reachable ?h ?s" and sep: "hash_separates ?h" by (simp_all add: provider_chain_ok_def)
  from reach sep obtain l' s' td where last: "last_local_block ?h (pd_blockchain q) = Return (Inr l', (pd_blockchain q)\<lparr>lc_storage := s'\<rparr>)"
    and "reservable_block_by_number ?h ?s (rv_last_block_number ?s) = Return (Inr (Some l'), s')"
    and l': "chain_block ?h ?s (rv_last_block_number ?s) = Some l'"
    and s': "reservable_reachable ?h s'" "chain_block ?h s' = chain_block ?h ?s" "rv_last_block_number s' = rv_last_block_number ?s"
    and td: "reservable_total_difficulty_by_hash s' (lb_hash l') = Some td" by (rule last_local_block_ok)
  have "l' = l" using l' assms(2) by (simp add: pd_last_block_number_def lc_last_block_number_def)
  moreover have "block_number l = rv_last_block_number ?s"
    using chain_block_number [OF _ l'] reservable_reachable_ok(1) [OF reach sep] \<open>l' = l\<close> by (simp add: rv_ok_def)
  then have "block_number b = rv_last_block_number s' + 1"
    using validate_next_block_number [OF assms(3)] s'(3) by simp
  then obtain s2 where "insert_block_and_receipts s' b diff (td + bh_difficulty (lb_header b)) = (Inr b, s2)"
    using insert_empty_block [OF reservable_reachable_ok(1) [OF s'(1) sep] sep _ _ assms(4-6)] assms(7) s'(3)
    by (fastforce simp: pd_last_block_number_def lc_last_block_number_def)
  ultimately show ?thesis
    using last td assms(3) by (simp add: lc_insert_block_def lc_total_difficulty_by_hash_def pd_hardfork_def)
qed

text \<open>The sample provider mines an empty block.\<close>

definition sample_ready :: "(unit, nat, sample_cache) provider_data \<Rightarrow> bool" where
  "sample_ready p \<longleftrightarrow>
     provider_ok p \<and> provider_chain_ok sample_provider_env p
     \<and> pd_block_time_offset_seconds p = 0 \<and> pd_next_block_timestamp p = None
     \<and> pd_mem_pool p = mem_pool_new (Some 60000) None \<and> pd_block_config p = sample_config Shanghai
     \<and> pd_last_block_number p = 0 \<and> pd_hardfork p = Shanghai \<and> pd_block_number_to_state_id p 0 = Some 0
     \<and> (\<exists>st. pe_cache_get sample_provider_env 0 (pd_block_state_cache p) = (Some st, pd_block_state_cache p))
     \<and> \<not> pd_allow_blocks_with_same_timestamp p
     \<and> map_option (\<lambda>b. bh_timestamp (lb_header b)) (chain_block sample_env (lc_storage (pd_blockchain p)) 0) = Some 1000"

lemma sample_provider_ready:
  obtains p where "new_sample_provider = Return (Inr p)" and "sample_ready p" and "pd_filters p = []" and "pd_last_filter_id p = 0"
proof -
  obtain p st where p: "new_sample_provider = Return (Inr p)"
    and "current_state sample_provider_env p = Return (Inr st :: (nat, unit, unit, unit, unit) provider_error + state_trie, p)"
    and "tries_account (sx_tries st) = Map.empty"
    and chain: "provider_chain_ok sample_provider_env p" "provider_ok p" by (rule sample_provider_state)
  have "pd_block_time_offset_seconds p = 0"
    "map_option (\<lambda>b. bh_timestamp (lb_header b)) (chain_block sample_env (lc_storage (pd_blockchain p)) 0) = Some 1000"
    using p sample_provider_new by auto
  moreover from p have "pd_next_block_timestamp p = None" "pd_mem_pool p = mem_pool_new (Some 60000) None"
    "pd_block_config p = sample_config Shanghai" "\<not> pd_allow_blocks_with_same_timestamp p"
    and f: "pd_filters p = []" "pd_last_filter_id p = 0"
    by (auto elim!: provider_new_cases simp: sample_provider_config_def)
  moreover from p have "pd_last_block_number p = 0" "pd_hardfork p = Shanghai" "pd_block_number_to_state_id p 0 = Some 0"
    "\<exists>st. pe_cache_get sample_provider_env 0 (pd_block_state_cache p) = (Some st, pd_block_state_cache p)"
    by (auto elim!: provider_new_genesis simp: pd_last_block_number_def lc_last_block_number_def with_genesis_block_def
        pd_hardfork_def sample_config_def sample_provider_env_def)
  ultimately show thesis using p chain by (intro that) (simp_all add: sample_ready_def)
qed

text \<open>The options of the sample blocks; a timestamp is not before that of the genesis block.\<close>

definition sample_options :: "u64 option \<Rightarrow> header_overrides" where
  "sample_options timestamp = no_overrides\<lparr>ho_base_fee := Some 100, ho_timestamp := timestamp\<rparr>"

lemma sample_timestamp:
  assumes "sample_ready p" and "\<forall>ts. timestamp = Some ts \<longrightarrow> 1000 \<le> ts \<and> unat ts < 2 ^ 63"
    and l: "pd_last_block sample_provider_env p = Return (Inr l :: (nat, unit, unit, unit, unit) provider_error + _, p1)"
  shows "\<exists>t off. next_block_timestamp sample_provider_env sample_clock p timestamp =
    Return (Inr (t, off) :: (nat, unit, unit, unit, unit) provider_error + _, p1)"
proof -
  have chain: "provider_chain_ok sample_provider_env p" using assms(1) by (simp add: sample_ready_def)
  have env: "pe_header_env sample_provider_env = sample_env" by (simp add: sample_provider_env_def)
  have "bh_timestamp (lb_header l) = 1000"
    using only_reads_last_block(2) [OF chain l] assms(1) by (auto simp: sample_ready_def env)
  moreover note only_readsD [OF only_reads_last_block(1) [OF chain l]]
  ultimately show ?thesis
    using assms
    by (cases timestamp)
      (auto simp: sample_ready_def next_block_timestamp_def expect_nonneg_def sample_clock_def checked_sub_def Let_def)
qed

lemma sample_provider_mines:
  assumes p: "sample_ready p" and ts: "\<forall>ts. timestamp = Some ts \<longrightarrow> 1000 \<le> ts \<and> unat ts < 2 ^ 63"
  shows "\<exists>result p'. mine_and_commit_block sample_provider_env sample_clock p (sample_options timestamp) =
    Some (Return (Inr result :: (nat, unit, unit, unit, unit) provider_error + (unit, unit) mine_block_result, p'))"
proof -
  let ?env = sample_provider_env
  from p have chain: "provider_chain_ok ?env p" and set: "pd_mem_pool p = mem_pool_new (Some 60000) None"
    "pd_block_config p = sample_config Shanghai"
    and gen: "pd_last_block_number p = 0" "pd_hardfork p = Shanghai" "pd_block_number_to_state_id p 0 = Some 0"
    "\<exists>st. pe_cache_get ?env 0 (pd_block_state_cache p) = (Some st, pd_block_state_cache p)" by (simp_all add: sample_ready_def)
  obtain l s1 where l: "pd_last_block ?env p = Return (Inr l :: (nat, unit, unit, unit, unit) provider_error + _,
      p\<lparr>pd_blockchain := (pd_blockchain p)\<lparr>lc_storage := s1\<rparr>\<rparr>)"
    using chain by (rule pd_last_block_ok)
  let ?p1 = "p\<lparr>pd_blockchain := (pd_blockchain p)\<lparr>lc_storage := s1\<rparr>\<rparr>"
  note r1 = only_reads_last_block(1) [OF chain l]
  obtain t o1 where t: "next_block_timestamp ?env sample_clock p timestamp =
      Return (Inr (t, o1) :: (nat, unit, unit, unit, unit) provider_error + _, ?p1)"
    using sample_timestamp [OF p ts l] by blast
  note p1 = only_readsD [OF r1] and chain1 = only_reads_ok [OF r1 chain]
  obtain st where st: "current_state ?env ?p1 = Return (Inr st :: (nat, unit, unit, unit, unit) provider_error + state_trie, ?p1)"
    using gen by (auto simp: current_state_def p1(2) get_or_compute_state_def)
  from chain1 obtain l2 s2 where l2: "pd_last_block ?env ?p1 = Return (Inr l2 :: (nat, unit, unit, unit, unit) provider_error + _,
      ?p1\<lparr>pd_blockchain := (pd_blockchain ?p1)\<lparr>lc_storage := s2\<rparr>\<rparr>)"
    by (rule pd_last_block_ok)
  let ?q = "?p1\<lparr>pd_blockchain := (pd_blockchain ?p1)\<lparr>lc_storage := s2\<rparr>\<rparr>"
  note r2 = only_reads_last_block(1) [OF chain1 l2]
  note q = only_readsD [OF r2, unfolded p1] and chain2 = only_reads_ok [OF r2 chain1]
  have c2: "chain_block (pe_header_env ?env) (lc_storage (pd_blockchain ?q)) (pd_last_block_number ?q) = Some l2"
    using only_reads_last_block(2) [OF chain1 l2] by (simp only: only_readsD(1,2) [OF r2]) auto
  let ?o = "complete_options ?p1 ((sample_options timestamp)\<lparr>ho_timestamp := Some t\<rparr>)"
  have o: "ho_gas_limit ?o = Some 60000" "ho_base_fee ?o = Some 100" "\<exists>v. ho_mix_hash ?o = Some v" "ho_number ?o = None"
    using gen(2) p1(3,4) set(1)
    by (simp_all add: complete_options_def sample_options_def no_overrides_def pd_evm_spec_id_def spec_le_simps mem_pool_new_def Let_def)
  obtain built where m: "mine_block (pe_builder ?env) (pe_flush_inspector_data ?env) 0 (Inr l2) Shanghai
      (sample_config Shanghai) st (mem_pool_new (Some 60000) None) False ?o (pd_min_gas_price p) (pd_mining_order p) (Some ()) =
      Some (Return (Inr (built, []) :: (local_blockchain_error, nat, unit, unit, unit) mine_block_error + _))"
    and e: "lb_transactions (bt_block built) = []" "lb_transaction_receipts (bt_block built) = []"
    using sample_mine_empty [OF o(1,2) _ o(4)] o(3) by blast
  have pool: "pool_inv (mem_pool_new (Some 60000) None)" by (rule pool_inv_new)
  have config: "bc_hardfork (sample_config Shanghai :: nat block_config) = Shanghai" by (simp add: sample_config_def)
  note valid = mined_block_valid [OF pool config o(4) m]
  from insert_empty_mined [OF chain2 c2 _ valid(2) e, of "bt_state_diff built"] valid(1) q(2,3) gen(1,2)
  obtain td lc where ins: "lc_insert_block (pe_header_env ?env) (pd_blockchain ?q) (bt_block built) (bt_state_diff built) =
      Return (Inr (bt_block built, td), lc)" by auto
  obtain pool' where "mem_pool_update (pd_mem_pool ?q) (basic_of (bt_state built)) = (Inr () :: unit state_error + unit, pool')"
    by (rule mem_pool_update_basic_of)
  with ins obtain result p' where commit: "commit_mined_block ?env sample_clock o1 built [] ?q =
      Return (Inr result :: (nat, unit, unit, unit, unit) provider_error + (unit, unit) mine_block_result, p')"
    by (simp add: commit_mined_block_def lift_blockchain_def case_prod_unfold Let_def)
  have "mine_block_with_mem_pool ?env ?p1 (create_evm_config ?p1 (pd_chain_id ?p1)) ?o =
      Some (Return (Inr (built, []) :: (nat, unit, unit, unit, unit) provider_error + _, ?q))"
    using st l2 m set gen(2) q(3)
    by (auto simp: mine_block_with_mem_pool_def create_evm_config_def pd_last_block_def lift_blockchain_Inr mem_pool_new_def
        sample_provider_env_def Let_def)
  then have "pd_mine_block ?env (mine_block_with_mem_pool ?env) ?p1 ((sample_options timestamp)\<lparr>ho_timestamp := Some t\<rparr>) =
      Some (Return (Inr (built, []) :: (nat, unit, unit, unit, unit) provider_error + _, ?q))"
    by (simp add: pd_mine_block_def) (simp add: sample_provider_env_def)
  with t commit show ?thesis
    by (simp add: mine_and_commit_block_def mine_and_commit_block_impl_def sample_options_def)
qed

lemma sample_cache_returns: "cache_returns_pushed sample_provider_env"
  by (simp add: cache_returns_pushed_def sample_provider_env_def)

theorem provider_mines_block_witness:
  "\<exists>p result p'. new_sample_provider = Return (Inr p)
     \<and> mine_and_commit_block sample_provider_env sample_clock p (sample_options None) =
         Some (Return (Inr result :: (nat, unit, unit, unit, unit) provider_error + (unit, unit) mine_block_result, p'))
     \<and> pd_last_block_number p' = 1
     \<and> chain_block (pe_header_env sample_provider_env) (lc_storage (pd_blockchain p')) 1 = Some (mr_block result)"
proof -
  obtain p where p: "new_sample_provider = Return (Inr p)" and r: "sample_ready p" by (rule sample_provider_ready)
  from r obtain result p' where m: "mine_and_commit_block sample_provider_env sample_clock p (sample_options None) =
      Some (Return (Inr result :: (nat, unit, unit, unit, unit) provider_error + (unit, unit) mine_block_result, p'))"
    using sample_provider_mines [of p None] by auto
  from r have ok: "provider_ok p" "provider_chain_ok sample_provider_env p" by (simp_all add: sample_ready_def)
  from provider_mines_block [OF ok sample_cache_returns _ _ _ m] p m r show ?thesis
    by (auto simp: sample_ready_def sample_config_def sample_options_def no_overrides_def)
qed

end
