(* ===== verification/Provider_Events.thy ===== *)
theory Provider_Events
  imports Provider_Chain
begin

text \<open>
  The events of a mined block. A log filter is skipped when the bloom filter of the block's header
  excludes its criteria; no log is lost by that, because the header's bloom filter is the union of
  those of the receipts.
\<close>

section \<open>The bloom filter of a mined block\<close>

lemma builds_receipt_blooms:
  assumes "builds env b txs b'"
    and "\<forall>r \<in> set (bu_receipts b). rc_bloom (snd (tr_inner r)) = logs_to_bloom (bb_accrue env) (receipt_logs r)"
  shows "\<forall>r \<in> set (bu_receipts b'). rc_bloom (snd (tr_inner r)) = logs_to_bloom (bb_accrue env) (receipt_logs r)"
  using assms
proof (induction rule: builds.induct)
  case (add b tx result diff txs b')
  show ?case
    by (rule add.IH)
      (use add.prems in \<open>auto simp: add_transaction_result_def transaction_receipt_new_def build_receipt_def receipt_logs_def Let_def\<close>)
qed simp

lemma block_builder_new_receipts:
  "block_builder_new env last_block hardfork config state disable inputs overrides = Return (Inr b) \<Longrightarrow> bu_receipts b = []"
  by (cases last_block) (auto simp: block_builder_new_def Let_def split: if_splits)

lemma zip_receipt_logs:
  assumes "length rs = length txs"
  shows "concat (map transaction_logs (map (\<lambda>(r, tx). l1_block_receipt_new r spec h n) (zip rs txs))) = block_logs rs"
  using assms
  by (induction rs txs rule: list_induct2)
    (simp_all add: block_logs_def transaction_logs_def l1_block_receipt_new_def receipt_logs_def)

lemma mined_block_covers_logs:
  fixes built :: "'w built_block"
  assumes "bloom_laws (bb_accrue env) contains" and "pool_inv pool"
    and "mine_block env flush ltb last_block hardfork config state pool disable overrides min_gas_price ord inspector
      = Some (Return (Inr (built, data)))"
  shows "covers_logs contains (bh_logs_bloom (lb_header (bt_block built)))
    (map fl_log (concat (map transaction_logs (lb_transaction_receipts (bt_block built)))))"
proof -
  from assms(2,3) obtain b txs b' where
    new: "block_builder_new env last_block hardfork config state disable (block_inputs_empty hardfork) overrides = Return (Inr b)"
    and txs: "builds env b txs b'" "taken_from (pool_iter pool) txs" "\<forall>tx \<in> set txs. min_gas_price \<le> tx_gas_price tx"
    and fin: "finished_block env b' built" by (rule mine_block_parts)
  have len: "length (bu_receipts b') = length (bu_transactions b')"
    using builds_receipts_ok [OF txs(1)] block_builder_new_fields(8) [OF new] by (simp add: receipts_ok_def)
  have receipts: "lb_transaction_receipts (bt_block built) =
      map (\<lambda>(receipt, tx). l1_block_receipt_new receipt (into_evm_spec (bu_hardfork b')) (lb_hash (bt_block built)) (block_number (bt_block built)))
        (zip (map_transaction_receipt_logs (lb_hash (bt_block built)) (block_number (bt_block built)) 0 0 (bu_receipts b')) (bu_transactions b'))"
    using fin unfolding finished_block_def Let_def by blast
  have logs: "map fl_log (concat (map transaction_logs (lb_transaction_receipts (bt_block built)))) = block_logs (bu_receipts b')"
    using zip_receipt_logs [where rs = "map_transaction_receipt_logs (lb_hash (bt_block built)) (block_number (bt_block built)) 0 0
        (bu_receipts b')" and txs = "bu_transactions b'"] len
    unfolding receipts by (simp only: length_map_transaction_receipt_logs map_transaction_receipt_logs_spec)
  have "\<forall>r \<in> set (bu_receipts b'). covers_logs contains (rc_bloom (snd (tr_inner r))) (receipt_logs r)"
    using builds_receipt_blooms [OF txs(1)] block_builder_new_receipts [OF new] logs_to_bloom_covers [OF assms(1)] by simp
  from or_blooms_covers [OF assms(1) this, of 0] fin show ?thesis unfolding logs by (simp add: finished_block_def Let_def)
qed

section \<open>The filters\<close>

lemma notify_filters_Cons:
  "notify_filters notify (x # fs) =
     (fst (notify (fst x) (snd x)) @ fst (notify_filters notify fs),
      (fst x, snd (notify (fst x) (snd x))) # snd (notify_filters notify fs))"
  by (cases x) (simp add: case_prod_unfold Let_def)

lemma notify_filters_map_of:
  "map_of (snd (notify_filters notify fs)) i = map_option (\<lambda>f. snd (notify i f)) (map_of fs i)"
  by (induction fs) (auto simp: notify_filters_Cons simp del: notify_filters.simps(2))

lemma notify_filters_events:
  "map_of fs i = Some f \<Longrightarrow> set (fst (notify i f)) \<subseteq> set (fst (notify_filters notify fs))"
  by (induction fs) (auto simp: notify_filters_Cons simp del: notify_filters.simps(2) map_of_eq_Some_iff split: if_splits)

lemma map_of_filter_value:
  assumes "distinct (map fst m)" and "map_of m k = Some v" and "P v"
  shows "map_of (filter (\<lambda>x. P (snd x)) m) k = Some v"
  using assms by (auto simp: distinct_map_filter)

lemma notify_mined_deadline: "has_expired now (snd (notify_mined contains block td i f)) = has_expired now f"
  by (simp add: notify_mined_def has_expired_def Let_def split: filter_data.split)

lemma notified_filter:
  assumes "distinct (map fst fs)" and "map_of fs i = Some f" and "\<not> has_expired now f"
  shows "map_of (snd (notify_subscribers_about_mined_block contains now fs block td)) i =
      Some (snd (notify_mined contains block td i f))"
    and "set (fst (notify_mined contains block td i f)) \<subseteq>
      set (fst (notify_subscribers_about_mined_block contains now fs block td))"
proof -
  let ?notify = "notify_mined contains block td"
  have "map_of (filter (\<lambda>x. \<not> has_expired now (snd x)) (snd (notify_filters ?notify fs))) i = Some (snd (?notify i f))"
    by (rule map_of_filter_value [where P = "\<lambda>f. \<not> has_expired now f"])
      (use assms in \<open>simp_all add: notify_filters_keys notify_filters_map_of notify_mined_deadline\<close>)
  then show "map_of (snd (notify_subscribers_about_mined_block contains now fs block td)) i = Some (snd (?notify i f))"
    by (simp add: notify_subscribers_about_mined_block_def case_prod_unfold Let_def)
  show "set (fst (?notify i f)) \<subseteq> set (fst (notify_subscribers_about_mined_block contains now fs block td))"
    using notify_filters_events [OF assms(2), of ?notify]
    by (simp add: notify_subscribers_about_mined_block_def case_prod_unfold Let_def)
qed

lemma lc_insert_block_same:
  assumes "lc_insert_block env lc b diff = Return (Inr (b', td), lc')"
  shows "b' = b"
proof -
  from assms obtain r lc1 where last: "last_local_block env lc = Return (r, lc1)" by (auto simp: lc_insert_block_def)
  with assms obtain l where l: "r = Inr l" by (cases r) (auto simp: lc_insert_block_def)
  have v: "validate_next_block (lc_hardfork lc1) l b = Inr ()"
    using assms last l by (cases "validate_next_block (lc_hardfork lc1) l b") (auto simp: lc_insert_block_def)
  then obtain td' where "lc_total_difficulty_by_hash lc1 (lb_hash l) = Some td'"
    using assms last l by (cases "lc_total_difficulty_by_hash lc1 (lb_hash l)") (auto simp: lc_insert_block_def)
  with assms last l v have "fst (insert_block_and_receipts (lc_storage lc1) b diff (td' + bh_difficulty (lb_header b))) = Inr b'"
    by (cases "fst (insert_block_and_receipts (lc_storage lc1) b diff (td' + bh_difficulty (lb_header b)))")
      (auto simp: lc_insert_block_def case_prod_unfold Let_def)
  then show ?thesis
    by (auto simp: insert_block_and_receipts_def sparse_insert_block_def case_prod_unfold map_sum_Inr Let_def
        split: sum.split_asm option.split_asm if_splits)
qed

text \<open>The logs of a block.\<close>

abbreviation logs_of_block :: "'w local_block \<Rightarrow> filter_log list" where
  "logs_of_block block \<equiv> concat (map transaction_logs (lb_transaction_receipts block))"

text \<open>C9. When a block is mined, every log filter that has not expired gets exactly the logs of the
  block that match its criteria, in their order: a filter collects them after those it already
  has, and a subscription is called with them if there are any. The test of the header's bloom filter,
  which skips filters, loses no log.\<close>

theorem mined_logs_delivered:
  fixes env :: "('w, 'bp, 'bx, 'v, 'x, 'i, 'ie, 'o, 'g, 'c) provider_env"
  assumes "provider_ok p" and "provider_chain_ok env p"
    and "bloom_laws (bb_accrue (pe_builder env)) (pe_bloom_contains env)"
    and "mine_and_commit_block env clock p options =
      Some (Return (Inr result :: ('v, 'x, 'r, 'ie, 'g) provider_error + ('w, 'o) mine_block_result, p'))"
    and "map_of (pd_filters p) i = Some f" and "\<not> has_expired (ck_now clock) f" and "ef_data f = FilterLogs criteria logs"
  shows "if ef_is_subscription f
    then map_of (pd_filters p') i = Some f
      \<and> (filter_logs (logs_of_block (mr_block result)) criteria \<noteq> [] \<longrightarrow>
          \<lparr>se_filter_id = i, se_result = SubscriptionLogs (filter_logs (logs_of_block (mr_block result)) criteria)\<rparr>
            \<in> set (drop (length (pd_subscriber_events p)) (pd_subscriber_events p')))
    else map_of (pd_filters p') i =
      Some (f\<lparr>ef_data := FilterLogs criteria (logs @ filter_logs (logs_of_block (mr_block result)) criteria)\<rparr>)"
proof -
  from assms(2,4) obtain t off p1 st p2 l q built data where "only_reads env p p1" and q: "only_reads env p q"
    and mine: "mine_block (pe_builder env) (pe_flush_inspector_data env) (pe_less_than_basefee env) (Inr l) (pd_hardfork q)
      (pd_block_config q) st (pd_mem_pool q) (mp_block_gas_limit (pd_mem_pool q) = None)
      (complete_options p1 (options\<lparr>ho_timestamp := Some t\<rparr>)) (pd_min_gas_price q) (pd_mining_order q)
      (Some (pe_observer env)) = Some (Return (Inr (built, data) :: (local_blockchain_error, 'v, 'x, 'r, 'ie) mine_block_error + _))"
    and commit: "commit_mined_block env clock off built data q = Return (Inr result :: ('v, 'x, 'r, 'ie, 'g) provider_error + _, p')"
    by (rule mine_and_commit_block_cases)
  note same = only_readsD [OF q]
  have pool: "pool_inv (pd_mem_pool q)" and keys: "distinct (map fst (pd_filters p))"
    using provider_okD(1,4) [OF assms(1)] by (simp_all add: same filters_ok_def)
  let ?b = "bt_block built" and ?n = "notify_mined (pe_bloom_contains env) (bt_block built)"
  let ?logs = "filter_logs (logs_of_block ?b) criteria"
  from commit obtain block td where
    b: "mr_block result = block" and ins: "\<exists>lc. lc_insert_block (pe_header_env env) (pd_blockchain q) ?b (bt_state_diff built) =
      Return (Inr (block, td), lc)"
    and p': "pd_filters p' = snd (notify_subscribers_about_mined_block (pe_bloom_contains env) (ck_now clock) (pd_filters p) block td)"
      "pd_subscriber_events p' = pd_subscriber_events p @
        fst (notify_subscribers_about_mined_block (pe_bloom_contains env) (ck_now clock) (pd_filters p) block td)"
    unfolding same(6,15) [symmetric] by (rule commit_mined_block_cases) blast
  from ins have block: "block = ?b" by (auto dest: lc_insert_block_same)
  note got = notified_filter [OF keys assms(5,6), of "pe_bloom_contains env" ?b td]
  have bloom: "?logs = [] \<or> bloom_contains_log_filter (pe_bloom_contains env) (bh_logs_bloom (lb_header ?b)) criteria"
    using bloom_skip_exact [OF mined_block_covers_logs [OF assms(3) pool mine], of criteria] by (simp split: if_splits)
  have "?n td i f =
      (if bloom_contains_log_filter (pe_bloom_contains env) (bh_logs_bloom (lb_header ?b)) criteria
       then if ef_is_subscription f then ([\<lparr>se_filter_id = i, se_result = SubscriptionLogs ?logs\<rparr>], f)
         else ([], f\<lparr>ef_data := FilterLogs criteria (logs @ ?logs)\<rparr>)
       else ([], f))" by (simp add: notify_mined_def assms(7))
  moreover have "f\<lparr>ef_data := FilterLogs criteria logs\<rparr> = f" using assms(7) by simp
  ultimately show ?thesis using got bloom unfolding b block p' by auto
qed

text \<open>The sample provider with a filter for the logs of all addresses.\<close>

definition sample_log_filter :: log_filter where
  "sample_log_filter = \<lparr>lf_from_block = 0, lf_to_block = None, lf_addresses = [], lf_normalized_topics = []\<rparr>"

theorem mined_logs_delivered_witness:
  "\<exists>p p1 result p'. new_sample_provider = Return (Inr p)
     \<and> insert_filter p (new_log_filter (ck_now sample_clock) sample_log_filter [] False) = Return (1, p1)
     \<and> mine_and_commit_block sample_provider_env sample_clock p1 (sample_options None) =
         Some (Return (Inr result :: (nat, unit, unit, unit, unit) provider_error + (unit, unit) mine_block_result, p'))
     \<and> map_option ef_data (map_of (pd_filters p') 1) =
         Some (FilterLogs sample_log_filter (filter_logs (logs_of_block (mr_block result)) sample_log_filter))"
proof -
  obtain p where p: "new_sample_provider = Return (Inr p)" and r: "sample_ready p" and f: "pd_filters p = []" "pd_last_filter_id p = 0"
    by (rule sample_provider_ready)
  let ?f = "new_log_filter (ck_now sample_clock) sample_log_filter [] False"
  let ?p = "p\<lparr>pd_last_filter_id := 1, pd_filters := [(1, ?f)]\<rparr>"
  have ins: "insert_filter p ?f = Return (1, ?p)" by (simp add: insert_filter_def next_filter_id_def f)
  have r': "sample_ready ?p"
    using r by (simp add: sample_ready_def provider_ok_def pool_inv_new filters_ok_def provider_chain_ok_def pd_last_block_number_def pd_hardfork_def)
  then obtain result p' where m: "mine_and_commit_block sample_provider_env sample_clock ?p (sample_options None) =
      Some (Return (Inr result :: (nat, unit, unit, unit, unit) provider_error + (unit, unit) mine_block_result, p'))"
    using sample_provider_mines [of ?p None] by auto
  from r' have ok: "provider_ok ?p" "provider_chain_ok sample_provider_env ?p" by (simp_all add: sample_ready_def)
  have laws: "bloom_laws (bb_accrue (pe_builder sample_provider_env)) (pe_bloom_contains sample_provider_env)"
    by (simp add: bloom_laws_def sample_provider_env_def bit_or_iff)
  have "map_of (pd_filters p') 1 = Some (?f\<lparr>ef_data := FilterLogs sample_log_filter ([] @ filter_logs (logs_of_block (mr_block result)) sample_log_filter)\<rparr>)"
    using mined_logs_delivered [OF ok laws m, of 1 ?f sample_log_filter "[]"]
    by (simp add: new_log_filter_def new_filter_def has_expired_def new_filter_deadline_def)
  with p ins m show ?thesis by auto
qed

end
