(* ===== verification/Provider_Time.thy ===== *)
theory Provider_Time
  imports Provider_Events
begin

text \<open>
  The timestamps of the blocks that a provider mines.
\<close>

section \<open>Timestamps\<close>

lemma next_block_timestamp_explicit:
  fixes env :: "('w, 'bp, 'bx, 'v, 'x, 'i, 'ie, 'o, 'g, 'c) provider_env"
  assumes "provider_chain_ok env p"
    and "next_block_timestamp env clock p (Some ts) = Return (Inr (t, off) :: ('v, 'x, 'r, 'ie, 'g) provider_error + _, p1)"
    and "chain_block (pe_header_env env) (lc_storage (pd_blockchain p)) (pd_last_block_number p) = Some l"
  shows "bh_timestamp (lb_header l) \<le> ts" and "unat ts < 2 ^ 63" and "unat (ck_since_epoch clock) < 2 ^ 63"
    and "t = (if ts = bh_timestamp (lb_header l) \<and> \<not> pd_allow_blocks_with_same_timestamp p then ts + 1 else ts)"
    and "off = Some (ts - ck_since_epoch clock)"
proof -
  from assms(2) obtain l' q where l': "pd_last_block env p = Return (Inr l' :: ('v, 'x, 'r, 'ie, 'g) provider_error + _, q)"
    by (auto simp: next_block_timestamp_def and_then_Inr)
  with only_reads_last_block(2) [OF assms(1) l'] assms(3) have "l' = l" by simp
  note same = only_readsD [OF only_reads_last_block(1) [OF assms(1) l']]
  show "bh_timestamp (lb_header l) \<le> ts" and "unat ts < 2 ^ 63" and "unat (ck_since_epoch clock) < 2 ^ 63"
    and "t = (if ts = bh_timestamp (lb_header l) \<and> \<not> pd_allow_blocks_with_same_timestamp p then ts + 1 else ts)"
    and "off = Some (ts - ck_since_epoch clock)"
    using assms(2) l' \<open>l' = l\<close>
    by (auto simp: next_block_timestamp_def expect_nonneg_def checked_sub_def same Let_def split: if_splits)
qed

lemma partial_header_new_timestamp:
  "partial_header_new env config ov parent ommers ws = Return h \<Longrightarrow> ho_timestamp ov = Some t \<Longrightarrow> ph_timestamp h = t"
  by (auto simp: partial_header_new_def unwrap_or_def Let_def)

lemma mined_timestamp:
  assumes "pool_inv pool" and "ho_timestamp overrides = Some t" and "t \<noteq> 0"
    and "mine_block env flush ltb (Inr parent) hardfork config state pool disable overrides min_gas_price ord inspector
      = Some (Return (Inr (built, data)))"
  shows "bh_timestamp (lb_header (bt_block built)) = t"
proof -
  from assms(1,4) obtain b txs b' where
    new: "block_builder_new env (Inr parent) hardfork config state disable (block_inputs_empty hardfork) overrides = Return (Inr b)"
    and txs: "builds env b txs b'" "taken_from (pool_iter pool) txs" "\<forall>tx \<in> set txs. min_gas_price \<le> tx_gas_price tx"
    and fin: "finished_block env b' built" by (rule mine_block_parts)
  from block_builder_new_fields(1) [OF new] assms(2) have "ph_timestamp (bu_header b) = t"
    by (auto dest: partial_header_new_timestamp)
  then show ?thesis
    using header_frame_eqD(7) [OF builds_frame(1) [OF txs(1)]] fin assms(3) by (simp add: finished_block_def Let_def)
qed

lemma word_less_inc: "unat (x :: u64) < 2 ^ 63 \<Longrightarrow> x < x + 1"
  by (simp add: word_less_nat_alt unat_word_ariths)

lemma explicit_timestamp_mined:
  fixes env :: "('w, 'bp, 'bx, 'v, 'x, 'i, 'ie, 'o, 'g, 'c) provider_env"
  assumes "provider_ok p" and "provider_chain_ok env p" and "ho_timestamp options = Some ts"
    and "\<not> pd_allow_blocks_with_same_timestamp p"
    and "chain_block (pe_header_env env) (lc_storage (pd_blockchain p)) (pd_last_block_number p) = Some l"
    and "mine_and_commit_block env clock p options =
      Some (Return (Inr result :: ('v, 'x, 'r, 'ie, 'g) provider_error + ('w, 'o) mine_block_result, p'))"
  shows "bh_timestamp (lb_header l) \<le> ts" and "unat ts < 2 ^ 63" and "unat (ck_since_epoch clock) < 2 ^ 63"
    and "bh_timestamp (lb_header (mr_block result)) = (if ts = bh_timestamp (lb_header l) then ts + 1 else ts)"
    and "pd_block_time_offset_seconds p' = ts - ck_since_epoch clock" and "pd_next_block_timestamp p' = None"
    and "\<not> pd_allow_blocks_with_same_timestamp p'"
proof -
  from assms(2,6) obtain t off p1 st p2 l' q built data where
    t: "next_block_timestamp env clock p (ho_timestamp options) = Return (Inr (t, off) :: ('v, 'x, 'r, 'ie, 'g) provider_error + _, p1)"
    and "only_reads env p p1" and q: "only_reads env p q"
    and mine: "mine_block (pe_builder env) (pe_flush_inspector_data env) (pe_less_than_basefee env) (Inr l') (pd_hardfork q)
      (pd_block_config q) st (pd_mem_pool q) (mp_block_gas_limit (pd_mem_pool q) = None)
      (complete_options p1 (options\<lparr>ho_timestamp := Some t\<rparr>)) (pd_min_gas_price q) (pd_mining_order q)
      (Some (pe_observer env)) = Some (Return (Inr (built, data) :: (local_blockchain_error, 'v, 'x, 'r, 'ie) mine_block_error + _))"
    and commit: "commit_mined_block env clock off built data q = Return (Inr result :: ('v, 'x, 'r, 'ie, 'g) provider_error + _, p')"
    by (rule mine_and_commit_block_cases)
  note ts = next_block_timestamp_explicit [OF assms(2) t [unfolded assms(3)] assms(5)]
  show "bh_timestamp (lb_header l) \<le> ts" "unat ts < 2 ^ 63" "unat (ck_since_epoch clock) < 2 ^ 63" by (fact ts)+
  have "t \<noteq> 0"
  proof (cases "ts = bh_timestamp (lb_header l)")
    case True
    then show ?thesis using ts(4) word_less_inc [OF ts(2)] assms(4) by auto
  next
    case False
    then show ?thesis using ts(1,4) by (auto simp: word_le_0_iff)
  qed
  moreover have "pool_inv (pd_mem_pool q)" using provider_okD(1) [OF assms(1)] by (simp add: only_readsD [OF q])
  moreover have "ho_timestamp (complete_options p1 (options\<lparr>ho_timestamp := Some t\<rparr>)) = Some t"
    by (simp add: complete_options_def Let_def)
  ultimately have "bh_timestamp (lb_header (bt_block built)) = t" using mine by (intro mined_timestamp)
  then show "bh_timestamp (lb_header (mr_block result)) = (if ts = bh_timestamp (lb_header l) then ts + 1 else ts)"
    "pd_block_time_offset_seconds p' = ts - ck_since_epoch clock" "pd_next_block_timestamp p' = None"
    "\<not> pd_allow_blocks_with_same_timestamp p'"
    using commit ts(4,5) assms(4)
    by (auto elim!: commit_mined_block_cases dest!: lc_insert_block_same simp: only_readsD [OF q] unwrap_or_def)
qed

text \<open>C23. A block that is mined with a given timestamp is later than its parent: the timestamp is refused
  if it is before the parent's, and raised by one if it is the parent's, unless blocks with
  the same timestamp are allowed.\<close>

theorem mined_timestamp_advances:
  fixes env :: "('w, 'bp, 'bx, 'v, 'x, 'i, 'ie, 'o, 'g, 'c) provider_env"
  assumes "provider_ok p" and "provider_chain_ok env p" and "ho_timestamp options = Some ts"
    and "\<not> pd_allow_blocks_with_same_timestamp p"
    and "chain_block (pe_header_env env) (lc_storage (pd_blockchain p)) (pd_last_block_number p) = Some l"
    and "mine_and_commit_block env clock p options =
      Some (Return (Inr result :: ('v, 'x, 'r, 'ie, 'g) provider_error + ('w, 'o) mine_block_result, p'))"
  shows "bh_timestamp (lb_header l) < bh_timestamp (lb_header (mr_block result))
    \<and> bh_timestamp (lb_header (mr_block result)) = (if ts = bh_timestamp (lb_header l) then ts + 1 else ts)"
  using explicit_timestamp_mined(1,2,4) [OF assms] word_less_inc [of ts] by auto

lemma sample_genesis:
  assumes "sample_ready p"
  obtains l where "chain_block (pe_header_env sample_provider_env) (lc_storage (pd_blockchain p)) (pd_last_block_number p) = Some l"
    and "bh_timestamp (lb_header l) = 1000"
  using assms by (auto simp: sample_ready_def sample_provider_env_def)

theorem mined_timestamp_advances_witness:
  "\<exists>p result p'. new_sample_provider = Return (Inr p)
     \<and> mine_and_commit_block sample_provider_env sample_clock p (sample_options (Some 2000)) =
         Some (Return (Inr result :: (nat, unit, unit, unit, unit) provider_error + (unit, unit) mine_block_result, p'))
     \<and> bh_timestamp (lb_header (mr_block result)) = 2000"
proof -
  obtain p where p: "new_sample_provider = Return (Inr p)" and r: "sample_ready p" by (rule sample_provider_ready)
  obtain l where l: "chain_block (pe_header_env sample_provider_env) (lc_storage (pd_blockchain p)) (pd_last_block_number p) = Some l"
    and t: "bh_timestamp (lb_header l) = 1000" using r by (rule sample_genesis)
  from r obtain result p' where m: "mine_and_commit_block sample_provider_env sample_clock p (sample_options (Some 2000)) =
      Some (Return (Inr result :: (nat, unit, unit, unit, unit) provider_error + (unit, unit) mine_block_result, p'))"
    using sample_provider_mines [of p "Some 2000"] by auto
  from r have ok: "provider_ok p" "provider_chain_ok sample_provider_env p" "\<not> pd_allow_blocks_with_same_timestamp p"
    by (simp_all add: sample_ready_def)
  have "ho_timestamp (sample_options (Some 2000)) = Some 2000" by (simp add: sample_options_def)
  from mined_timestamp_advances [OF ok(1,2) this ok(3) l m] p m t show ?thesis by auto
qed

text \<open>C35. A block is asked for with the timestamp of the last block. Its timestamp is raised by one, but the
  clock is not: with the same time of the system, the timestamp that the provider chooses
  for the next block is before that of its parent.\<close>

theorem raised_timestamp_sets_clock_back:
  fixes env :: "('w, 'bp, 'bx, 'v, 'x, 'i, 'ie, 'o, 'g, 'c) provider_env"
  assumes "provider_ok p" and "provider_chain_ok env p" and "cache_returns_pushed env"
    and "bc_hardfork (pd_block_config p) = pd_hardfork p" and "ho_number options = None"
    and "unat (pd_last_block_number p) + 2 < 2 ^ 64"
    and "chain_block (pe_header_env env) (lc_storage (pd_blockchain p)) (pd_last_block_number p) = Some l"
    and "ho_timestamp options = Some (bh_timestamp (lb_header l))" and "\<not> pd_allow_blocks_with_same_timestamp p"
    and "mine_and_commit_block env clock p options =
      Some (Return (Inr result :: ('v, 'x, 'r, 'ie, 'g) provider_error + ('w, 'o) mine_block_result, p'))"
  shows "\<exists>p''. next_block_timestamp env clock p' None =
      Return (Inr (bh_timestamp (lb_header l), None) :: ('v, 'x, 'r, 'ie, 'g) provider_error + _, p'')
    \<and> bh_timestamp (lb_header l) < bh_timestamp (lb_header (mr_block result))
    \<and> chain_block (pe_header_env env) (lc_storage (pd_blockchain p')) (pd_last_block_number p') = Some (mr_block result)"
proof -
  note ts = explicit_timestamp_mined [OF assms(1,2,8,9,7,10), simplified]
  from mined_block_committed [OF assms(1-6,10)] have chain: "provider_chain_ok env p'"
    and b: "chain_block (pe_header_env env) (lc_storage (pd_blockchain p')) (pd_last_block_number p') = Some (mr_block result)" by auto
  from chain obtain b s' where l': "pd_last_block env p' = Return (Inr b :: ('v, 'x, 'r, 'ie, 'g) provider_error + _,
      p'\<lparr>pd_blockchain := (pd_blockchain p')\<lparr>lc_storage := s'\<rparr>\<rparr>)"
    and "chain_block (pe_header_env env) (lc_storage (pd_blockchain p')) (pd_last_block_number p') = Some b" by (rule pd_last_block_ok)
  with b have "b = mr_block result" by simp
  moreover have "bh_timestamp (lb_header l) < bh_timestamp (lb_header l) + 1" using ts(2) word_less_inc [of "bh_timestamp (lb_header l)"] by simp
  ultimately show ?thesis using ts l' b by (simp add: next_block_timestamp_def expect_nonneg_def Let_def)
qed

theorem raised_timestamp_sets_clock_back_witness:
  "\<exists>p result p' p''. new_sample_provider = Return (Inr p)
     \<and> mine_and_commit_block sample_provider_env sample_clock p (sample_options (Some 1000)) =
         Some (Return (Inr result :: (nat, unit, unit, unit, unit) provider_error + (unit, unit) mine_block_result, p'))
     \<and> next_block_timestamp sample_provider_env sample_clock p' None =
         Return (Inr (1000, None) :: (nat, unit, unit, unit, unit) provider_error + _, p'')
     \<and> 1000 < bh_timestamp (lb_header (mr_block result))"
proof -
  obtain p where p: "new_sample_provider = Return (Inr p)" and r: "sample_ready p" by (rule sample_provider_ready)
  obtain l where l: "chain_block (pe_header_env sample_provider_env) (lc_storage (pd_blockchain p)) (pd_last_block_number p) = Some l"
    and t: "bh_timestamp (lb_header l) = 1000" using r by (rule sample_genesis)
  from r obtain result p' where m: "mine_and_commit_block sample_provider_env sample_clock p (sample_options (Some 1000)) =
      Some (Return (Inr result :: (nat, unit, unit, unit, unit) provider_error + (unit, unit) mine_block_result, p'))"
    using sample_provider_mines [of p "Some 1000"] by auto
  from r have ok: "provider_ok p" "provider_chain_ok sample_provider_env p" "\<not> pd_allow_blocks_with_same_timestamp p"
    "bc_hardfork (pd_block_config p) = pd_hardfork p" "unat (pd_last_block_number p) + 2 < 2 ^ 64"
    by (simp_all add: sample_ready_def sample_config_def)
  have "ho_timestamp (sample_options (Some 1000)) = Some (bh_timestamp (lb_header l))"
    "ho_number (sample_options (Some 1000)) = None" by (simp_all add: sample_options_def no_overrides_def t)
  from raised_timestamp_sets_clock_back [OF ok(1,2) sample_cache_returns ok(4) this(2) ok(5) l this(1) ok(3) m] p m t
  show ?thesis by auto
qed

end
