(* ===== verification/Provider_Returns.thy ===== *)
theory Provider_Returns
  imports Provider_Time
begin

text \<open>
  The requests that return: a well-formed provider ends every request, with a response, an error or
  a panic, apart from transactions that are mined at once, which are mined in a loop until they are in a block.
\<close>

definition ends :: "(('e + 'a) \<times> ('w, 'bp, 'c) provider_data) outcome option \<Rightarrow> bool" where
  "ends m \<longleftrightarrow> m \<noteq> None \<and> keeps provider_ok m"

named_theorems ends_rules \<open>rules for operations that end\<close>

lemma ends_Some [ends_rules]: "keeps provider_ok (Some m) \<Longrightarrow> ends (Some m)"
  by (simp add: ends_def)

lemma ends_and_then_run [ends_rules]:
  assumes "ends m" and "\<And>x s. provider_ok s \<Longrightarrow> ends (f x s)"
  shows "ends (and_then_run m f)"
proof -
  have "and_then_run m f \<noteq> None"
    using assms by (auto simp: ends_def and_then_run_def keeps_def split: option.split outcome.split sum.split)
  with assms show ?thesis unfolding ends_def by (blast intro: keeps_rules)
qed

lemma ends_if [ends_rules]: "(b \<Longrightarrow> ends m) \<Longrightarrow> (\<not> b \<Longrightarrow> ends m') \<Longrightarrow> ends (if b then m else m')"
  by auto

lemma ends_respond [ends_rules]: "ends m \<Longrightarrow> ends (respond f m)"
  unfolding respond_def by (auto intro!: ends_rules keeps_rules)

lemma ends_with_block_tag [ends_rules]: "provider_ok p \<Longrightarrow> ends m \<Longrightarrow> ends (with_block_tag p spec m)"
  by (auto simp: with_block_tag_def ends_def intro!: keeps_rules split: sum.split)

lemma mine_block_with_mem_pool_ends [ends_rules]:
  fixes env :: "('w, 'bp, 'bx, 'v, 'x, 'i, 'ie, 'o, 'g, 'c) provider_env"
  assumes "provider_ok p"
  shows "ends (mine_block_with_mem_pool env p config options
    :: ((('v, 'x, 'r, 'ie, 'g) provider_error + _) \<times> _) outcome option)"
proof -
  have total: "mine_block (pe_builder env) (pe_flush_inspector_data env) ltb last_block hardfork c state pool disable o1 price ord i \<noteq>
      (None :: ((local_blockchain_error, 'v, 'x, 'r, 'ie) mine_block_error + _) outcome option)" if "pool_inv pool"
    for ltb last_block hardfork c state pool disable o1 price ord i
  proof -
    have "\<exists>r :: ((local_blockchain_error, 'v, 'x, 'r, 'ie) mine_block_error + _) outcome.
      mine_block (pe_builder env) (pe_flush_inspector_data env) ltb last_block hardfork c state pool disable o1 price ord i = Some r
      \<and> (r = Panic \<longleftrightarrow> block_builder_new (pe_builder env) last_block hardfork c state disable (block_inputs_empty hardfork) o1 = Panic)"
      by (rule mine_block_ends [OF that])
    then show ?thesis by auto
  qed
  show ?thesis
    unfolding mine_block_with_mem_pool_def Let_def
    by (rule ends_and_then_run)
      (auto simp: total provider_okD(1) assms intro!: ends_rules keeps_rules keeps_bind split: outcome.split option.split)
qed

lemma single_transaction_ends [ends_rules]:
  assumes "provider_ok p"
  shows "ends (pd_mine_block_with_single_transaction env tx obs p config options)"
proof -
  have "pd_mine_block_with_single_transaction env tx obs p config options \<noteq> None"
    by (auto simp: pd_mine_block_with_single_transaction_def and_then_run_def Let_def split: outcome.split sum.split)
  with mine_single_transaction_ok [OF assms] show ?thesis unfolding ends_def by blast
qed

lemma mine_and_commit_block_impl_ends [ends_rules]:
  "(\<And>p config options. provider_ok p \<Longrightarrow> ends (mine_fn p config options)) \<Longrightarrow> provider_ok p
    \<Longrightarrow> ends (mine_and_commit_block_impl env clock mine_fn p options)"
  unfolding mine_and_commit_block_impl_def pd_mine_block_def
  by (auto intro!: ends_rules keeps_rules split: option.split sum.split)

lemma mine_and_commit_block_ends [ends_rules]: "provider_ok p \<Longrightarrow> ends (mine_and_commit_block env clock p options)"
  unfolding mine_and_commit_block_def by (auto intro!: ends_rules)


lemma mine_pending_block_ends [ends_rules]: "provider_ok p \<Longrightarrow> ends (mine_pending_block env clock p)"
  unfolding mine_pending_block_def pd_mine_block_def
  by (auto intro!: ends_rules keeps_rules split: option.split sum.split)

lemma mine_block_with_interval_ends [ends_rules]:
  "provider_ok p \<Longrightarrow> ends (mine_block_with_interval env clocks interval mined p)"
  unfolding mine_block_with_interval_def Let_def by (auto intro!: ends_rules keeps_rules)

lemma mine_pending_blocks_ends [ends_rules]:
  "provider_ok p \<Longrightarrow> ends (mine_pending_blocks env clocks interval left mined p)"
  by (induction left arbitrary: mined p) (auto intro!: ends_rules keeps_rules)

lemma mine_remaining_blocks_ends [ends_rules]:
  "provider_ok p \<Longrightarrow> ends (mine_remaining_blocks env clocks interval left mined p)"
  by (induction left arbitrary: mined p) (auto intro!: ends_rules keeps_rules)

lemma reserve_and_mine_ends [ends_rules]:
  "provider_ok p \<Longrightarrow> ends (reserve_and_mine env clocks interval remaining mined p)"
  unfolding reserve_and_mine_def Let_def by (auto intro!: ends_rules keeps_rules)

lemma mine_and_commit_blocks_ends [ends_rules]:
  "provider_ok p \<Longrightarrow> ends (mine_and_commit_blocks env clocks p number interval)"
  unfolding mine_and_commit_blocks_def Let_def by (auto intro!: ends_rules keeps_rules)

lemma execute_in_block_context_ends [ends_rules]:
  "provider_ok p \<Longrightarrow> ends (execute_in_block_context env clock p spec f)"
  unfolding execute_in_block_context_def by (auto intro!: ends_rules keeps_rules split: option.split)

lemma send_transaction_ends [ends_rules]:
  "provider_ok p \<Longrightarrow> is_eip4844 tx \<or> \<not> pd_is_auto_mining p \<Longrightarrow> ends (send_transaction env clocks obs p tx)"
  unfolding send_transaction_def send_blob_transaction_def Let_def
  by (auto intro!: ends_rules keeps_rules notify_pending_transaction_ok)

lemma respond_None [simp]: "respond f m = None \<longleftrightarrow> m = None"
  by (simp add: respond_def and_then_run_def split: option.split outcome.split sum.split)

lemma with_block_tag_not_None: "m \<noteq> None \<Longrightarrow> with_block_tag p spec m \<noteq> None"
  by (simp add: with_block_tag_def split: sum.split)

lemma endsD: "ends m \<Longrightarrow> m \<noteq> None"
  by (simp add: ends_def)

text \<open>C7. A provider that was created and has handled any requests ends every further request with a
  response, an error or a panic, also those that mine any number of blocks. The only exception is a
  transaction that is mined at once, whose loop ends only if the transaction gets into a block.\<close>

theorem every_request_ends:
  fixes env :: "('w, 'bp, 'bx, 'v, 'x, 'i, 'ie, 'o, 'g, 'c) provider_env"
  assumes "provider_reachable env p" and "\<forall>tx. req = SendTransaction tx \<longrightarrow> is_eip4844 tx \<or> \<not> pd_is_auto_mining p"
  shows "\<exists>r :: ((('v, 'x, unit, 'ie, 'g) provider_error + response) \<times> _) outcome. handle_single_request env clocks obs p req = Some r"
proof -
  note ok = provider_reachable_inv [OF assms(1)]
  note mines = mine_and_commit_block_ends [OF ok, THEN endsD] mine_and_commit_blocks_ends [OF ok, THEN endsD]
    execute_in_block_context_ends [OF ok, THEN endsD] send_transaction_ends [OF ok, THEN endsD]
  have "(handle_single_request env clocks obs p req :: ((('v, 'x, unit, 'ie, 'g) provider_error + response) \<times> _) outcome option) \<noteq> None"
    using assms(2)
    by (cases req)
      (simp_all add: mines with_block_tag_not_None get_balance_def get_code_def get_storage_at_def get_transaction_count_def
        handle_mine_request_def handle_mine_def case_prod_unfold Let_def)
  then show ?thesis by auto
qed

theorem every_request_ends_witness:
  "\<exists>p. new_sample_provider = Return (Inr p)
     \<and> (\<exists>r :: (((nat, unit, unit, unit, unit) provider_error + response) \<times> _) outcome.
          handle_single_request sample_provider_env (\<lambda>_. sample_clock) (\<lambda>_. ()) p (Mine (Some 10) None) = Some r)"
proof -
  obtain p where p: "new_sample_provider = Return (Inr p)" using sample_provider_new by blast
  have "\<exists>r :: (((nat, unit, unit, unit, unit) provider_error + response) \<times> _) outcome.
      handle_single_request sample_provider_env (\<lambda>_. sample_clock) (\<lambda>_. ()) p (Mine (Some 10) None) = Some r"
    by (rule every_request_ends [OF provider_reachable.new [OF p]]) simp
  with p show ?thesis by blast
qed

end
