(* ===== verification/Spec2Isabelle.thy ===== *)
theory Spec2Isabelle
  imports Mem_Pool_Ops Mem_Pool_Iter State_Code Contiguous_Storage Miner_Single Gas_Estimation Provider_Returns
begin

text \<open>
  A verification of the core of EDR, the Ethereum development runtime: a node with a chain of its own
  that mines blocks on request. The definitions are translations of the Rust sources under
  \<^verbatim>\<open>src/crates\<close>; the names are those of the sources, with a prefix where several types have a
  function of the same name.

  \<^bold>\<open>The parts and how they interact.\<close> A \<^emph>\<open>provider\<close> receives requests. It keeps
  transactions that wait in the \<^emph>\<open>memory pool\<close>. To mine, it computes the \<^emph>\<open>state\<close> of the last
  block, and gives the pool, the state and overrides of the header to the \<^emph>\<open>miner\<close>. The miner
  feeds the transactions, in the order of their fees or their arrival, to the \<^emph>\<open>block builder\<close>,
  which computes the header, checks each transaction, executes it, and collects receipts
  and state differences. The provider appends the block to the \<^emph>\<open>local blockchain\<close>, which
  checks that it fits on the last block and keeps it with its difference in the
  \<^emph>\<open>reservable storage\<close>. That storage also holds ranges of empty blocks that are only built when
  somebody asks for them. Then the provider updates the pool to the new state and reports
  the block to the \<^emph>\<open>event filters\<close>. Accounts that are changed by a request, not by a transaction,
  are recorded as overrides of a block; snapshots save all of this, and reverting restores it.

  \<^bold>\<open>The theories.\<close>

  \<^item> \<open>Edr_Prelude\<close>: machine integers, panics, errors, comparators, the insertion-ordered
    map of \<^verbatim>\<open>indexmap\<close>, and the lemmas that all components share.

  \<^item> \<open>Transactions\<close>, \<open>Mem_Pool\<close>, \<open>Mem_Pool_Ops\<close>, \<open>Mem_Pool_Iter\<close>: \<^verbatim>\<open>mem_pool/src/lib.rs\<close> and the
    orders of \<^verbatim>\<open>block/miner/src/lib.rs\<close>. The pool is a record with the fields of \<^verbatim>\<open>MemPool\<close>. Its
    invariant \<open>pool_inv\<close> is kept by every operation; each operation is described by what it does to
    the multiset of the pool's transactions, which is the specification of the pool.

  \<^item> \<open>Hardfork\<close>, \<open>Eips\<close>, \<open>Header_Types\<close>, \<open>Block_Header\<close>, \<open>Header_Facts\<close>: \<^verbatim>\<open>block/header\<close>, the
    hard forks, rewards and difficulty of \<^verbatim>\<open>edr_chain_l1\<close>, and \<^verbatim>\<open>eips\<close>. The base fee and the difficulty, which
    the code computes on machine words, are compared with their formulas over the
    natural numbers and the integers.

  \<^item> \<open>Receipts\<close>, \<open>Local_Block\<close>: \<^verbatim>\<open>edr_receipt\<close>, \<^verbatim>\<open>block/local\<close> and \<^verbatim>\<open>block/api\<close>.

  \<^item> \<open>Sparse_Storage\<close>, \<open>Contiguous_Storage\<close>, \<open>Reservable_Storage\<close>, \<open>Reservable_Facts\<close>,
    \<open>Reservable_Chain\<close>, \<open>Reservable_Ops\<close>, \<open>Reservable_Reach\<close>: \<^verbatim>\<open>block/storage\<close>. The specification of the
    reservable storage is a function from numbers to blocks, which building
    reserved blocks does not change; a step relation has the life of a storage, and
    \<open>reservable_history\<close> records the diffs that were inserted and the reserved blocks that were built.

  \<^item> \<open>State_Api\<close>, \<open>State_Diff\<close>, \<open>State_Trie\<close>, \<open>State_Trie_Facts\<close>, \<open>State_Code\<close>, \<open>State_Merge\<close>:
    \<^verbatim>\<open>state/api\<close> and \<^verbatim>\<open>state/persistent_trie\<close>. They show what is read after a commit, the
    invariant that ties the tries together, the reference counts of the code,
    and when the merged difference of a block leads to the state of its transactions: the laws of
    the EVM's journal that this needs are \<open>journal_law\<close>.

  \<^item> \<open>Local_Blockchain\<close>, \<open>Local_Blockchain_Facts\<close>: \<^verbatim>\<open>blockchain/local\<close> and
    \<^verbatim>\<open>blockchain/api/src/utils.rs\<close>. They show which blocks the chain accepts, and from which
    diffs and overrides the state at a block is computed.

  \<^item> \<open>Block_Builder\<close>, \<open>Miner\<close>, \<open>Miner_Facts\<close>, \<open>Mining_Chain\<close>, \<open>Miner_Single\<close>:
    \<^verbatim>\<open>edr_chain_l1/src/block.rs\<close> and \<^verbatim>\<open>block/miner\<close>. Mining ends, keeps to the gas limit, and gives a
    block that the chain accepts unless a transaction of it is known, and whose stored difference leads
    to its state.

  \<^item> \<open>Gas_Estimation\<close>: \<^verbatim>\<open>edr_provider/src/data/gas.rs\<close>. An estimation was seen to be accepted, is
    close to the least limit that is, and is always given when the transaction can be executed with
    every limit above the minimum cost.

  \<^item> \<open>Filters\<close>: the filters and subscriptions of \<^verbatim>\<open>edr_provider\<close> and \<^verbatim>\<open>edr_eth\<close>.

  \<^item> \<open>Provider_Data\<close>, \<open>Provider_Mining\<close>, \<open>Provider_Requests\<close>, \<open>Provider_Create\<close>:
    \<^verbatim>\<open>edr_provider/src/data.rs\<close>, \<^verbatim>\<open>provider.rs\<close> and the handlers under \<^verbatim>\<open>requests\<close>. The record
    \<open>provider_data\<close> has the fields of \<^verbatim>\<open>ProviderData\<close>; an operation returns its result and the
    provider after it.

  \<^item> \<open>Provider_Facts\<close>, \<open>Provider_Reach\<close>: every provider that is created and handles requests is
    well-formed (\<open>provider_ok\<close>). \<open>Provider_State\<close>: accounts that are set are read back.
    \<open>Provider_Snapshots\<close>: what a revert restores. \<open>Provider_Chain\<close>: a mined block extends
    the chain. \<open>Provider_Events\<close>: filters get exactly the matching logs. \<open>Provider_Time\<close>:
    timestamps. \<open>Provider_Returns\<close>: requests end.

  \<^bold>\<open>Conventions.\<close> A panic is the value \<open>Panic\<close> of the type \<open>outcome\<close>, an error the left side of a sum.
  Arithmetic on words wraps around, as in the release build of the sources. An operation that changes
  a storage behind a lock through a shared reference returns the changed storage.
  A B-tree map is an association list that is ordered by its keys.

  \<^bold>\<open>Interfaces.\<close> \<open>total_comparator\<close> is what the iterator of the pool needs of an order, with the two
  orders of the miner as instances. \<open>index_map_spec\<close> states the laws of an insertion-ordered map.
  \<open>pool_insertion\<close> has what the two insertions into the pool share. \<open>block_store\<close> states what an
  index of blocks promises, and is interpreted for the sparse and the contiguous storage.

  \<^bold>\<open>Bounds and loops.\<close> The computations of the timestamp and of the slot number of a reserved block
  follow the reservations backwards and get one more unit of fuel than there are reservations, which
  is enough because each step leads to an earlier reservation; running out of it stands for the
  endless recursion of the code on an ill-formed list. The bisection of the gas estimation has the
  bound of the code, twenty rounds. The loop of the miner and the two loops of auto-mining are partial
  functions with the value \<open>None\<close> for no end; that the loop of the miner ends is proved, and the loops
  of auto-mining end only if the transaction gets into a block.

  \<^bold>\<open>Parameters.\<close> The EVM (\<^verbatim>\<open>revm\<close>), hashes, the roots of Merkle tries, the length of RLP encodings,
  setting and testing bits of a bloom filter, the blob parameters of \<^verbatim>\<open>alloy\<close>, the cache of states
  (\<^verbatim>\<open>LruCache\<close>), the inspectors and the clocks are arguments of the definitions that use them. What is assumed
  of them is a hypothesis of each theorem that needs it: that headers with different numbers have
  different hashes, that the EVM charges no transaction more than its gas limit, that it changes
  accounts only as the EIPs 161 and 684 allow (\<open>evm_journal\<close>), that a bit
  that was set in a bloom filter is found again (\<open>bloom_laws\<close>), and that the cache returns
  the state that was pushed last (\<open>cache_returns_pushed\<close>). Each is shown to be satisfiable
  by the witness of the theorem.

  \<^bold>\<open>Not modelled.\<close> The chain that is forked from a remote node, the RPC client and its caches, which are
  asynchronous network code; the interpreter of the EVM, the inspectors and the traces,
  which are third-party code or built on its internals; the OP chain; the stack traces of
  Solidity and the test runner of Foundry; the bindings for Node; serialization to JSON and RLP; signing
  and recovering of signatures; logging and the interval miner's thread. Of the requests these are left
  out: \<^verbatim>\<open>eth_call\<close> and the handler around the gas estimation, proofs, the fee history, block and
  transaction objects, raw transactions, debug traces and metadata. A transaction is sent to the model
  resolved and signed. Error variants that only a remote chain or a signature produces are left out.
\<close>

end
